(* ===== verification/Prelude.thy ===== *)
theory Prelude
  imports Main "HOL-Library.Word"
begin

text \<open>
  Shared vocabulary of the development: machine integers of the Go source, error values,
  slices, and the few functions of Go's \<^verbatim>\<open>bytes\<close>, \<^verbatim>\<open>strings\<close> and \<^verbatim>\<open>strconv\<close> packages the
  components call.  Strings and byte slices are both \<^typ>\<open>string\<close> (a character is one byte).
\<close>

named_theorems go_simps \<open>unfolding rules for the helpers of the Go standard library\<close>

section \<open>Machine integers\<close>

type_synonym u8 = "8 word"
type_synonym u16 = "16 word"
type_synonym u32 = "32 word"
type_synonym u64 = "64 word"
type_synonym i64 = "64 word" \<comment> \<open>two's complement, read with \<open>sint\<close>\<close>

lemma unat_u64_bound: "unat (x :: u64) < 2 ^ 64"
proof -
  have "unat x < 2 ^ LENGTH(64)"
    by (rule unsigned_less)
  then show ?thesis
    by simp
qed

lemma unat_inc_u64:
  assumes "unat (x :: u64) + 1 < 2 ^ 64"
  shows "unat (x + 1) = unat x + 1"
  using assms by (simp add: unat_word_ariths)

section \<open>Errors\<close>

text \<open>
  A Go \<^verbatim>\<open>error\<close>: a Windows error number (\<^verbatim>\<open>syscall.Errno\<close>), the sentinels the code compares
  with, a plain message, or a message wrapped around another error with \<^verbatim>\<open>%w\<close>.
\<close>

datatype gerr =
    Errno u32
  | ErrClosed
  | EOF
  | ErrText string
  | Wrapf string gerr

text \<open>A result that may be a run-time panic instead.\<close>

datatype 'a goResult = Ret 'a | Panic

text \<open>\<^verbatim>\<open>err.Error()\<close>; the text of an error number is the system's message table.\<close>

fun errorText :: "(u32 \<Rightarrow> string) \<Rightarrow> gerr \<Rightarrow> string" where
  "errorText msg (Errno n) = msg n"
| "errorText msg ErrClosed = ''file already closed''"
| "errorText msg EOF = ''EOF''"
| "errorText msg (ErrText s) = s"
| "errorText msg (Wrapf p e) = p @ errorText msg e"

text \<open>\<^verbatim>\<open>errors.Is\<close>: the error or one it wraps equals the target.\<close>

fun errorsIs :: "gerr \<Rightarrow> gerr \<Rightarrow> bool" where
  "errorsIs (Wrapf p e) t = (Wrapf p e = t \<or> errorsIs e t)"
| "errorsIs e t = (e = t)"

lemma errorsIs_refl [simp]: "errorsIs e e"
  by (cases e) simp_all

section \<open>Slices\<close>

text \<open>\<^verbatim>\<open>copy(dst, src)\<close>: the destination afterwards (it keeps its length).\<close>

definition goCopy :: "'a list \<Rightarrow> 'a list \<Rightarrow> 'a list" where
  "goCopy dst src = take (length dst) src @ drop (length src) dst"

lemma length_goCopy [simp]: "length (goCopy dst src) = length dst"
  by (simp add: goCopy_def)

lemma goCopy_shift [go_simps]:
  "xs \<noteq> [] \<Longrightarrow> take (length xs - 1) (goCopy xs (drop 1 xs)) = drop 1 xs"
  by (simp add: goCopy_def)

section \<open>Strings\<close>

text \<open>\<^verbatim>\<open>TrimRight(s, c)\<close> for a one-byte cutset.\<close>

definition trimRight :: "char \<Rightarrow> string \<Rightarrow> string" where
  "trimRight c s = rev (dropWhile (\<lambda>x. x = c) (rev s))"

text \<open>\<^verbatim>\<open>Split(s, sep)\<close> for a one-byte separator: never the empty list.\<close>

fun splitOn :: "char \<Rightarrow> string \<Rightarrow> string list" where
  "splitOn c [] = [[]]"
| "splitOn c (x # xs) =
     (if x = c then [] # splitOn c xs
      else (case splitOn c xs of [] \<Rightarrow> [[x]] | y # ys \<Rightarrow> (x # y) # ys))"

text \<open>\<^verbatim>\<open>strings.Join\<close>.\<close>

fun joinWith :: "string \<Rightarrow> string list \<Rightarrow> string" where
  "joinWith sep [] = []"
| "joinWith sep [x] = x"
| "joinWith sep (x # y # ys) = x @ sep @ joinWith sep (y # ys)"

lemma splitOn_nonempty [simp]: "splitOn c s \<noteq> []"
  by (induction s) (auto split: list.splits)

lemma splitOn_no_sep: "c \<notin> set s \<Longrightarrow> splitOn c s = [s]"
  by (induction s) auto

lemma splitOn_append_sep:
  "c \<notin> set s \<Longrightarrow> splitOn c (s @ c # t) = s # splitOn c t"
  by (induction s) auto

lemma splitOn_joinWith:
  "xs \<noteq> [] \<Longrightarrow> \<forall>x\<in>set xs. c \<notin> set x \<Longrightarrow> splitOn c (joinWith [c] xs) = xs"
  by (induction "[c]" xs rule: joinWith.induct)
     (auto simp: splitOn_no_sep splitOn_append_sep)

lemma joinWith_splitOn: "joinWith [c] (splitOn c s) = s"
proof (induction s)
  case (Cons x xs)
  then show ?case
    by (cases "splitOn c xs"; cases "tl (splitOn c xs)") (auto split: list.splits)
qed simp

lemma splitOn_pieces: "x \<in> set (splitOn c s) \<Longrightarrow> c \<notin> set x"
  by (induction s arbitrary: x) (auto split: list.splits if_splits)

lemma trimRight_Nil [simp]: "trimRight c [] = []"
  by (simp add: trimRight_def)

lemma trimRight_snoc_same [simp]: "trimRight c (s @ [c]) = trimRight c s"
  by (simp add: trimRight_def)

lemma trimRight_keep: "s = [] \<or> last s \<noteq> c \<Longrightarrow> trimRight c s = s"
  by (cases s rule: rev_cases) (auto simp: trimRight_def)

lemma trimRight_last: "trimRight c s \<noteq> [] \<Longrightarrow> last (trimRight c s) \<noteq> c"
  using hd_dropWhile [of "\<lambda>x. x = c" "rev s"] by (auto simp: trimRight_def last_rev)

end
