(* ===== verification/Netip.thy ===== *)
theory Netip
  imports Prelude
begin

text \<open>
  What the program uses of Go's address packages: \<^verbatim>\<open>net/netip\<close> (\<^verbatim>\<open>Addr\<close>, \<^verbatim>\<open>Prefix\<close>, \<^verbatim>\<open>AddrPort\<close>,
  parsing and printing), \<^verbatim>\<open>net.SplitHostPort\<close>, \<^verbatim>\<open>net.IP.To4\<close>, \<^verbatim>\<open>strings.TrimSpace\<close> and decimal
  conversion from \<^verbatim>\<open>strconv\<close>.  A parser returns \<^const>\<open>None\<close> for an error: the callers only ask
  whether there was one.
\<close>

section \<open>Decimal numbers\<close>

definition isDigit :: "char \<Rightarrow> bool" where
  "isDigit c \<longleftrightarrow> 48 \<le> (of_char c :: nat) \<and> (of_char c :: nat) \<le> 57"

definition digitVal :: "char \<Rightarrow> nat" where
  "digitVal c = of_char c - 48"

definition digitChar :: "nat \<Rightarrow> char" where
  "digitChar n = char_of (48 + n)"

definition decValue :: "string \<Rightarrow> nat" where
  "decValue s = foldl (\<lambda>a c. a * 10 + digitVal c) 0 s"

text \<open>\<^verbatim>\<open>strconv.ParseUint(s, 10, bits)\<close> with \<open>bound = 2 ^ bits\<close>.\<close>

definition parseUint :: "int \<Rightarrow> string \<Rightarrow> nat option" where
  "parseUint bound s =
     (if s \<noteq> [] \<and> list_all isDigit s \<and> int (decValue s) < bound then Some (decValue s) else None)"

text \<open>\<^verbatim>\<open>strconv.FormatUint(n, 10)\<close>.\<close>

fun formatUint :: "nat \<Rightarrow> string" where
  "formatUint n = (if n < 10 then [digitChar n] else formatUint (n div 10) @ [digitChar (n mod 10)])"

declare formatUint.simps [simp del]

lemma of_char_digitChar: "n < 10 \<Longrightarrow> (of_char (digitChar n) :: nat) = 48 + n"
  by (simp add: digitChar_def)

lemma digitChar_digit [simp]: "n < 10 \<Longrightarrow> isDigit (digitChar n)"
  by (simp add: isDigit_def of_char_digitChar)

lemma digitVal_digitChar [simp]: "n < 10 \<Longrightarrow> digitVal (digitChar n) = n"
  by (simp add: digitVal_def of_char_digitChar)

lemma formatUint_nonempty [simp]: "formatUint n \<noteq> []"
  by (subst formatUint.simps) simp

lemma formatUint_digits: "list_all isDigit (formatUint n)"
proof (induction n rule: formatUint.induct)
  case (1 n)
  then show ?case
    by (subst formatUint.simps) simp
qed

lemma decValue_snoc [simp]: "decValue (s @ [c]) = decValue s * 10 + digitVal c"
  by (simp add: decValue_def)

lemma decValue_formatUint [simp]: "decValue (formatUint n) = n"
proof (induction n rule: formatUint.induct)
  case (1 n)
  show ?case
  proof (cases "n < 10")
    case True
    then show ?thesis
      by (subst formatUint.simps) (simp add: decValue_def)
  next
    case False
    with 1 show ?thesis
      by (subst formatUint.simps) simp
  qed
qed

lemma parseUint_formatUint: "int n < bound \<Longrightarrow> parseUint bound (formatUint n) = Some n"
  by (simp add: parseUint_def formatUint_digits)

section \<open>Trimming white space\<close>

text \<open>
  \<^verbatim>\<open>strings.TrimSpace\<close> removes the UTF-8 encodings of Unicode white space at both ends.  A
  white-space rune at either end of a string is recognised by its bytes alone.
\<close>

definition spaceCodes :: "string list" where
  "spaceCodes =
     [[CHR 0x09], [CHR 0x0A], [CHR 0x0B], [CHR 0x0C], [CHR 0x0D], [CHR 0x20],
      [CHR 0xC2, CHR 0x85], [CHR 0xC2, CHR 0xA0], [CHR 0xE1, CHR 0x9A, CHR 0x80],
      [CHR 0xE2, CHR 0x80, CHR 0x80], [CHR 0xE2, CHR 0x80, CHR 0x81],
      [CHR 0xE2, CHR 0x80, CHR 0x82], [CHR 0xE2, CHR 0x80, CHR 0x83],
      [CHR 0xE2, CHR 0x80, CHR 0x84], [CHR 0xE2, CHR 0x80, CHR 0x85],
      [CHR 0xE2, CHR 0x80, CHR 0x86], [CHR 0xE2, CHR 0x80, CHR 0x87],
      [CHR 0xE2, CHR 0x80, CHR 0x88], [CHR 0xE2, CHR 0x80, CHR 0x89],
      [CHR 0xE2, CHR 0x80, CHR 0x8A], [CHR 0xE2, CHR 0x80, CHR 0xA8],
      [CHR 0xE2, CHR 0x80, CHR 0xA9], [CHR 0xE2, CHR 0x80, CHR 0xAF],
      [CHR 0xE2, CHR 0x81, CHR 0x9F], [CHR 0xE3, CHR 0x80, CHR 0x80]]"

definition dropCode :: "string list \<Rightarrow> string \<Rightarrow> string option" where
  "dropCode codes s =
     map_option (\<lambda>c. drop (length c) s) (find (\<lambda>c. c \<noteq> [] \<and> take (length c) s = c) codes)"

lemma dropCode_shorter: "dropCode codes s = Some t \<Longrightarrow> length t < length s"
  by (auto simp: dropCode_def find_Some_iff)
     (metis diff_less length_greater_0_conv list.size(3) take_eq_Nil)

function trimLeftCodes :: "string list \<Rightarrow> string \<Rightarrow> string" where
  "trimLeftCodes codes s =
     (case dropCode codes s of None \<Rightarrow> s | Some t \<Rightarrow> trimLeftCodes codes t)"
  by pat_completeness auto
termination
  by (relation "measure (\<lambda>(codes, s). length s)") (auto dest: dropCode_shorter)

definition trimSpace :: "string \<Rightarrow> string" where
  "trimSpace s = rev (trimLeftCodes (map rev spaceCodes) (rev (trimLeftCodes spaceCodes s)))"

declare trimLeftCodes.simps [simp del]

section \<open>Addresses and prefixes\<close>

text \<open>\<^verbatim>\<open>netip.Addr\<close>: the zero value, an IPv4 address, or an IPv6 address with its zone.\<close>

datatype Addr =
    NoAddr
  | Addr4 u8 u8 u8 u8
  | Addr6 "u8 list" string

fun addr_wf :: "Addr \<Rightarrow> bool" where
  "addr_wf (Addr6 bs z) = (length bs = 16)"
| "addr_wf a = True"

fun addrIs4 :: "Addr \<Rightarrow> bool" where
  "addrIs4 (Addr4 a b c d) = True" | "addrIs4 x = False"

fun addrIs6 :: "Addr \<Rightarrow> bool" where
  "addrIs6 (Addr6 bs z) = True" | "addrIs6 x = False"

definition addrIsValid :: "Addr \<Rightarrow> bool" where
  "addrIsValid a \<longleftrightarrow> a \<noteq> NoAddr"

fun addrBitLen :: "Addr \<Rightarrow> int" where
  "addrBitLen NoAddr = 0"
| "addrBitLen (Addr4 a b c d) = 32"
| "addrBitLen (Addr6 bs z) = 128"

fun addrZone :: "Addr \<Rightarrow> string" where
  "addrZone (Addr6 bs z) = z" | "addrZone x = []"

fun addrWithZone :: "Addr \<Rightarrow> string \<Rightarrow> Addr" where
  "addrWithZone (Addr6 bs z) z' = Addr6 bs z'" | "addrWithZone x z' = x"

definition IPv4Unspecified :: Addr where
  "IPv4Unspecified = Addr4 0 0 0 0"

text \<open>\<^verbatim>\<open>netip.AddrFromSlice\<close>.\<close>

definition AddrFromSlice :: "u8 list \<Rightarrow> Addr option" where
  "AddrFromSlice bs =
     (case bs of [a, b, c, d] \<Rightarrow> Some (Addr4 a b c d)
      | _ \<Rightarrow> if length bs = 16 then Some (Addr6 bs []) else None)"

text \<open>\<^verbatim>\<open>net.IP.To4\<close> on a byte slice.\<close>

definition ipTo4 :: "u8 list \<Rightarrow> u8 list option" where
  "ipTo4 ip =
     (if length ip = 4 then Some ip
      else if length ip = 16 \<and> take 10 ip = replicate 10 0 \<and> take 2 (drop 10 ip) = [255, 255]
      then Some (drop 12 ip) else None)"

text \<open>
  \<^verbatim>\<open>netip.Prefix\<close>: an address without zone and \<^verbatim>\<open>bitsPlusOne\<close>, which is 0 for an invalid
  prefix; \<^verbatim>\<open>Bits()\<close> is then \<open>-1\<close>.
\<close>

record Prefix =
  pfxAddr :: Addr
  pfxBits :: int

definition zeroPrefix :: Prefix where
  "zeroPrefix = \<lparr>pfxAddr = NoAddr, pfxBits = -1\<rparr>"

definition PrefixFrom :: "Addr \<Rightarrow> int \<Rightarrow> Prefix" where
  "PrefixFrom ip bits =
     \<lparr>pfxAddr = addrWithZone ip [],
      pfxBits = (if addrIsValid ip \<and> 0 \<le> bits \<and> bits \<le> addrBitLen ip then bits else -1)\<rparr>"

definition prefixIsValid :: "Prefix \<Rightarrow> bool" where
  "prefixIsValid p \<longleftrightarrow> 0 \<le> pfxBits p"

text \<open>The prefixes a program can hold: every one is a result of \<^verbatim>\<open>PrefixFrom\<close> or the zero value.\<close>

definition prefix_wf :: "Prefix \<Rightarrow> bool" where
  "prefix_wf p \<longleftrightarrow> addr_wf (pfxAddr p) \<and> addrZone (pfxAddr p) = [] \<and>
     (pfxBits p = -1 \<or> addrIsValid (pfxAddr p) \<and> 0 \<le> pfxBits p \<and> pfxBits p \<le> addrBitLen (pfxAddr p))"

lemma prefix_wf_zero [simp]: "prefix_wf zeroPrefix"
  by (simp add: prefix_wf_def zeroPrefix_def)

lemma prefix_wf_PrefixFrom [simp]: "addr_wf ip \<Longrightarrow> prefix_wf (PrefixFrom ip bits)"
  by (cases ip) (auto simp: prefix_wf_def PrefixFrom_def addrIsValid_def)

section \<open>Parsing\<close>

fun ipv4Fields :: "nat \<Rightarrow> nat \<Rightarrow> bool \<Rightarrow> u8 list \<Rightarrow> string \<Rightarrow> u8 list option" where
  "ipv4Fields val digLen start fs [] =
     (if length fs < 3 then None else Some (fs @ [of_nat val]))"
| "ipv4Fields val digLen start fs (c # cs) =
     (if isDigit c then
        if digLen = 1 \<and> val = 0 then None
        else let val = val * 10 + digitVal c
             in if val > 255 then None else ipv4Fields val (digLen + 1) False fs cs
      else if c = CHR ''.'' then
        if start \<or> cs = [] then None
        else if length fs = 3 then None
        else ipv4Fields 0 0 True (fs @ [of_nat val]) cs
      else None)"

definition parseIPv4 :: "string \<Rightarrow> Addr option" where
  "parseIPv4 s = (case ipv4Fields 0 0 True [] s of
     Some [a, b, c, d] \<Rightarrow> Some (Addr4 a b c d) | _ \<Rightarrow> None)"

definition hexVal :: "char \<Rightarrow> nat option" where
  "hexVal c = (let n = of_char c in
     if 48 \<le> n \<and> n \<le> 57 then Some (n - 48)
     else if 97 \<le> n \<and> n \<le> 102 then Some (n - 87)
     else if 65 \<le> n \<and> n \<le> 70 then Some (n - 55) else None)"

fun hexRun :: "nat \<Rightarrow> nat \<Rightarrow> string \<Rightarrow> (nat \<times> nat \<times> string) option" where
  "hexRun off acc [] = Some (off, acc, [])"
| "hexRun off acc (c # cs) =
     (case hexVal c of
        None \<Rightarrow> Some (off, acc, c # cs)
      | Some d \<Rightarrow>
          let acc = acc * 16 + d
          in if off > 3 then None else if acc > 65535 then None else hexRun (off + 1) acc cs)"

text \<open>The field loop of \<^verbatim>\<open>parseIPv6\<close>: bytes so far, position of the ellipsis, rest of the input.\<close>

function v6Fields ::
  "u8 list \<Rightarrow> nat option \<Rightarrow> string \<Rightarrow> (u8 list \<times> nat option \<times> string) option" where
  "v6Fields ip ell s =
     (if 16 \<le> length ip then Some (ip, ell, s)
      else case hexRun 0 0 s of
        None \<Rightarrow> None
      | Some (off, acc, rest) \<Rightarrow>
          if off = 0 then None
          else if rest \<noteq> [] \<and> hd rest = CHR ''.'' then
            if ell = None \<and> length ip \<noteq> 12 then None
            else if length ip + 4 > 16 then None
            else map_option (\<lambda>fs. (ip @ fs, ell, [])) (ipv4Fields 0 0 True [] s)
          else
            let ip' = ip @ [of_nat (acc div 256), of_nat (acc mod 256)] in
            (case rest of
               [] \<Rightarrow> Some (ip', ell, [])
             | c # rest1 \<Rightarrow>
                 if c \<noteq> CHR '':'' \<or> rest1 = [] then None
                 else if hd rest1 = CHR '':'' then
                   if ell \<noteq> None then None
                   else if tl rest1 = [] then Some (ip', Some (length ip'), [])
                   else v6Fields ip' (Some (length ip')) (tl rest1)
                 else v6Fields ip' ell rest1))"
  by pat_completeness auto
termination
  by (relation "measure (\<lambda>(ip, ell, s). 16 - length ip)") auto

declare v6Fields.simps [simp del]

definition parseIPv6 :: "string \<Rightarrow> Addr option" where
  "parseIPv6 inp =
     (let hasZone = CHR ''%'' \<in> set inp;
          s = takeWhile (\<lambda>c. c \<noteq> CHR ''%'') inp;
          zone = drop (length s + 1) inp
      in if hasZone \<and> zone = [] then None
         else if s = ''::'' then Some (Addr6 (replicate 16 0) zone)
         else let ell0 = take 2 s = ''::'' in
           case v6Fields [] (if ell0 then Some 0 else None) (if ell0 then drop 2 s else s) of
             None \<Rightarrow> None
           | Some (ip, ell, rest) \<Rightarrow>
               if rest \<noteq> [] then None
               else if length ip < 16 then
                 (case ell of
                    None \<Rightarrow> None
                  | Some e \<Rightarrow>
                      Some (Addr6 (take e ip @ replicate (16 - length ip) 0 @ drop e ip) zone))
               else if ell \<noteq> None then None
               else Some (Addr6 ip zone))"

fun ParseAddrFrom :: "string \<Rightarrow> string \<Rightarrow> Addr option" where
  "ParseAddrFrom s [] = None"
| "ParseAddrFrom s (c # cs) =
     (if c = CHR ''.'' then parseIPv4 s
      else if c = CHR '':'' then parseIPv6 s
      else if c = CHR ''%'' then None
      else ParseAddrFrom s cs)"

definition ParseAddr :: "string \<Rightarrow> Addr option" where
  "ParseAddr s = ParseAddrFrom s s"

text \<open>The part before and after the last occurrence of a byte.\<close>

definition splitLast :: "char \<Rightarrow> string \<Rightarrow> (string \<times> string) option" where
  "splitLast c s =
     (if c \<in> set s
      then let after = rev (takeWhile (\<lambda>x. x \<noteq> c) (rev s))
           in Some (take (length s - length after - 1) s, after)
      else None)"

definition ParsePrefix :: "string \<Rightarrow> Prefix option" where
  "ParsePrefix s =
     (case splitLast (CHR ''/'') s of
        None \<Rightarrow> None
      | Some (a, bitsStr) \<Rightarrow>
          (case ParseAddr a of
             None \<Rightarrow> None
           | Some ip \<Rightarrow>
               if addrIs6 ip \<and> addrZone ip \<noteq> [] then None
               else if length bitsStr > 1 \<and> \<not> (isDigit (hd bitsStr) \<and> hd bitsStr \<noteq> CHR ''0'') then None
               else (case parseUint (2 ^ 63) bitsStr of
                       None \<Rightarrow> None
                     | Some bits \<Rightarrow>
                         if int bits > addrBitLen ip then None
                         else Some (PrefixFrom ip (int bits)))))"

section \<open>Parsed values are well formed\<close>

lemma ipv4Fields_length:
  "ipv4Fields v d st fs s = Some r \<Longrightarrow> length fs \<le> 3 \<Longrightarrow> length r = 4"
  by (induction v d st fs s arbitrary: r rule: ipv4Fields.induct)
     (auto split: if_splits simp: Let_def)

lemma v6Fields_length:
  "v6Fields ip ell s = Some (ip', ell', rest) \<Longrightarrow> even (length ip) \<Longrightarrow> length ip \<le> 16
    \<Longrightarrow> length ip' \<le> 16"
proof (induction ip ell s arbitrary: ip' ell' rest rule: v6Fields.induct)
  case (1 ip ell s)
  show ?case
  proof (cases "16 \<le> length ip")
    case True
    then show ?thesis
      using "1.prems" by (subst (asm) v6Fields.simps) auto
  next
    case False
    then have short: "length ip + 2 \<le> 16"
      using "1.prems"(2) by presburger
    obtain off acc r where run: "hexRun 0 0 s = Some (off, acc, r)" "off \<noteq> 0"
      using "1.prems"(1) False by (subst (asm) v6Fields.simps) (auto split: option.splits if_splits)
    note IH = "1.IH" [OF False run(1) refl refl run(2)]
    note res = "1.prems"(1) [unfolded v6Fields.simps [of ip ell s]]
    show ?thesis
      using res False run short IH "1.prems"(2)
      by (auto split: option.splits if_splits list.splits simp: Let_def dest: ipv4Fields_length)
  qed
qed

lemma ParseAddr_wf: "ParseAddr s = Some a \<Longrightarrow> addr_wf a \<and> addrIsValid a"
proof -
  have v4: "parseIPv4 t = Some a \<Longrightarrow> addr_wf a \<and> addrIsValid a" for t
    by (auto simp: parseIPv4_def addrIsValid_def split: option.splits list.splits)
  have fields: "length ip = 16" if "v6Fields [] ell t = Some (ip, r)" "\<not> length ip < 16" for ell t ip r
    using that v6Fields_length [of "[]" ell t ip "fst r" "snd r"] by simp
  have fill: "length (take e ip @ replicate (16 - length ip) 0 @ drop e ip) = 16"
    if "length ip < 16" for e and ip :: "u8 list"
    using that by simp
  have v6: "addr_wf a \<and> addrIsValid a" if parsed: "parseIPv6 t = Some a" for t
  proof -
    consider zone where "a = Addr6 (replicate 16 0) zone"
      | e ip zone where "a = Addr6 (take e ip @ replicate (16 - length ip) 0 @ drop e ip) zone"
          "length ip < 16"
      | ell u ip r zone where "v6Fields [] ell u = Some (ip, r)" "\<not> length ip < 16" "a = Addr6 ip zone"
      using parsed unfolding parseIPv6_def Let_def
      by (auto split: option.splits if_splits prod.splits)
    then show ?thesis
      using fields fill by cases (simp_all add: addrIsValid_def)
  qed
  have "ParseAddrFrom t u = Some a \<Longrightarrow> addr_wf a \<and> addrIsValid a" for t u
    by (induction t u rule: ParseAddrFrom.induct) (auto dest: v4 v6 split: if_splits)
  then show "ParseAddr s = Some a \<Longrightarrow> addr_wf a \<and> addrIsValid a"
    by (simp add: ParseAddr_def)
qed

lemma ParsePrefix_wf: "ParsePrefix s = Some p \<Longrightarrow> prefix_wf p \<and> addrIsValid (pfxAddr p) \<and> 0 \<le> pfxBits p"
proof -
  assume "ParsePrefix s = Some p"
  then obtain a b ip bits where "ParseAddr a = Some ip" "parseUint (2 ^ 63) b = Some bits"
      "int bits \<le> addrBitLen ip" and p: "p = PrefixFrom ip (int bits)"
    by (auto simp: ParsePrefix_def split: option.splits if_splits prod.splits)
  moreover from this have "addr_wf ip" "addrIsValid ip"
    using ParseAddr_wf by blast+
  ultimately show ?thesis
    by (cases ip) (auto simp: PrefixFrom_def prefix_wf_def addrIsValid_def)
qed

section \<open>Printing\<close>

definition string4 :: "u8 \<Rightarrow> u8 \<Rightarrow> u8 \<Rightarrow> u8 \<Rightarrow> string" where
  "string4 a b c d = joinWith ''.'' (map (\<lambda>x. formatUint (unat x)) [a, b, c, d])"

definition hexDigit :: "nat \<Rightarrow> char" where
  "hexDigit n = char_of (if n < 10 then 48 + n else 87 + n)"

fun formatHex :: "nat \<Rightarrow> string" where
  "formatHex n = (if n < 16 then [hexDigit n] else formatHex (n div 16) @ [hexDigit (n mod 16)])"

declare formatHex.simps [simp del]

lemma hexVal_hexDigit: "n < 16 \<Longrightarrow> hexVal (hexDigit n) = Some n"
  by (auto simp: hexVal_def hexDigit_def Let_def)

definition v6u16 :: "u8 list \<Rightarrow> nat \<Rightarrow> nat" where
  "v6u16 bs i = unat (bs ! (2 * i)) * 256 + unat (bs ! (2 * i + 1))"

definition zeroRunFrom :: "u8 list \<Rightarrow> nat \<Rightarrow> nat" where
  "zeroRunFrom bs i = length (takeWhile (\<lambda>j. v6u16 bs j = 0) [i ..< 8])"

definition longestZeroRun :: "u8 list \<Rightarrow> nat \<times> nat" where
  "longestZeroRun bs =
     foldl (\<lambda>(st, len) i. let l = zeroRunFrom bs i in if l \<ge> 2 \<and> l > len then (i, l) else (st, len))
       (255, 0) [0 ..< 8]"

definition string6 :: "u8 list \<Rightarrow> string \<Rightarrow> string" where
  "string6 bs zone =
     (let (st, len) = longestZeroRun bs;
          groups = (\<lambda>is. joinWith '':'' (map (\<lambda>i. formatHex (v6u16 bs i)) is));
          body = (if len = 0 then groups [0 ..< 8]
                  else groups [0 ..< st] @ ''::'' @ groups [st + len ..< 8])
      in body @ (if zone = [] then [] else ''%'' @ zone))"

fun addrString :: "Addr \<Rightarrow> string" where
  "addrString NoAddr = ''invalid IP''"
| "addrString (Addr4 a b c d) = string4 a b c d"
| "addrString (Addr6 bs z) =
     (case ipTo4 bs of
        Some [a, b, c, d] \<Rightarrow> ''::ffff:'' @ string4 a b c d @ (if z = [] then [] else ''%'' @ z)
      | _ \<Rightarrow> string6 bs z)"

section \<open>Host and port\<close>

definition indexOf :: "char \<Rightarrow> string \<Rightarrow> nat" where
  "indexOf c s = length (takeWhile (\<lambda>x. x \<noteq> c) s)"

definition SplitHostPort :: "string \<Rightarrow> (string \<times> string) option" where
  "SplitHostPort hp =
     (case splitLast (CHR '':'') hp of
        None \<Rightarrow> None
      | Some (pre, port) \<Rightarrow>
          let i = length pre in
          if hd hp = CHR ''['' then
            let e = indexOf (CHR '']'') hp in
            if CHR '']'' \<notin> set hp \<or> e + 1 \<noteq> i then None
            else if CHR ''['' \<in> set (drop 1 hp) \<or> CHR '']'' \<in> set (drop (e + 1) hp) then None
            else Some (take (e - 1) (drop 1 hp), port)
          else if CHR '':'' \<in> set pre then None
          else if CHR ''['' \<in> set hp \<or> CHR '']'' \<in> set hp then None
          else Some (pre, port))"

end
