(* ===== verification/Netip_Text.thy ===== *)
theory Netip_Text
  imports Netip
begin

text \<open>
  The text form of addresses and prefixes reads back: \<^verbatim>\<open>netip.ParseAddr\<close> undoes \<^verbatim>\<open>Addr.String\<close> for every
  valid address, the shortened forms of IPv6 included.  \<^verbatim>\<open>src/winipcfg/luid.go\<close> hands addresses to the system
  in this form.
\<close>

section \<open>IPv4\<close>

lemma formatUint_byte:
  "n < 10 \<Longrightarrow> formatUint n = [digitChar n]"
  "10 \<le> n \<Longrightarrow> n < 100 \<Longrightarrow> formatUint n = [digitChar (n div 10), digitChar (n mod 10)]"
  "100 \<le> n \<Longrightarrow> n < 1000 \<Longrightarrow>
    formatUint n = [digitChar (n div 10 div 10), digitChar (n div 10 mod 10), digitChar (n mod 10)]"
proof -
  have "100 \<le> n \<Longrightarrow> n < 1000 \<Longrightarrow> \<not> n div 10 < 10 \<and> n div 10 div 10 < 10"
    by linarith
  then show "n < 10 \<Longrightarrow> formatUint n = [digitChar n]"
    "10 \<le> n \<Longrightarrow> n < 100 \<Longrightarrow> formatUint n = [digitChar (n div 10), digitChar (n mod 10)]"
    "100 \<le> n \<Longrightarrow> n < 1000 \<Longrightarrow>
      formatUint n = [digitChar (n div 10 div 10), digitChar (n div 10 mod 10), digitChar (n mod 10)]"
    by (simp_all add: formatUint.simps [of n] formatUint.simps [of "n div 10"] formatUint.simps [of "n div 10 div 10"])
qed

lemma ipv4Fields_digit:
  "d < 10 \<Longrightarrow> k \<noteq> 1 \<or> v \<noteq> 0 \<Longrightarrow> v * 10 + d \<le> 255 \<Longrightarrow>
   ipv4Fields v k st fs (digitChar d # cs) = ipv4Fields (v * 10 + d) (k + 1) False fs cs"
  by (auto simp: Let_def)

lemma ipv4Fields_byte:
  assumes "n \<le> 255"
  shows "ipv4Fields 0 0 True fs (formatUint n @ rest) = ipv4Fields n (length (formatUint n)) False fs rest"
proof -
  consider "n < 10" | "10 \<le> n" "n < 100" | "100 \<le> n"
    by linarith
  then show ?thesis
  proof cases
    case 1
    then show ?thesis
      by (simp add: formatUint_byte ipv4Fields_digit del: ipv4Fields.simps)
  next
    case 2
    then have "n div 10 * 10 + n mod 10 = n" "0 < n div 10" "n div 10 < 10" "n div 10 \<le> 255"
      by simp_all
    then show ?thesis
      using 2 assms by (simp add: formatUint_byte ipv4Fields_digit del: ipv4Fields.simps)
  next
    case 3
    have "n div 10 div 10 * 10 + n div 10 mod 10 = n div 10" "n div 10 * 10 + n mod 10 = n"
      by simp_all
    moreover have "0 < n div 10 div 10" "n div 10 div 10 < 10" "0 < n div 10" "n div 10 \<le> 255" "n div 10 div 10 \<le> 255"
      using 3 assms by linarith+
    ultimately show ?thesis
      using 3 assms by (simp add: formatUint_byte(3) ipv4Fields_digit del: ipv4Fields.simps div_mult2_eq)
  qed
qed

lemma ipv4Fields_string4: "ipv4Fields 0 0 True [] (string4 a b c d) = Some [a, b, c, d]"
proof -
  have "unat x \<le> 255" for x :: u8
    using unsigned_less [of x, where 'a = nat] by simp
  note byte = ipv4Fields_byte [OF this]
  have dot: "ipv4Fields v k False fs (CHR ''.'' # formatUint n @ t) = ipv4Fields 0 0 True (fs @ [of_nat v]) (formatUint n @ t)"
    if "length fs < 3" for v k fs n t
    using that by (simp add: isDigit_def)
  have last: "ipv4Fields v k False fs [] = (if length fs < 3 then None else Some (fs @ [of_nat v]))" for v k fs
    by simp
  show ?thesis
    using byte [of "[a, b, c]" d "[]"] dot [of "[a, b]" _ _ "unat d" "[]"]
    by (simp add: string4_def byte dot last del: ipv4Fields.simps)
qed

section \<open>IPv6\<close>

lemma formatHex_group:
  "n < 16 \<Longrightarrow> formatHex n = [hexDigit n]"
  "16 \<le> n \<Longrightarrow> n < 256 \<Longrightarrow> formatHex n = [hexDigit (n div 16), hexDigit (n mod 16)]"
  "256 \<le> n \<Longrightarrow> n < 4096 \<Longrightarrow>
    formatHex n = [hexDigit (n div 16 div 16), hexDigit (n div 16 mod 16), hexDigit (n mod 16)]"
  "4096 \<le> n \<Longrightarrow> n < 65536 \<Longrightarrow>
    formatHex n = [hexDigit (n div 16 div 16 div 16), hexDigit (n div 16 div 16 mod 16),
      hexDigit (n div 16 mod 16), hexDigit (n mod 16)]"
proof -
  show "n < 16 \<Longrightarrow> formatHex n = [hexDigit n]" for n
    by (simp add: formatHex.simps [of n])
  then show two: "16 \<le> n \<Longrightarrow> n < 256 \<Longrightarrow> formatHex n = [hexDigit (n div 16), hexDigit (n mod 16)]" for n
    by (simp add: formatHex.simps [of n])
  then show three: "256 \<le> n \<Longrightarrow> n < 4096 \<Longrightarrow>
      formatHex n = [hexDigit (n div 16 div 16), hexDigit (n div 16 mod 16), hexDigit (n mod 16)]" for n
    using formatHex.simps [of n] by (simp add: less_mult_imp_div_less del: div_mult2_eq)
  show "4096 \<le> n \<Longrightarrow> n < 65536 \<Longrightarrow>
      formatHex n = [hexDigit (n div 16 div 16 div 16), hexDigit (n div 16 div 16 mod 16),
        hexDigit (n div 16 mod 16), hexDigit (n mod 16)]"
    using formatHex.simps [of n] three [of "n div 16"] by (simp add: less_mult_imp_div_less del: div_mult2_eq)
qed

lemma hexRun_digit:
  "d < 16 \<Longrightarrow> k \<le> 3 \<Longrightarrow> v * 16 + d \<le> 65535 \<Longrightarrow>
   hexRun k v (hexDigit d # cs) = hexRun (k + 1) (v * 16 + d) cs"
  by (simp add: hexVal_hexDigit Let_def)

definition notHex :: "string \<Rightarrow> bool" where
  "notHex s \<longleftrightarrow> (case s of [] \<Rightarrow> True | c # _ \<Rightarrow> hexVal c = None)"

lemma hexRun_stop: "notHex rest \<Longrightarrow> hexRun k v rest = Some (k, v, rest)"
  by (cases rest) (auto simp: notHex_def)

lemma hexRun_group:
  assumes "n < 65536" "notHex rest"
  shows "hexRun 0 0 (formatHex n @ rest) = Some (length (formatHex n), n, rest)"
proof -
  have parts: "n div 16 * 16 + n mod 16 = n" "n div 16 div 16 * 16 + n div 16 mod 16 = n div 16"
    "n div 16 div 16 div 16 * 16 + n div 16 div 16 mod 16 = n div 16 div 16"
    by simp_all
  have bounds: "n \<le> 65535" "n div 16 \<le> 65535" "n div 16 div 16 \<le> 65535" "n div 16 div 16 div 16 < 16"
    "n div 16 div 16 div 16 \<le> 65535"
    using assms(1) by linarith+
  consider "n < 16" | "16 \<le> n" "n < 256" | "256 \<le> n" "n < 4096" | "4096 \<le> n"
    by linarith
  then show ?thesis
  proof cases
    case 3
    then have "n div 16 div 16 < 16"
      by linarith
    then show ?thesis
      using 3 assms parts bounds
      by (simp add: formatHex_group(3) hexRun_digit hexRun_stop del: hexRun.simps div_mult2_eq)
  next
    case 4
    then show ?thesis
      using assms parts bounds
      by (simp add: formatHex_group(4) hexRun_digit hexRun_stop del: hexRun.simps div_mult2_eq)
  qed (use assms parts bounds in
      \<open>simp_all add: formatHex_group hexRun_digit hexRun_stop del: hexRun.simps\<close>)
qed

text \<open>Groups of sixteen bits, as text and as bytes.\<close>

definition hexText :: "nat list \<Rightarrow> string" where
  "hexText gs = joinWith '':'' (map formatHex gs)"

definition groupBytes :: "nat list \<Rightarrow> u8 list" where
  "groupBytes gs = concat (map (\<lambda>g. [of_nat (g div 256), of_nat (g mod 256)]) gs)"

lemma groupBytes_simps [simp]:
  "groupBytes [] = []" "groupBytes (g # gs) = of_nat (g div 256) # of_nat (g mod 256) # groupBytes gs"
  "groupBytes (xs @ ys) = groupBytes xs @ groupBytes ys"
  by (simp_all add: groupBytes_def)

lemma length_groupBytes [simp]: "length (groupBytes gs) = 2 * length gs"
  by (induction gs) simp_all

lemma groupBytes_zero: "\<forall>g\<in>set gs. g = 0 \<Longrightarrow> groupBytes gs = replicate (2 * length gs) 0"
  by (induction gs) simp_all

lemma formatHex_chars: "c \<in> set (formatHex n) \<Longrightarrow> hexVal c \<noteq> None"
proof (induction n rule: formatHex.induct)
  case (1 n)
  then show ?case
    by (subst (asm) (2) formatHex.simps) (auto simp: hexVal_hexDigit split: if_splits)
qed

lemma formatHex_nonempty [simp]: "formatHex n \<noteq> []"
  by (subst formatHex.simps) simp

lemma hexVal_marks [simp]: "hexVal (CHR '':'') = None" "hexVal (CHR ''.'') = None" "hexVal (CHR ''%'') = None"
  by (simp_all add: hexVal_def)

lemma hexText_simps [simp]:
  "hexText [] = []" "hexText [g] = formatHex g"
  "gs \<noteq> [] \<Longrightarrow> hexText (g # gs) = formatHex g @ CHR '':'' # hexText gs"
  by (cases gs; simp add: hexText_def)+

lemma hexText_head: "gs \<noteq> [] \<Longrightarrow> \<exists>c t. hexText gs = c # t \<and> hexVal c \<noteq> None"
proof (cases gs)
  case (Cons g gs')
  then show ?thesis
    using formatHex_chars [of _ g] by (cases "formatHex g"; cases "gs' = []") (auto simp: Cons)
qed simp

lemma hexText_chars: "c \<in> set (hexText gs) \<Longrightarrow> hexVal c \<noteq> None \<or> c = CHR '':''"
  by (induction gs rule: induct_list012) (auto dest: formatHex_chars)

text \<open>The field loop on a group, by what follows it.\<close>

lemma v6Fields_group:
  assumes "g < 65536" "length ip < 16"
  shows "v6Fields ip ell (formatHex g) = Some (ip @ groupBytes [g], ell, [])"
    and "t \<noteq> [] \<Longrightarrow> hd t \<noteq> CHR '':'' \<Longrightarrow>
      v6Fields ip ell (formatHex g @ CHR '':'' # t) = v6Fields (ip @ groupBytes [g]) ell t"
    and "v6Fields ip None (formatHex g @ CHR '':'' # CHR '':'' # t) =
      (if t = [] then Some (ip @ groupBytes [g], Some (length ip + 2), [])
       else v6Fields (ip @ groupBytes [g]) (Some (length ip + 2)) t)"
  using assms hexRun_group [OF assms(1), of "[]"] hexRun_group [OF assms(1), of "CHR '':'' # _"]
  by (subst v6Fields.simps, simp add: notHex_def Let_def)+

lemma v6Fields_groups:
  assumes "gs \<noteq> []" "\<forall>g\<in>set gs. g < 65536" "length ip + 2 * length gs \<le> 16"
  shows "v6Fields ip ell (hexText gs) = Some (ip @ groupBytes gs, ell, [])"
    and "v6Fields ip None (hexText gs @ CHR '':'' # CHR '':'' # t) =
      (if t = [] then Some (ip @ groupBytes gs, Some (length ip + 2 * length gs), [])
       else v6Fields (ip @ groupBytes gs) (Some (length ip + 2 * length gs)) t)"
proof -
  have "v6Fields ip ell (hexText gs) = Some (ip @ groupBytes gs, ell, []) \<and>
      v6Fields ip None (hexText gs @ CHR '':'' # CHR '':'' # t) =
      (if t = [] then Some (ip @ groupBytes gs, Some (length ip + 2 * length gs), [])
       else v6Fields (ip @ groupBytes gs) (Some (length ip + 2 * length gs)) t)"
    using assms
  proof (induction gs arbitrary: ip)
    case (Cons g gs)
    show ?case
    proof (cases "gs = []")
      case True
      then show ?thesis
        using Cons.prems v6Fields_group [of g ip] by simp
    next
      case False
      then obtain c u where h: "hexText gs = c # u" "hexVal c \<noteq> None"
        using hexText_head by blast
      then have "c \<noteq> CHR '':''"
        by auto
      then show ?thesis
        using False Cons.prems Cons.IH [of "ip @ groupBytes [g]"] h v6Fields_group(2) [of g ip "hexText gs" ell]
          v6Fields_group(2) [of g ip "hexText gs @ CHR '':'' # CHR '':'' # t" None]
        by simp
    qed
  qed simp
  then show "v6Fields ip ell (hexText gs) = Some (ip @ groupBytes gs, ell, [])"
    "v6Fields ip None (hexText gs @ CHR '':'' # CHR '':'' # t) =
      (if t = [] then Some (ip @ groupBytes gs, Some (length ip + 2 * length gs), [])
       else v6Fields (ip @ groupBytes gs) (Some (length ip + 2 * length gs)) t)"
    by simp_all
qed

text \<open>The groups of an address are its bytes.\<close>

lemma v6u16_less: "v6u16 bs i < 65536"
proof -
  have "unat x \<le> 255" for x :: u8
    using unsigned_less [of x, where 'a = nat] by simp
  from this [of "bs ! (2 * i)"] this [of "bs ! (2 * i + 1)"] show ?thesis
    by (simp add: v6u16_def)
qed

lemma v6u16_bytes: "groupBytes [v6u16 bs i] = [bs ! (2 * i), bs ! (2 * i + 1)]"
proof -
  have "unat (bs ! (2 * i + 1)) < 256"
    using unsigned_less [of "bs ! (2 * i + 1)", where 'a = nat] by simp
  then show ?thesis
    by (simp add: v6u16_def)
qed

lemma groupBytes_take:
  "length bs = 16 \<Longrightarrow> j \<le> 8 \<Longrightarrow> groupBytes (map (v6u16 bs) [0 ..< j]) = take (2 * j) bs"
proof (induction j)
  case (Suc j)
  then show ?case
    using v6u16_bytes [of bs j] by (simp add: take_Suc_conv_app_nth)
qed simp

lemma groupBytes_split:
  assumes "length bs = 16" "i \<le> j" "j \<le> 8"
  shows "groupBytes (map (v6u16 bs) [0 ..< i]) @ groupBytes (map (v6u16 bs) [i ..< j]) @
    groupBytes (map (v6u16 bs) [j ..< 8]) = bs"
proof -
  have "[0 ..< i] @ [i ..< j] @ [j ..< 8] = [0 ..< 8]"
    using assms by (metis append_assoc le_add_diff_inverse upt_add_eq_append zero_le)
  then have "map (v6u16 bs) [0 ..< i] @ map (v6u16 bs) [i ..< j] @ map (v6u16 bs) [j ..< 8] = map (v6u16 bs) [0 ..< 8]"
    by (metis map_append)
  then show ?thesis
    using groupBytes_take [OF assms(1), of 8] assms(1) by (metis groupBytes_simps(3) le_refl mult_2 numeral_Bit0 take_all)
qed

text \<open>The run that is left out holds zeros only.\<close>

definition zeroRun :: "u8 list \<Rightarrow> nat \<times> nat \<Rightarrow> bool" where
  "zeroRun bs r \<longleftrightarrow> snd r = 0 \<or> fst r + snd r \<le> 8 \<and> (\<forall>j\<in>{fst r ..< fst r + snd r}. v6u16 bs j = 0)"

lemma zeroRunFrom_zero: "i < 8 \<Longrightarrow> zeroRun bs (i, zeroRunFrom bs i)"
proof -
  assume i: "i < 8"
  let ?t = "takeWhile (\<lambda>j. v6u16 bs j = 0) [i ..< 8]"
  have len: "length ?t \<le> 8 - i"
    using length_takeWhile_le [of _ "[i ..< 8]"] by simp
  have "v6u16 bs (i + k) = 0" if "k < length ?t" for k
    using that len i nth_mem [OF that] takeWhile_nth [OF that] set_takeWhileD [of "?t ! k" _ "[i ..< 8]"] by auto
  then have "v6u16 bs j = 0" if "j \<in> {i ..< i + length ?t}" for j
    using that by (metis add_diff_inverse_nat add_less_cancel_left atLeastLessThan_iff not_le)
  then show ?thesis
    using len i by (auto simp: zeroRun_def zeroRunFrom_def)
qed

lemma longestZeroRun_zero: "zeroRun bs (longestZeroRun bs)"
proof -
  have "zeroRun bs r \<Longrightarrow> \<forall>i\<in>set is. i < 8 \<Longrightarrow>
      zeroRun bs (foldl (\<lambda>(st, len) i. let l = zeroRunFrom bs i in if l \<ge> 2 \<and> l > len then (i, l) else (st, len)) r is)"
    for r "is"
  proof (induction "is" arbitrary: r)
    case (Cons i "is")
    then show ?case
      using zeroRunFrom_zero [of i bs] by (cases r) (simp add: Let_def)
  qed simp
  then show ?thesis
    unfolding longestZeroRun_def by (simp add: zeroRun_def)
qed

section \<open>Addresses read back\<close>

text \<open>The body of the text before a zone.\<close>

definition body6 :: "u8 list \<Rightarrow> string" where
  "body6 bs =
     (let (st, len) = longestZeroRun bs in
      if len = 0 then hexText (map (v6u16 bs) [0 ..< 8])
      else hexText (map (v6u16 bs) [0 ..< st]) @ CHR '':'' # CHR '':'' # hexText (map (v6u16 bs) [st + len ..< 8]))"

lemma string6_body: "string6 bs z = body6 bs @ (if z = [] then [] else CHR ''%'' # z)"
  by (simp add: string6_def body6_def hexText_def comp_def split: prod.split)

lemma body6_chars: "CHR ''%'' \<notin> set (body6 bs)" "CHR ''.'' \<notin> set (body6 bs)" "CHR '':'' \<in> set (body6 bs)"
proof -
  have "c \<notin> set (hexText gs)" if "hexVal c = None" "c \<noteq> CHR '':''" for c gs
    using hexText_chars [of c gs] that by auto
  then show "CHR ''%'' \<notin> set (body6 bs)" "CHR ''.'' \<notin> set (body6 bs)"
    by (auto simp: body6_def split: prod.split if_split)
  have "CHR '':'' \<in> set (hexText (map (v6u16 bs) [0 ..< 8]))"
    by (simp add: upt_rec)
  then show "CHR '':'' \<in> set (body6 bs)"
    by (cases "longestZeroRun bs") (simp add: body6_def)
qed

text \<open>\<^verbatim>\<open>parseIPv6\<close> without the zone.\<close>

definition parseBody :: "string \<Rightarrow> u8 list option" where
  "parseBody s =
     (if s = ''::'' then Some (replicate 16 0)
      else let ell0 = take 2 s = ''::'' in
        case v6Fields [] (if ell0 then Some 0 else None) (if ell0 then drop 2 s else s) of
          None \<Rightarrow> None
        | Some (ip, ell, rest) \<Rightarrow>
            if rest \<noteq> [] then None
            else if length ip < 16 then
              map_option (\<lambda>e. take e ip @ replicate (16 - length ip) 0 @ drop e ip) ell
            else if ell \<noteq> None then None else Some ip)"

lemma parseIPv6_zone:
  assumes "CHR ''%'' \<notin> set s" "parseBody s = Some bs"
  shows "parseIPv6 (s @ (if z = [] then [] else CHR ''%'' # z)) = Some (Addr6 bs z)"
proof -
  let ?inp = "s @ (if z = [] then [] else CHR ''%'' # z)"
  have "takeWhile (\<lambda>c. c \<noteq> CHR ''%'') ?inp = s"
    using assms(1) by (subst takeWhile_append2) auto
  moreover have "CHR ''%'' \<in> set ?inp \<longleftrightarrow> z \<noteq> []" "drop (length s + 1) ?inp = z"
    using assms(1) by auto
  ultimately have inp: "takeWhile (\<lambda>c. c \<noteq> CHR ''%'') ?inp = s" "CHR ''%'' \<in> set ?inp \<longleftrightarrow> z \<noteq> []"
      "drop (length s + 1) ?inp = z"
    by blast+
  show ?thesis
  proof (cases "s = ''::''")
    case True
    then show ?thesis
      using assms(2) unfolding parseIPv6_def inp Let_def by (simp add: parseBody_def)
  next
    case False
    define r where "r = v6Fields [] (if take 2 s = ''::'' then Some 0 else None) (if take 2 s = ''::'' then drop 2 s else s)"
    have "(case r of None \<Rightarrow> None
        | Some (ip, ell, rest) \<Rightarrow>
            if rest \<noteq> [] then None
            else if length ip < 16 then map_option (\<lambda>e. take e ip @ replicate (16 - length ip) 0 @ drop e ip) ell
            else if ell \<noteq> None then None else Some ip) = Some bs"
      using False assms(2) by (simp add: parseBody_def r_def Let_def)
    then show ?thesis
      using False unfolding parseIPv6_def inp Let_def r_def [symmetric]
      by (cases r) (auto split: option.splits if_splits)
  qed
qed

lemma parseBody_groups:
  assumes "length gs = 8" "\<forall>g\<in>set gs. g < 65536"
  shows "parseBody (hexText gs) = Some (groupBytes gs)"
proof -
  obtain c t where h: "hexText gs = c # t" "hexVal c \<noteq> None"
    using hexText_head [of gs] assms(1) by (cases gs) auto
  then have "c \<noteq> CHR '':''" "gs \<noteq> []"
    by auto
  then show ?thesis
    using v6Fields_groups(1) [of gs "[]" None] assms h by (auto simp: parseBody_def)
qed

lemma parseBody_ellipsis:
  assumes "\<forall>g\<in>set (xs @ ys). g < 65536" "length xs + length ys < 8"
  shows "parseBody (hexText xs @ CHR '':'' # CHR '':'' # hexText ys) =
    Some (groupBytes xs @ replicate (16 - 2 * (length xs + length ys)) 0 @ groupBytes ys)"
proof (cases "xs = []")
  case True
  then show ?thesis
    using v6Fields_groups(1) [of ys "[]" "Some 0"] assms hexText_head [of ys]
    by (cases "ys = []") (auto simp: parseBody_def)
next
  case False
  then obtain c t where h: "hexText xs = c # t" "hexVal c \<noteq> None"
    using hexText_head by blast
  then have "c \<noteq> CHR '':''"
    by auto
  moreover have "hexText ys = [] \<longleftrightarrow> ys = []"
    by (cases "ys = []") (use hexText_head [of ys] in auto)
  ultimately show ?thesis
    using False v6Fields_groups(2) [of xs "[]" "hexText ys"] v6Fields_groups(1) [of ys "groupBytes xs" "Some (2 * length xs)"]
      assms h
    by (cases "ys = []") (auto simp: parseBody_def)
qed

lemma parseBody_body6: "length bs = 16 \<Longrightarrow> parseBody (body6 bs) = Some bs"
proof -
  assume bs: "length bs = 16"
  obtain st len where r: "longestZeroRun bs = (st, len)"
    by fastforce
  show ?thesis
  proof (cases "len = 0")
    case True
    then show ?thesis
      using parseBody_groups [of "map (v6u16 bs) [0 ..< 8]"] groupBytes_take [OF bs, of 8] r bs
      by (simp add: body6_def v6u16_less)
  next
    case False
    then have run: "st + len \<le> 8" "\<forall>j\<in>{st ..< st + len}. v6u16 bs j = 0"
      using longestZeroRun_zero [of bs] r by (auto simp: zeroRun_def)
    then have "groupBytes (map (v6u16 bs) [st ..< st + len]) = replicate (2 * len) 0"
      using groupBytes_zero [of "map (v6u16 bs) [st ..< st + len]"] by simp
    moreover have "16 - 2 * (st + (8 - (st + len))) = 2 * len"
      using run(1) by simp
    ultimately show ?thesis
      using parseBody_ellipsis [of "map (v6u16 bs) [0 ..< st]" "map (v6u16 bs) [st + len ..< 8]"]
        groupBytes_split [OF bs le_add1 run(1)] False r run(1)
      by (simp add: body6_def v6u16_less ball_Un)
  qed
qed

lemma ParseAddrFrom_colon:
  "CHR '':'' \<in> set u \<Longrightarrow> CHR ''.'' \<notin> set u \<Longrightarrow> CHR ''%'' \<notin> set u \<Longrightarrow> ParseAddrFrom s (u @ t) = parseIPv6 s"
  by (induction u) auto

lemma ParseAddr_string6: "length bs = 16 \<Longrightarrow> ParseAddr (string6 bs z) = Some (Addr6 bs z)"
  using ParseAddrFrom_colon [OF body6_chars(3,2,1)] parseIPv6_zone [OF body6_chars(1) parseBody_body6]
  by (simp add: ParseAddr_def string6_body)

text \<open>An IPv4 address inside an IPv6 one.\<close>

lemma hexRun_byte:
  assumes "n \<le> 255"
  shows "\<exists>v. hexRun 0 0 (formatUint n @ CHR ''.'' # t) = Some (length (formatUint n), v, CHR ''.'' # t)"
proof -
  have dec: "hexVal (digitChar d) = Some d" if "d < 10" for d
    using that hexVal_hexDigit [of d] by (simp add: hexDigit_def digitChar_def add.commute)
  consider "n < 10" | "10 \<le> n" "n < 100" | "100 \<le> n"
    by linarith
  then show ?thesis
  proof cases
    case 3
    have "n div 10 div 10 < 10" "n div 10 mod 10 < 10" "n mod 10 < 10"
      using assms by simp_all
    moreover have "(i * 16 + j) * 16 + k \<le> 65535" "i * 16 + j \<le> 65535" "i \<le> 65535"
      if "i < 10" "j < 10" "k < 10" for i j k :: nat
      using that by simp_all
    ultimately show ?thesis
      using 3 assms by (simp add: formatUint_byte(3) dec Let_def not_less [symmetric] del: div_mult2_eq)
  qed (auto simp: formatUint_byte dec Let_def)
qed

lemma ParseAddr_4in6: "ParseAddr (''::ffff:'' @ string4 a b c d @ (if z = [] then [] else ''%'' @ z)) =
  Some (Addr6 (replicate 10 0 @ [255, 255, a, b, c, d]) z)"
proof -
  have byte: "unat x \<le> 255" for x :: u8
    using unsigned_less [of x, where 'a = nat] by simp
  obtain t where t: "string4 a b c d = formatUint (unat a) @ CHR ''.'' # t"
    by (simp add: string4_def)
  have digits: "hexVal x \<noteq> None \<or> x = CHR ''.''" if "x \<in> set (string4 a b c d)" for x
    using that formatUint_digits by (fastforce simp: string4_def list_all_iff isDigit_def hexVal_def Let_def)
  have ffff: "formatHex 65535 = ''ffff''"
    by (simp add: formatHex_group(4) hexDigit_def char_of_eq_iff)
  have hd4: "string4 a b c d \<noteq> []" "hd (string4 a b c d) \<noteq> CHR '':''"
    using digits [of "hd (string4 a b c d)"] t by (auto simp: hd_append)
  have "v6Fields [255, 255] (Some 0) (string4 a b c d) = Some ([255, 255, a, b, c, d], Some 0, [])"
    using hexRun_byte [OF byte, of a t] ipv4Fields_string4 [of a b c d] t
    by (subst v6Fields.simps) auto
  moreover have "v6Fields [] (Some 0) (''ffff:'' @ string4 a b c d) = v6Fields [255, 255] (Some 0) (string4 a b c d)"
    using v6Fields_group(2) [of 65535 "[]" "string4 a b c d" "Some 0"] hd4 by (simp add: ffff)
  ultimately have "parseBody (''::ffff:'' @ string4 a b c d) = Some (replicate 10 0 @ [255, 255, a, b, c, d])"
    by (simp add: parseBody_def)
  moreover have "CHR ''%'' \<notin> set (''::ffff:'' @ string4 a b c d)"
    using digits [of "CHR ''%''"] by auto
  ultimately show ?thesis
    using parseIPv6_zone [of "''::ffff:'' @ string4 a b c d" _ z] by (auto simp: ParseAddr_def)
qed

lemma ParseAddr_addrString: "addr_wf a \<Longrightarrow> addrIsValid a \<Longrightarrow> ParseAddr (addrString a) = Some a"
proof (cases a)
  case (Addr4 x y z u)
  obtain t where "string4 x y z u = formatUint (unat x) @ CHR ''.'' # t"
    by (simp add: string4_def)
  moreover have "ParseAddrFrom s (d @ CHR ''.'' # t) = parseIPv4 s" if "list_all isDigit d" for s d t
    using that by (induction d) (auto simp: isDigit_def)
  ultimately show ?thesis
    using Addr4 ipv4Fields_string4 [of x y z u] formatUint_digits [of "unat x"]
    by (simp add: ParseAddr_def parseIPv4_def)
next
  case (Addr6 bs z)
  assume "addr_wf a"
  then have len: "length bs = 16"
    by (simp add: Addr6)
  show ?thesis
  proof (cases "ipTo4 bs")
    case None
    then show ?thesis
      using Addr6 ParseAddr_string6 [OF len] by simp
  next
    case (Some v4)
    then have "length v4 = 4" "take 10 bs = replicate 10 0" "drop 10 bs = [255, 255] @ v4"
      using len append_take_drop_id [of 2 "drop 10 bs"] by (auto simp: ipTo4_def split: if_splits)
    then have "length v4 = 4" "bs = replicate 10 0 @ [255, 255] @ v4"
      by (metis append_take_drop_id)+
    then obtain x y u v where "v4 = [x, y, u, v]" "bs = replicate 10 0 @ [255, 255, x, y, u, v]"
      by (auto simp: eval_nat_numeral length_Suc_conv)
    then show ?thesis
      using Addr6 Some ParseAddr_4in6 by simp
  qed
qed (simp add: addrIsValid_def)

section \<open>Prefixes read back\<close>

definition prefixString :: "Prefix \<Rightarrow> string" where
  "prefixString p =
     (if prefixIsValid p then addrString (pfxAddr p) @ ''/'' @ formatUint (nat (pfxBits p)) else ''invalid Prefix'')"

lemma splitLast_append: "c \<notin> set t \<Longrightarrow> splitLast c (s @ c # t) = Some (s, t)"
proof -
  assume "c \<notin> set t"
  then have "takeWhile (\<lambda>x. x \<noteq> c) (rev t @ c # rev s) = rev t"
    by (subst takeWhile_append2) auto
  then show ?thesis
    by (simp add: splitLast_def)
qed

lemma ParsePrefix_prefixString:
  assumes "prefix_wf p" "prefixIsValid p"
  shows "ParsePrefix (prefixString p) = Some p"
proof -
  let ?n = "nat (pfxBits p)" and ?a = "pfxAddr p"
  have wf: "addr_wf ?a" "addrZone ?a = []" "addrIsValid ?a" "0 \<le> pfxBits p" "pfxBits p \<le> addrBitLen ?a"
    using assms by (auto simp: prefix_wf_def prefixIsValid_def)
  have "CHR ''/'' \<notin> set (formatUint ?n)"
    using formatUint_digits [of ?n] by (auto simp: list_all_iff isDigit_def)
  then have split: "splitLast (CHR ''/'') (prefixString p) = Some (addrString ?a, formatUint ?n)"
    using assms(2) by (simp add: prefixString_def splitLast_append)
  have n: "?n \<le> 128"
    using wf(5) by (cases ?a) auto
  have zero: "digitChar d \<noteq> CHR ''0''" if "d < 10" "d \<noteq> 0" for d
    using digitVal_digitChar [OF that(1)] that(2) by (auto simp: digitVal_def)
  have lead: "\<not> 1 < length (formatUint ?n) \<or> isDigit (hd (formatUint ?n)) \<and> hd (formatUint ?n) \<noteq> CHR ''0''"
  proof -
    consider "?n < 10" | "10 \<le> ?n" "?n < 100" | "100 \<le> ?n"
      by linarith
    then show ?thesis
    proof cases
      case 3
      then have "?n div 10 div 10 < 10" "?n div 10 div 10 \<noteq> 0"
        using n by linarith+
      then show ?thesis
        using 3 n by (simp add: formatUint_byte(3) zero del: div_mult2_eq)
    qed (simp_all add: formatUint_byte zero)
  qed
  have parsed: "parseUint (2 ^ 63) (formatUint ?n) = Some ?n"
    using n by (intro parseUint_formatUint) (simp, linarith)
  have "addrWithZone ?a [] = ?a"
    using wf(2) by (cases ?a) auto
  then have "PrefixFrom ?a (pfxBits p) = p"
    using wf by (simp add: PrefixFrom_def)
  then show ?thesis
    using ParseAddr_addrString [OF wf(1,3)] wf parsed lead by (simp add: ParsePrefix_def split)
qed

end
