(* ===== verification/Win_Types.thy ===== *)
theory Win_Types
  imports Netip_Text
begin

text \<open>
  The data types of \<^verbatim>\<open>src/winipcfg/types.go\<close> and \<^verbatim>\<open>types_64.go\<close> the program works on.  The socket
  address union \<^verbatim>\<open>RawSockaddrInet\<close> is kept at the byte level (a family and 26 bytes that are read
  and written through its IPv4 and IPv6 layouts), so that what one layout leaves in the bytes
  of the other is visible.  All Windows targets of Go are little-endian.  The locale \<open>slot\<close> is
  the contract of a field that is written with an error result and read back.
\<close>

section \<open>Constants of the Windows headers\<close>

definition AF_UNSPEC :: u16 where "AF_UNSPEC = 0"
definition AF_INET :: u16 where "AF_INET = 2"
definition AF_INET6 :: u16 where "AF_INET6 = 23"

lemmas af_defs = AF_UNSPEC_def AF_INET_def AF_INET6_def

lemma af_distinct [simp]: "AF_INET \<noteq> AF_INET6" "AF_INET6 \<noteq> AF_INET" "AF_UNSPEC \<noteq> AF_INET"
  "AF_INET \<noteq> AF_UNSPEC" "AF_UNSPEC \<noteq> AF_INET6" "AF_INET6 \<noteq> AF_UNSPEC"
  by (simp_all add: af_defs)

definition ERROR_INVALID_PARAMETER :: gerr where "ERROR_INVALID_PARAMETER = Errno 87"
definition ERROR_BUFFER_OVERFLOW :: gerr where "ERROR_BUFFER_OVERFLOW = Errno 111"
definition ERROR_PROC_NOT_FOUND :: gerr where "ERROR_PROC_NOT_FOUND = Errno 127"
definition ERROR_PROTOCOL_UNREACHABLE :: gerr where "ERROR_PROTOCOL_UNREACHABLE = Errno 1233"
definition ERROR_NO_MORE_ITEMS :: gerr where "ERROR_NO_MORE_ITEMS = Errno 259"
definition ERROR_HANDLE_EOF :: gerr where "ERROR_HANDLE_EOF = Errno 38"

lemmas errno_defs = ERROR_INVALID_PARAMETER_def ERROR_BUFFER_OVERFLOW_def ERROR_PROC_NOT_FOUND_def
  ERROR_PROTOCOL_UNREACHABLE_def ERROR_NO_MORE_ITEMS_def ERROR_HANDLE_EOF_def

section \<open>Bytes in memory\<close>

definition putAt :: "nat \<Rightarrow> u8 list \<Rightarrow> u8 list \<Rightarrow> u8 list" where
  "putAt off bs mem = take off mem @ bs @ drop (off + length bs) mem"

definition getAt :: "nat \<Rightarrow> nat \<Rightarrow> u8 list \<Rightarrow> u8 list" where
  "getAt off n mem = take n (drop off mem)"

lemma length_putAt [simp]: "off + length bs \<le> length mem \<Longrightarrow> length (putAt off bs mem) = length mem"
  by (simp add: putAt_def)

lemma length_getAt [simp]: "off + n \<le> length mem \<Longrightarrow> length (getAt off n mem) = n"
  by (simp add: getAt_def)

lemma getAt_putAt_same [simp]:
  "off + length bs \<le> length mem \<Longrightarrow> n = length bs \<Longrightarrow> getAt off n (putAt off bs mem) = bs"
  by (simp add: getAt_def putAt_def)

lemma getAt_putAt_below:
  "off' + n \<le> off \<Longrightarrow> off + length bs \<le> length mem \<Longrightarrow>
     getAt off' n (putAt off bs mem) = getAt off' n mem"
  by (cases "n \<le> off - off'") (auto simp: getAt_def putAt_def drop_take min_def)

lemma getAt_putAt_above:
  "off + length bs \<le> off' \<Longrightarrow> off + length bs \<le> length mem \<Longrightarrow>
     getAt off' n (putAt off bs mem) = getAt off' n mem"
  by (simp add: getAt_def putAt_def)

lemmas getAt_putAt = getAt_putAt_same getAt_putAt_below getAt_putAt_above

text \<open>Little- and big-endian images of 16- and 32-bit words.\<close>

definition le16 :: "u16 \<Rightarrow> u8 list" where
  "le16 x = [of_nat (unat x mod 256), of_nat (unat x div 256)]"

definition of_le16 :: "u8 list \<Rightarrow> u16" where
  "of_le16 bs = of_nat (unat (bs ! 0) + 256 * unat (bs ! 1))"

definition be16 :: "u16 \<Rightarrow> u8 list" where
  "be16 x = [of_nat (unat x div 256), of_nat (unat x mod 256)]"

definition of_be16 :: "u8 list \<Rightarrow> u16" where
  "of_be16 bs = of_nat (256 * unat (bs ! 0) + unat (bs ! 1))"

definition le32 :: "u32 \<Rightarrow> u8 list" where
  "le32 x = map (\<lambda>k. of_nat (unat x div 256 ^ k mod 256)) [0, 1, 2, 3]"

definition of_le32 :: "u8 list \<Rightarrow> u32" where
  "of_le32 bs = of_nat (unat (bs ! 0) + 256 * unat (bs ! 1) + 65536 * unat (bs ! 2)
                        + 16777216 * unat (bs ! 3))"

lemma unat_u16_bound: "unat (x :: u16) < 65536"
proof -
  have "unat x < 2 ^ LENGTH(16)"
    by (rule unsigned_less)
  then show ?thesis by simp
qed

lemma unat_u8_bound: "unat (x :: u8) < 256"
proof -
  have "unat x < 2 ^ LENGTH(8)"
    by (rule unsigned_less)
  then show ?thesis by simp
qed

lemma unat_u32_bound: "unat (x :: u32) < 4294967296"
proof -
  have "unat x < 2 ^ LENGTH(32)"
    by (rule unsigned_less)
  then show ?thesis by simp
qed

lemma unat_of_nat_small: "n < 2 ^ LENGTH('a) \<Longrightarrow> unat (of_nat n :: 'a::len word) = n"
  by (simp only: unat_of_nat take_bit_eq_mod mod_less)

lemma unat_of_nat_u8: "n < 256 \<Longrightarrow> unat (of_nat n :: u8) = n"
  by (rule unat_of_nat_small) simp

lemma length_le [simp]: "length (le16 x) = 2" "length (be16 x) = 2" "length (le32 y) = 4"
  by (simp_all add: le16_def be16_def le32_def)

lemma of_le16_le16 [simp]: "of_le16 (le16 x) = x"
  using unat_u16_bound [of x] by (simp add: of_le16_def le16_def unat_of_nat_u8)

lemma of_be16_be16 [simp]: "of_be16 (be16 x) = x"
  using unat_u16_bound [of x] by (simp add: of_be16_def be16_def unat_of_nat_u8)

lemma le32_value: "(n :: nat) < 4294967296 \<Longrightarrow>
  n mod 256 + 256 * (n div 256 mod 256) + 65536 * (n div 65536 mod 256)
    + 16777216 * (n div 16777216 mod 256) = n"
proof -
  assume n: "n < 4294967296"
  have "n div 65536 = n div 256 div 256" "n div 16777216 = n div 256 div 256 div 256"
    by (simp_all add: div_mult2_eq [symmetric])
  moreover have "n div 256 div 256 div 256 < 256"
    using n by (simp add: div_mult2_eq [symmetric] less_mult_imp_div_less)
  moreover define a b c where "a = n div 256" and "b = a div 256" and "c = b div 256"
  moreover have "n mod 256 + 256 * a = n" "a mod 256 + 256 * b = a" "b mod 256 + 256 * c = b"
    unfolding a_def b_def c_def by (rule mod_mult_div_eq)+
  then have "n mod 256 + 256 * (a mod 256) + 65536 * (b mod 256) + 16777216 * c = n"
    by linarith
  ultimately show ?thesis
    by simp
qed

lemma of_le32_le32 [simp]: "of_le32 (le32 x) = x"
  using unat_u32_bound [of x] le32_value [of "unat x"]
  by (simp add: of_le32_def le32_def unat_of_nat_u8)

section \<open>Socket addresses\<close>

record RawSockaddrInet =
  rsFamily :: u16
  rsData :: "u8 list"

definition sockaddr_wf :: "RawSockaddrInet \<Rightarrow> bool" where
  "sockaddr_wf s \<longleftrightarrow> length (rsData s) = 26"

definition zeroSockaddr :: RawSockaddrInet where
  "zeroSockaddr = \<lparr>rsFamily = 0, rsData = replicate 26 0\<rparr>"

text \<open>
  \<^verbatim>\<open>ntohs\<close> reads the in-memory image big-endian; \<^verbatim>\<open>htons\<close> writes big-endian and reads the image
  back natively.
\<close>

definition ntohs :: "u16 \<Rightarrow> u16" where
  "ntohs i = of_be16 (le16 i)"

definition htons :: "u16 \<Rightarrow> u16" where
  "htons i = of_le16 (be16 i)"

lemma le16_of_le16: "length bs = 2 \<Longrightarrow> le16 (of_le16 bs) = bs"
proof -
  assume "length bs = 2"
  then obtain a b where bs: "bs = [a, b]"
    by (cases bs; cases "tl bs") auto
  have "unat a + 256 * unat b < 65536"
    using unat_u8_bound [of a] unat_u8_bound [of b] by linarith
  then have "unat (of_nat (unat a + 256 * unat b) :: u16) = unat a + 256 * unat b"
    by (intro unat_of_nat_small) simp
  then have "unat (of_le16 bs) = unat a + 256 * unat b"
    by (simp only: bs of_le16_def nth_Cons_0 nth_Cons_Suc One_nat_def)
  then show ?thesis
    using unat_u8_bound [of a] by (simp add: bs le16_def)
qed

lemma ntohs_htons [simp]: "ntohs (htons i) = i"
  by (simp add: ntohs_def htons_def le16_of_le16)

text \<open>
  The union through its two layouts (after the family): IPv4 has the port at 0, the address
  at 2 and eight zero bytes at 6; IPv6 has the port at 0, flow information at 2, the address at
  6 and the scope at 22.
\<close>

definition zoneScope :: "string \<Rightarrow> u32" where
  "zoneScope z =
     (if z \<noteq> [] then (case parseUint (2 ^ 32) z of Some s \<Rightarrow> of_nat s | None \<Rightarrow> 0) else 0)"

definition SetAddrPort :: "Addr \<Rightarrow> u16 \<Rightarrow> RawSockaddrInet \<Rightarrow> gerr option \<times> RawSockaddrInet" where
  "SetAddrPort ip port s =
     (case ip of
        Addr4 a b c d \<Rightarrow>
          (None, s\<lparr>rsFamily := AF_INET,
                   rsData := putAt 6 (replicate 8 0)
                               (putAt 0 (le16 (htons port)) (putAt 2 [a, b, c, d] (rsData s)))\<rparr>)
      | Addr6 bs z \<Rightarrow>
          (None, s\<lparr>rsFamily := AF_INET6,
                   rsData := putAt 22 (le32 (zoneScope z))
                               (putAt 2 (le32 0)
                                 (putAt 0 (le16 (htons port)) (putAt 6 bs (rsData s))))\<rparr>)
      | NoAddr \<Rightarrow> (Some ERROR_INVALID_PARAMETER, s))"

definition SetAddr :: "Addr \<Rightarrow> RawSockaddrInet \<Rightarrow> gerr option \<times> RawSockaddrInet" where
  "SetAddr ip s = SetAddrPort ip 0 s"

definition sockAddr :: "RawSockaddrInet \<Rightarrow> Addr" where
  "sockAddr s =
     (if rsFamily s = AF_INET then
        (let b = getAt 2 4 (rsData s) in Addr4 (b ! 0) (b ! 1) (b ! 2) (b ! 3))
      else if rsFamily s = AF_INET6 then
        (let scope = of_le32 (getAt 22 4 (rsData s)); a = Addr6 (getAt 6 16 (rsData s)) []
         in if scope \<noteq> 0 then addrWithZone a (formatUint (unat scope)) else a)
      else NoAddr)"

definition sockPort :: "RawSockaddrInet \<Rightarrow> u16" where
  "sockPort s =
     (if rsFamily s = AF_INET \<or> rsFamily s = AF_INET6 then ntohs (of_le16 (getAt 0 2 (rsData s)))
      else 0)"

definition sockAddrPort :: "RawSockaddrInet \<Rightarrow> Addr \<times> u16" where
  "sockAddrPort s = (sockAddr s, sockPort s)"

text \<open>
  The zone that survives the trip through the 32-bit scope: a decimal number other than zero,
  in canonical form; anything else comes back as no zone.
\<close>

definition scopedAddr :: "Addr \<Rightarrow> Addr" where
  "scopedAddr ip = addrWithZone ip
     (if zoneScope (addrZone ip) = 0 then [] else formatUint (unat (zoneScope (addrZone ip))))"

lemma SetAddrPort_read:
  assumes "sockaddr_wf s" "addr_wf ip" "addrIsValid ip"
  shows "fst (SetAddrPort ip port s) = None" "sockaddr_wf (snd (SetAddrPort ip port s))"
    "sockAddr (snd (SetAddrPort ip port s)) = scopedAddr ip"
    "sockPort (snd (SetAddrPort ip port s)) = port"
  using assms
  by (cases ip; simp add: SetAddrPort_def sockaddr_wf_def sockAddr_def sockPort_def
      scopedAddr_def addrIsValid_def getAt_putAt Let_def)+

section \<open>Address prefixes\<close>

record IPAddressPrefix =
  RawPrefix :: RawSockaddrInet
  PrefixLength :: u8

definition SetPrefix :: "Prefix \<Rightarrow> IPAddressPrefix \<Rightarrow> gerr option \<times> IPAddressPrefix" where
  "SetPrefix p x =
     (case SetAddr (pfxAddr p) (RawPrefix x) of
        (Some err, r) \<Rightarrow> (Some err, x\<lparr>RawPrefix := r\<rparr>)
      | (None, r) \<Rightarrow> (None, x\<lparr>RawPrefix := r, PrefixLength := of_int (pfxBits p)\<rparr>))"

definition prefixOf :: "IPAddressPrefix \<Rightarrow> Prefix" where
  "prefixOf x =
     (if rsFamily (RawPrefix x) = AF_INET then
        (let b = getAt 2 4 (rsData (RawPrefix x))
         in PrefixFrom (Addr4 (b ! 0) (b ! 1) (b ! 2) (b ! 3)) (uint (PrefixLength x)))
      else if rsFamily (RawPrefix x) = AF_INET6 then
        PrefixFrom (Addr6 (getAt 6 16 (rsData (RawPrefix x))) []) (uint (PrefixLength x))
      else zeroPrefix)"

lemma uint_of_int_u8: "0 \<le> n \<Longrightarrow> n < 256 \<Longrightarrow> uint (of_int n :: u8) = n"
  by (simp add: uint_word_of_int)

lemma uint_of_minus_one_u8: "uint (of_int (- 1) :: u8) = 255"
  by (simp only: uint_word_of_int) simp

lemma SetPrefix_read:
  assumes "sockaddr_wf (RawPrefix x)" "prefix_wf p" "addrIsValid (pfxAddr p)"
  shows "fst (SetPrefix p x) = None" "sockaddr_wf (RawPrefix (snd (SetPrefix p x)))"
    "prefixOf (snd (SetPrefix p x)) = p"
proof -
  let ?s = "snd (SetAddr (pfxAddr p) (RawPrefix x))"
  have a: "addr_wf (pfxAddr p)" "addrZone (pfxAddr p) = []"
    using assms(2) by (auto simp: prefix_wf_def)
  note read = SetAddrPort_read [OF assms(1) a(1) assms(3), of 0]
  have set: "SetPrefix p x = (None, x\<lparr>RawPrefix := ?s, PrefixLength := of_int (pfxBits p)\<rparr>)"
    using read(1) by (auto simp: SetPrefix_def SetAddr_def split: prod.splits option.splits)
  show "fst (SetPrefix p x) = None" "sockaddr_wf (RawPrefix (snd (SetPrefix p x)))"
    using set read(2) by (simp_all add: SetAddr_def)
  have len: "uint (of_int (pfxBits p) :: u8) = (if pfxBits p = -1 then 255 else pfxBits p)"
  proof (cases "pfxBits p = -1")
    case False
    then have "0 \<le> pfxBits p" "pfxBits p < 256"
      using assms(2) by (cases "pfxAddr p"; auto simp: prefix_wf_def)+
    then show ?thesis
      using False by (simp only: uint_of_int_u8 if_False)
  next
    case True
    then show ?thesis
      by (simp only: uint_of_minus_one_u8) simp
  qed
  show "prefixOf (snd (SetPrefix p x)) = p"
    using assms a len unfolding set
    by (cases "pfxAddr p"; cases p)
       (auto simp: prefixOf_def SetAddr_def SetAddrPort_def getAt_putAt sockaddr_wf_def Let_def
          PrefixFrom_def addrIsValid_def prefix_wf_def)
qed

section \<open>The contract of a written field\<close>

locale slot =
  fixes put :: "'v \<Rightarrow> 's \<Rightarrow> gerr option \<times> 's"
    and get :: "'s \<Rightarrow> 'v"
    and storable :: "'v \<Rightarrow> bool"
    and wf :: "'s \<Rightarrow> bool"
  assumes put_ok: "wf s \<Longrightarrow> storable v \<Longrightarrow> fst (put v s) = None"
    and put_wf: "wf s \<Longrightarrow> storable v \<Longrightarrow> wf (snd (put v s))"
    and put_get: "wf s \<Longrightarrow> storable v \<Longrightarrow> get (snd (put v s)) = v"
begin

lemma put_eq: "wf s \<Longrightarrow> storable v \<Longrightarrow> put v s = (None, snd (put v s))"
  using put_ok by (metis prod.collapse)

text \<open>Whatever was in the field before, of either address family, the last write wins.\<close>

lemma put_put_get:
  "wf s \<Longrightarrow> storable u \<Longrightarrow> storable v \<Longrightarrow> get (snd (put v (snd (put u s)))) = v"
  by (simp add: put_wf put_get)

end

definition storableAddr :: "Addr \<Rightarrow> bool" where
  "storableAddr a \<longleftrightarrow> addr_wf a \<and> addrIsValid a \<and> scopedAddr a = a"

definition storablePrefix :: "Prefix \<Rightarrow> bool" where
  "storablePrefix p \<longleftrightarrow> prefix_wf p \<and> addrIsValid (pfxAddr p)"

interpretation sa: slot SetAddr sockAddr storableAddr sockaddr_wf
  by unfold_locales (simp_all add: SetAddr_def storableAddr_def SetAddrPort_read)

interpretation px: slot SetPrefix prefixOf storablePrefix "\<lambda>x. sockaddr_wf (RawPrefix x)"
  by unfold_locales (simp_all add: storablePrefix_def SetPrefix_read)

lemma storableAddr_4 [simp]: "storableAddr (Addr4 a b c d)"
  by (simp add: storableAddr_def addrIsValid_def scopedAddr_def)

section \<open>Rows of the IP helper tables\<close>

type_synonym LUID = u64
type_synonym GUID = "128 word"
type_synonym AddressFamily = u16

datatype DadState = DadStateInvalid | DadStateTentative | DadStateDuplicate | DadStateDeprecated
  | DadStatePreferred

record MibUnicastIPAddressRow =
  uaAddress :: RawSockaddrInet
  uaInterfaceLUID :: LUID
  uaInterfaceIndex :: u32
  uaPrefixOrigin :: u32
  uaSuffixOrigin :: u32
  uaValidLifetime :: u32
  uaPreferredLifetime :: u32
  uaOnLinkPrefixLength :: u8
  uaSkipAsSource :: bool
  uaDadState :: DadState
  uaScopeID :: u32
  uaCreationTimeStamp :: i64

record MibAnycastIPAddressRow =
  aaAddress :: RawSockaddrInet
  aaInterfaceLUID :: LUID
  aaInterfaceIndex :: u32
  aaScopeID :: u32

record MibIPforwardRow2 =
  frInterfaceLUID :: LUID
  frInterfaceIndex :: u32
  frDestinationPrefix :: IPAddressPrefix
  frNextHop :: RawSockaddrInet
  frSitePrefixLength :: u8
  frValidLifetime :: u32
  frPreferredLifetime :: u32
  frMetric :: u32
  frProtocol :: u32
  frLoopback :: bool
  frAutoconfigureAddress :: bool
  frPublish :: bool
  frImmortal :: bool
  frAge :: u32
  frOrigin :: u32

record MibIPInterfaceRow =
  ifFamily :: AddressFamily
  ifInterfaceLUID :: LUID
  ifInterfaceIndex :: u32
  ifMaxReassemblySize :: u32
  ifInterfaceIdentifier :: u64
  ifMinRouterAdvertisementInterval :: u32
  ifMaxRouterAdvertisementInterval :: u32
  ifAdvertisingEnabled :: bool
  ifForwardingEnabled :: bool
  ifWeakHostSend :: bool
  ifWeakHostReceive :: bool
  ifUseAutomaticMetric :: bool
  ifUseNeighborUnreachabilityDetection :: bool
  ifManagedAddressConfigurationSupported :: bool
  ifOtherStatefulConfigurationSupported :: bool
  ifAdvertiseDefaultRoute :: bool
  ifRouterDiscoveryBehavior :: u32
  ifDadTransmits :: u32
  ifBaseReachableTime :: u32
  ifRetransmitTime :: u32
  ifPathMTUDiscoveryTimeout :: u32
  ifLinkLocalAddressBehavior :: u32
  ifLinkLocalAddressTimeout :: u32
  ifZoneIndices :: "u32 list"
  ifSitePrefixLength :: u32
  ifMetric :: u32
  ifNLMTU :: u32
  ifConnected :: bool
  ifSupportsWakeUpPatterns :: bool
  ifSupportsNeighborDiscovery :: bool
  ifSupportsRouterDiscovery :: bool
  ifReachableTime :: u32
  ifTransmitOffload :: u8
  ifReceiveOffload :: u8
  ifDisableDefaultRoutes :: bool

text \<open>Routes to add, and the settings handed to the DNS API (nil pointers are \<^const>\<open>None\<close>).\<close>

record RouteData =
  rdDestination :: Prefix
  rdNextHop :: Addr
  rdMetric :: u32

text \<open>\<^verbatim>\<open>fmt.Sprintf("%+v", *routeData)\<close>: the field names, and the fields by their own \<^verbatim>\<open>String\<close>.\<close>

definition routeDataString :: "RouteData \<Rightarrow> string" where
  "routeDataString r =
     ''{Destination:'' @ prefixString (rdDestination r) @ '' NextHop:'' @ addrString (rdNextHop r) @
     '' Metric:'' @ formatUint (unat (rdMetric r)) @ ''}''"

record DnsInterfaceSettings =
  dnVersion :: u32
  dnFlags :: u64
  dnDomain :: "u16 list option"
  dnNameServer :: "u16 list option"
  dnSearchList :: "u16 list option"
  dnRegistrationEnabled :: u32
  dnRegisterAdapterName :: u32
  dnEnableLLMNR :: u32
  dnQueryAdapterName :: u32
  dnProfileNameServer :: "u16 list option"

definition DnsInterfaceSettingsVersion1 :: u32 where "DnsInterfaceSettingsVersion1 = 1"
definition DnsInterfaceSettingsFlagIPv6 :: u64 where "DnsInterfaceSettingsFlagIPv6 = 0x0001"
definition DnsInterfaceSettingsFlagNameserver :: u64 where "DnsInterfaceSettingsFlagNameserver = 0x0002"
definition DnsInterfaceSettingsFlagSearchList :: u64 where "DnsInterfaceSettingsFlagSearchList = 0x0004"

lemmas dns_flag_defs = DnsInterfaceSettingsFlagIPv6_def DnsInterfaceSettingsFlagNameserver_def
  DnsInterfaceSettingsFlagSearchList_def

text \<open>The zero values the row literals start from.\<close>

definition zeroUnicastRow :: MibUnicastIPAddressRow where
  "zeroUnicastRow =
     \<lparr>uaAddress = zeroSockaddr, uaInterfaceLUID = 0, uaInterfaceIndex = 0, uaPrefixOrigin = 0,
      uaSuffixOrigin = 0, uaValidLifetime = 0, uaPreferredLifetime = 0, uaOnLinkPrefixLength = 0,
      uaSkipAsSource = False, uaDadState = DadStateInvalid, uaScopeID = 0, uaCreationTimeStamp = 0\<rparr>"

definition zeroForwardRow :: MibIPforwardRow2 where
  "zeroForwardRow =
     \<lparr>frInterfaceLUID = 0, frInterfaceIndex = 0,
      frDestinationPrefix = \<lparr>RawPrefix = zeroSockaddr, PrefixLength = 0\<rparr>, frNextHop = zeroSockaddr,
      frSitePrefixLength = 0, frValidLifetime = 0, frPreferredLifetime = 0, frMetric = 0,
      frProtocol = 0, frLoopback = False, frAutoconfigureAddress = False, frPublish = False,
      frImmortal = False, frAge = 0, frOrigin = 0\<rparr>"

definition zeroInterfaceRow :: MibIPInterfaceRow where
  "zeroInterfaceRow =
     \<lparr>ifFamily = 0, ifInterfaceLUID = 0, ifInterfaceIndex = 0, ifMaxReassemblySize = 0,
      ifInterfaceIdentifier = 0, ifMinRouterAdvertisementInterval = 0,
      ifMaxRouterAdvertisementInterval = 0, ifAdvertisingEnabled = False, ifForwardingEnabled = False,
      ifWeakHostSend = False, ifWeakHostReceive = False, ifUseAutomaticMetric = False,
      ifUseNeighborUnreachabilityDetection = False, ifManagedAddressConfigurationSupported = False,
      ifOtherStatefulConfigurationSupported = False, ifAdvertiseDefaultRoute = False,
      ifRouterDiscoveryBehavior = 0, ifDadTransmits = 0, ifBaseReachableTime = 0, ifRetransmitTime = 0,
      ifPathMTUDiscoveryTimeout = 0, ifLinkLocalAddressBehavior = 0, ifLinkLocalAddressTimeout = 0,
      ifZoneIndices = replicate 16 0, ifSitePrefixLength = 0, ifMetric = 0, ifNLMTU = 0,
      ifConnected = False, ifSupportsWakeUpPatterns = False, ifSupportsNeighborDiscovery = False,
      ifSupportsRouterDiscovery = False, ifReachableTime = 0, ifTransmitOffload = 0,
      ifReceiveOffload = 0, ifDisableDefaultRoutes = False\<rparr>"

section \<open>Properties\<close>

lemma zoneScope_formatUint: "n < 2 ^ 32 \<Longrightarrow> zoneScope (formatUint n) = of_nat n"
proof -
  assume n: "n < 2 ^ 32"
  then have "int n < 2 ^ 32"
    by simp
  then show ?thesis
    by (simp only: zoneScope_def parseUint_formatUint) simp
qed

text \<open>
  C25: storing an address and port in the socket-address union and reading them back, whatever
  the union held before: the port and an IPv4 address come back exactly, an IPv6 address comes
  back with its zone reduced to the numeric scope; an invalid address is refused and changes
  nothing.
\<close>

theorem sockaddr_roundtrip:
  assumes "sockaddr_wf s" "addr_wf ip"
  shows "if addrIsValid ip
    then \<exists>s'. SetAddrPort ip port s = (None, s') \<and> sockaddr_wf s' \<and>
              sockAddrPort s' = (scopedAddr ip, port)
    else SetAddrPort ip port s = (Some ERROR_INVALID_PARAMETER, s)"
proof (cases "addrIsValid ip")
  case True
  show ?thesis
    using SetAddrPort_read [OF assms True, of port] True
    by (cases "SetAddrPort ip port s") (auto simp: sockAddrPort_def)
next
  case False
  then show ?thesis
    by (simp add: SetAddrPort_def addrIsValid_def)
qed

theorem sockaddr_roundtrip_witness:
  "\<exists>s'. SetAddrPort (Addr6 (replicate 16 1) ''7'') 443 zeroSockaddr = (None, s') \<and>
     sockAddrPort s' = (Addr6 (replicate 16 1) ''7'', 443)"
proof -
  have seven: "formatUint 7 = ''7''"
    by code_simp
  have z: "zoneScope ''7'' = 7"
    using zoneScope_formatUint [of 7] unfolding seven by simp
  have "scopedAddr (Addr6 (replicate 16 1) ''7'') = Addr6 (replicate 16 1) ''7''"
    using seven z by (simp add: scopedAddr_def)
  then show ?thesis
    using sockaddr_roundtrip [of zeroSockaddr "Addr6 (replicate 16 1) ''7''" 443]
    by (auto simp: sockaddr_wf_def zeroSockaddr_def addrIsValid_def)
qed

text \<open>
  Which zones survive: an IPv6 address is read back unchanged exactly when its zone is empty
  or the canonical decimal form of a non-zero 32-bit scope; every other zone is dropped or
  rewritten without an error.
\<close>

theorem zone_survives_iff:
  "scopedAddr (Addr6 bs z) = Addr6 bs z \<longleftrightarrow>
     z = [] \<or> (\<exists>n. 0 < n \<and> n < 2 ^ 32 \<and> z = formatUint n)"
proof -
  have "scopedAddr (Addr6 bs z) = Addr6 bs z \<longleftrightarrow>
      (if zoneScope z = 0 then z = [] else z = formatUint (unat (zoneScope z)))"
    by (auto simp: scopedAddr_def)
  also have "\<dots> \<longleftrightarrow> z = [] \<or> (\<exists>n. 0 < n \<and> n < 2 ^ 32 \<and> z = formatUint n)"
  proof (cases "zoneScope z = 0")
    case True
    have "\<not> (\<exists>n. 0 < n \<and> n < 2 ^ 32 \<and> z = formatUint n)"
    proof clarify
      fix n :: nat assume "0 < n" "n < 2 ^ 32" "z = formatUint n"
      then have "unat (of_nat n :: u32) = 0"
        using True zoneScope_formatUint by simp
      moreover have "unat (of_nat n :: u32) = n"
        using \<open>n < 2 ^ 32\<close> by (intro unat_of_nat_small) simp
      ultimately show False
        using \<open>0 < n\<close> by simp
    qed
    with True show ?thesis by auto
  next
    case False
    have "z \<noteq> []"
      using False by (auto simp: zoneScope_def)
    moreover have "z = formatUint n \<Longrightarrow> n < 2 ^ 32 \<Longrightarrow> z = formatUint (unat (zoneScope z))" for n
      using zoneScope_formatUint [of n] unat_of_nat_small [of n, where 'a = 32] by simp
    moreover have "0 < unat (zoneScope z)" "unat (zoneScope z) < 2 ^ 32"
      using False unat_u32_bound [of "zoneScope z"] by (auto simp: unat_gt_0)
    ultimately show ?thesis
      using False by auto
  qed
  finally show ?thesis .
qed

text \<open>
  An IPv4 store writes only the IPv4 layout: the last twelve bytes of the union keep what
  was there before (an IPv6 address and scope stored earlier stay in memory), although the
  method is documented to set all other members to zero.
\<close>

theorem SetAddrPort_v4_residue:
  assumes "sockaddr_wf s"
  shows "getAt 14 12 (rsData (snd (SetAddrPort (Addr4 a b c d) port s))) = getAt 14 12 (rsData s)"
  using assms by (simp add: SetAddrPort_def sockaddr_wf_def getAt_putAt_above)

theorem SetAddrPort_v4_residue_witness:
  "getAt 14 12 (rsData (snd (SetAddrPort (Addr4 1 2 3 4) 0 \<lparr>rsFamily = 23, rsData = replicate 26 9\<rparr>)))
     \<noteq> replicate 12 0"
  using SetAddrPort_v4_residue [of "\<lparr>rsFamily = 23, rsData = replicate 26 9\<rparr>" 1 2 3 4 0]
  by (simp add: sockaddr_wf_def getAt_def)

text \<open>
  Prefixes survive the trip through the Windows prefix structure, invalid lengths included
  (they are stored as 255 and read back as invalid).
\<close>

theorem prefix_roundtrip:
  assumes "sockaddr_wf (RawPrefix x)" "prefix_wf p" "addrIsValid (pfxAddr p)"
  shows "\<exists>x'. SetPrefix p x = (None, x') \<and> prefixOf x' = p"
  using assms px.put_eq [of x p] px.put_get [of x p] by (auto simp: storablePrefix_def)

theorem prefix_roundtrip_witness:
  "\<exists>x'. SetPrefix (PrefixFrom (Addr4 10 7 0 2) 24) \<lparr>RawPrefix = zeroSockaddr, PrefixLength = 0\<rparr> = (None, x')
     \<and> prefixOf x' = PrefixFrom (Addr4 10 7 0 2) 24"
  using prefix_roundtrip [of "\<lparr>RawPrefix = zeroSockaddr, PrefixLength = 0\<rparr>"
      "PrefixFrom (Addr4 10 7 0 2) 24"]
  by (simp add: sockaddr_wf_def zeroSockaddr_def PrefixFrom_def prefix_wf_def addrIsValid_def)

end
