(* ===== verification/Win_Api.thy ===== *)
theory Win_Api
  imports Win_Types
begin

text \<open>
  The calls into \<^verbatim>\<open>iphlpapi.dll\<close>: \<^verbatim>\<open>src/winipcfg/zwinipcfg_windows.go\<close> and the table readers of
  \<^verbatim>\<open>winipcfg.go\<close>.  The DLL itself is outside the program: its entry points are the fields of the
  record \<open>iphlpapi\<close>, over a system state \<open>'w\<close> the program never looks into.  A query returns its
  return code and what it filled in; an update returns its return code and the new state.  The
  wrappers turn a non-zero return code into an error.  A table returned by a query is its list of
  rows; the memory that carries it is the subject of the theory \<open>Win_Table\<close>.
\<close>

section \<open>The DLL\<close>

type_synonym Handle = u64

record 'w iphlpapi =
  procInitializeIpInterfaceEntry :: "MibIPInterfaceRow \<Rightarrow> MibIPInterfaceRow"
  procGetIpInterfaceTable :: "AddressFamily \<Rightarrow> 'w \<Rightarrow> u32 \<times> MibIPInterfaceRow list"
  procGetIpInterfaceEntry :: "MibIPInterfaceRow \<Rightarrow> 'w \<Rightarrow> u32 \<times> MibIPInterfaceRow"
  procSetIpInterfaceEntry :: "MibIPInterfaceRow \<Rightarrow> 'w \<Rightarrow> u32 \<times> 'w"
  procConvertInterfaceLuidToGuid :: "LUID \<Rightarrow> 'w \<Rightarrow> u32 \<times> GUID"
  procConvertInterfaceGuidToLuid :: "GUID \<Rightarrow> 'w \<Rightarrow> u32 \<times> LUID"
  procConvertInterfaceIndexToLuid :: "u32 \<Rightarrow> 'w \<Rightarrow> u32 \<times> LUID"
  procGetUnicastIpAddressTable :: "AddressFamily \<Rightarrow> 'w \<Rightarrow> u32 \<times> MibUnicastIPAddressRow list"
  procInitializeUnicastIpAddressEntry :: "MibUnicastIPAddressRow \<Rightarrow> MibUnicastIPAddressRow"
  procGetUnicastIpAddressEntry :: "MibUnicastIPAddressRow \<Rightarrow> 'w \<Rightarrow> u32 \<times> MibUnicastIPAddressRow"
  procSetUnicastIpAddressEntry :: "MibUnicastIPAddressRow \<Rightarrow> 'w \<Rightarrow> u32 \<times> 'w"
  procCreateUnicastIpAddressEntry :: "MibUnicastIPAddressRow \<Rightarrow> 'w \<Rightarrow> u32 \<times> 'w"
  procDeleteUnicastIpAddressEntry :: "MibUnicastIPAddressRow \<Rightarrow> 'w \<Rightarrow> u32 \<times> 'w"
  procGetAnycastIpAddressTable :: "AddressFamily \<Rightarrow> 'w \<Rightarrow> u32 \<times> MibAnycastIPAddressRow list"
  procGetAnycastIpAddressEntry :: "MibAnycastIPAddressRow \<Rightarrow> 'w \<Rightarrow> u32 \<times> MibAnycastIPAddressRow"
  procCreateAnycastIpAddressEntry :: "MibAnycastIPAddressRow \<Rightarrow> 'w \<Rightarrow> u32 \<times> 'w"
  procDeleteAnycastIpAddressEntry :: "MibAnycastIPAddressRow \<Rightarrow> 'w \<Rightarrow> u32 \<times> 'w"
  procGetIpForwardTable2 :: "AddressFamily \<Rightarrow> 'w \<Rightarrow> u32 \<times> MibIPforwardRow2 list"
  procInitializeIpForwardEntry :: "MibIPforwardRow2 \<Rightarrow> MibIPforwardRow2"
  procGetIpForwardEntry2 :: "MibIPforwardRow2 \<Rightarrow> 'w \<Rightarrow> u32 \<times> MibIPforwardRow2"
  procSetIpForwardEntry2 :: "MibIPforwardRow2 \<Rightarrow> 'w \<Rightarrow> u32 \<times> 'w"
  procCreateIpForwardEntry2 :: "MibIPforwardRow2 \<Rightarrow> 'w \<Rightarrow> u32 \<times> 'w"
  procDeleteIpForwardEntry2 :: "MibIPforwardRow2 \<Rightarrow> 'w \<Rightarrow> u32 \<times> 'w"
  procNotifyIpInterfaceChange :: "AddressFamily \<Rightarrow> u32 \<Rightarrow> 'w \<Rightarrow> u32 \<times> Handle \<times> 'w"
  procNotifyUnicastIpAddressChange :: "AddressFamily \<Rightarrow> u32 \<Rightarrow> 'w \<Rightarrow> u32 \<times> Handle \<times> 'w"
  procNotifyRouteChange2 :: "AddressFamily \<Rightarrow> u32 \<Rightarrow> 'w \<Rightarrow> u32 \<times> Handle \<times> 'w"
  procCancelMibChangeNotify2 :: "Handle \<Rightarrow> 'w \<Rightarrow> u32 \<times> 'w"
  findSetInterfaceDnsSettings :: "gerr option"
  procSetInterfaceDnsSettings :: "GUID \<Rightarrow> DnsInterfaceSettings \<Rightarrow> 'w \<Rightarrow> u32 \<times> 'w"

text \<open>\<^verbatim>\<open>if r0 != 0 { ret = syscall.Errno(r0) }\<close>\<close>

definition retErr :: "u32 \<Rightarrow> gerr option" where
  "retErr r0 = (if r0 \<noteq> 0 then Some (Errno r0) else None)"

lemma retErr_None [simp]: "retErr r0 = None \<longleftrightarrow> r0 = 0"
  by (simp add: retErr_def)

section \<open>The wrappers\<close>

definition cancelMibChangeNotify2 :: "'w iphlpapi \<Rightarrow> Handle \<Rightarrow> 'w \<Rightarrow> gerr option \<times> 'w" where
  "cancelMibChangeNotify2 api x w = (let (r0, w) = procCancelMibChangeNotify2 api x w in (retErr r0, w))"

definition convertInterfaceGUIDToLUID :: "'w iphlpapi \<Rightarrow> GUID \<Rightarrow> 'w \<Rightarrow> gerr option \<times> LUID" where
  "convertInterfaceGUIDToLUID api x w = (let (r0, y) = procConvertInterfaceGuidToLuid api x w in (retErr r0, y))"

definition convertInterfaceIndexToLUID :: "'w iphlpapi \<Rightarrow> u32 \<Rightarrow> 'w \<Rightarrow> gerr option \<times> LUID" where
  "convertInterfaceIndexToLUID api x w = (let (r0, y) = procConvertInterfaceIndexToLuid api x w in (retErr r0, y))"

definition convertInterfaceLUIDToGUID :: "'w iphlpapi \<Rightarrow> LUID \<Rightarrow> 'w \<Rightarrow> gerr option \<times> GUID" where
  "convertInterfaceLUIDToGUID api x w = (let (r0, y) = procConvertInterfaceLuidToGuid api x w in (retErr r0, y))"

definition createAnycastIPAddressEntry :: "'w iphlpapi \<Rightarrow> MibAnycastIPAddressRow \<Rightarrow> 'w \<Rightarrow> gerr option \<times> 'w" where
  "createAnycastIPAddressEntry api x w = (let (r0, w) = procCreateAnycastIpAddressEntry api x w in (retErr r0, w))"

definition createIPForwardEntry2 :: "'w iphlpapi \<Rightarrow> MibIPforwardRow2 \<Rightarrow> 'w \<Rightarrow> gerr option \<times> 'w" where
  "createIPForwardEntry2 api x w = (let (r0, w) = procCreateIpForwardEntry2 api x w in (retErr r0, w))"

definition createUnicastIPAddressEntry :: "'w iphlpapi \<Rightarrow> MibUnicastIPAddressRow \<Rightarrow> 'w \<Rightarrow> gerr option \<times> 'w" where
  "createUnicastIPAddressEntry api x w = (let (r0, w) = procCreateUnicastIpAddressEntry api x w in (retErr r0, w))"

definition deleteAnycastIPAddressEntry :: "'w iphlpapi \<Rightarrow> MibAnycastIPAddressRow \<Rightarrow> 'w \<Rightarrow> gerr option \<times> 'w" where
  "deleteAnycastIPAddressEntry api x w = (let (r0, w) = procDeleteAnycastIpAddressEntry api x w in (retErr r0, w))"

definition deleteIPForwardEntry2 :: "'w iphlpapi \<Rightarrow> MibIPforwardRow2 \<Rightarrow> 'w \<Rightarrow> gerr option \<times> 'w" where
  "deleteIPForwardEntry2 api x w = (let (r0, w) = procDeleteIpForwardEntry2 api x w in (retErr r0, w))"

definition deleteUnicastIPAddressEntry :: "'w iphlpapi \<Rightarrow> MibUnicastIPAddressRow \<Rightarrow> 'w \<Rightarrow> gerr option \<times> 'w" where
  "deleteUnicastIPAddressEntry api x w = (let (r0, w) = procDeleteUnicastIpAddressEntry api x w in (retErr r0, w))"

definition getAnycastIPAddressEntry :: "'w iphlpapi \<Rightarrow> MibAnycastIPAddressRow \<Rightarrow> 'w \<Rightarrow> gerr option \<times> MibAnycastIPAddressRow" where
  "getAnycastIPAddressEntry api x w = (let (r0, y) = procGetAnycastIpAddressEntry api x w in (retErr r0, y))"

definition getIPForwardEntry2 :: "'w iphlpapi \<Rightarrow> MibIPforwardRow2 \<Rightarrow> 'w \<Rightarrow> gerr option \<times> MibIPforwardRow2" where
  "getIPForwardEntry2 api x w = (let (r0, y) = procGetIpForwardEntry2 api x w in (retErr r0, y))"

definition getIPInterfaceEntry :: "'w iphlpapi \<Rightarrow> MibIPInterfaceRow \<Rightarrow> 'w \<Rightarrow> gerr option \<times> MibIPInterfaceRow" where
  "getIPInterfaceEntry api x w = (let (r0, y) = procGetIpInterfaceEntry api x w in (retErr r0, y))"

definition getUnicastIPAddressEntry :: "'w iphlpapi \<Rightarrow> MibUnicastIPAddressRow \<Rightarrow> 'w \<Rightarrow> gerr option \<times> MibUnicastIPAddressRow" where
  "getUnicastIPAddressEntry api x w = (let (r0, y) = procGetUnicastIpAddressEntry api x w in (retErr r0, y))"

definition getAnycastIPAddressTable :: "'w iphlpapi \<Rightarrow> AddressFamily \<Rightarrow> 'w \<Rightarrow> gerr option \<times> MibAnycastIPAddressRow list" where
  "getAnycastIPAddressTable api x w = (let (r0, y) = procGetAnycastIpAddressTable api x w in (retErr r0, y))"

definition getIPForwardTable2 :: "'w iphlpapi \<Rightarrow> AddressFamily \<Rightarrow> 'w \<Rightarrow> gerr option \<times> MibIPforwardRow2 list" where
  "getIPForwardTable2 api x w = (let (r0, y) = procGetIpForwardTable2 api x w in (retErr r0, y))"

definition getIPInterfaceTable :: "'w iphlpapi \<Rightarrow> AddressFamily \<Rightarrow> 'w \<Rightarrow> gerr option \<times> MibIPInterfaceRow list" where
  "getIPInterfaceTable api x w = (let (r0, y) = procGetIpInterfaceTable api x w in (retErr r0, y))"

definition getUnicastIPAddressTable :: "'w iphlpapi \<Rightarrow> AddressFamily \<Rightarrow> 'w \<Rightarrow> gerr option \<times> MibUnicastIPAddressRow list" where
  "getUnicastIPAddressTable api x w = (let (r0, y) = procGetUnicastIpAddressTable api x w in (retErr r0, y))"

definition initializeIPForwardEntry :: "'w iphlpapi \<Rightarrow> MibIPforwardRow2 \<Rightarrow> MibIPforwardRow2" where
  "initializeIPForwardEntry api row = procInitializeIpForwardEntry api row"

definition initializeIPInterfaceEntry :: "'w iphlpapi \<Rightarrow> MibIPInterfaceRow \<Rightarrow> MibIPInterfaceRow" where
  "initializeIPInterfaceEntry api row = procInitializeIpInterfaceEntry api row"

definition initializeUnicastIPAddressEntry :: "'w iphlpapi \<Rightarrow> MibUnicastIPAddressRow \<Rightarrow> MibUnicastIPAddressRow" where
  "initializeUnicastIPAddressEntry api row = procInitializeUnicastIpAddressEntry api row"

definition notifyIPInterfaceChange ::
  "'w iphlpapi \<Rightarrow> AddressFamily \<Rightarrow> bool \<Rightarrow> 'w \<Rightarrow> gerr option \<times> Handle \<times> 'w" where
  "notifyIPInterfaceChange api family initial w =
     (let p0 = (if initial then 1 else 0); (r0, h, w) = procNotifyIpInterfaceChange api family p0 w
      in (retErr r0, h, w))"

definition notifyRouteChange2 ::
  "'w iphlpapi \<Rightarrow> AddressFamily \<Rightarrow> bool \<Rightarrow> 'w \<Rightarrow> gerr option \<times> Handle \<times> 'w" where
  "notifyRouteChange2 api family initial w =
     (let p0 = (if initial then 1 else 0); (r0, h, w) = procNotifyRouteChange2 api family p0 w
      in (retErr r0, h, w))"

definition notifyUnicastIPAddressChange ::
  "'w iphlpapi \<Rightarrow> AddressFamily \<Rightarrow> bool \<Rightarrow> 'w \<Rightarrow> gerr option \<times> Handle \<times> 'w" where
  "notifyUnicastIPAddressChange api family initial w =
     (let p0 = (if initial then 1 else 0); (r0, h, w) = procNotifyUnicastIpAddressChange api family p0 w
      in (retErr r0, h, w))"

definition setIPForwardEntry2 :: "'w iphlpapi \<Rightarrow> MibIPforwardRow2 \<Rightarrow> 'w \<Rightarrow> gerr option \<times> 'w" where
  "setIPForwardEntry2 api x w = (let (r0, w) = procSetIpForwardEntry2 api x w in (retErr r0, w))"

definition setIPInterfaceEntry :: "'w iphlpapi \<Rightarrow> MibIPInterfaceRow \<Rightarrow> 'w \<Rightarrow> gerr option \<times> 'w" where
  "setIPInterfaceEntry api x w = (let (r0, w) = procSetIpInterfaceEntry api x w in (retErr r0, w))"

definition setUnicastIPAddressEntry :: "'w iphlpapi \<Rightarrow> MibUnicastIPAddressRow \<Rightarrow> 'w \<Rightarrow> gerr option \<times> 'w" where
  "setUnicastIPAddressEntry api x w = (let (r0, w) = procSetUnicastIpAddressEntry api x w in (retErr r0, w))"

text \<open>
  The DNS call takes the GUID by value, which each architecture passes differently: by
  reference, as two 64-bit words, or as four 32-bit words.  The callee sees the same sixteen
  bytes (a little-endian number).
\<close>

definition setInterfaceDnsSettingsByPtr ::
  "'w iphlpapi \<Rightarrow> GUID \<Rightarrow> DnsInterfaceSettings \<Rightarrow> 'w \<Rightarrow> gerr option \<times> 'w" where
  "setInterfaceDnsSettingsByPtr api guid settings w =
     (case findSetInterfaceDnsSettings api of
        Some err \<Rightarrow> (Some err, w)
      | None \<Rightarrow> (let (r0, w) = procSetInterfaceDnsSettings api guid settings w in (retErr r0, w)))"

definition setInterfaceDnsSettingsByQwords ::
  "'w iphlpapi \<Rightarrow> u64 \<Rightarrow> u64 \<Rightarrow> DnsInterfaceSettings \<Rightarrow> 'w \<Rightarrow> gerr option \<times> 'w" where
  "setInterfaceDnsSettingsByQwords api g1 g2 settings w =
     (case findSetInterfaceDnsSettings api of
        Some err \<Rightarrow> (Some err, w)
      | None \<Rightarrow>
          (let guid = of_int (uint g1 + 2 ^ 64 * uint g2);
               (r0, w) = procSetInterfaceDnsSettings api guid settings w in (retErr r0, w)))"

definition setInterfaceDnsSettingsByDwords ::
  "'w iphlpapi \<Rightarrow> u32 \<Rightarrow> u32 \<Rightarrow> u32 \<Rightarrow> u32 \<Rightarrow> DnsInterfaceSettings \<Rightarrow> 'w \<Rightarrow> gerr option \<times> 'w" where
  "setInterfaceDnsSettingsByDwords api g1 g2 g3 g4 settings w =
     (case findSetInterfaceDnsSettings api of
        Some err \<Rightarrow> (Some err, w)
      | None \<Rightarrow>
          (let guid = of_int (uint g1 + 2 ^ 32 * uint g2 + 2 ^ 64 * uint g3 + 2 ^ 96 * uint g4);
               (r0, w) = procSetInterfaceDnsSettings api guid settings w in (retErr r0, w)))"

datatype goarch = Amd64 | Arm64 | Arm | I386

text \<open>\<^verbatim>\<open>words := (*[4]uintptr)(unsafe.Pointer(&guid))\<close>: the machine words of the GUID.\<close>

definition guidQword :: "GUID \<Rightarrow> nat \<Rightarrow> u64" where
  "guidQword g k = of_int (uint g div 2 ^ (64 * k) mod 2 ^ 64)"

definition guidDword :: "GUID \<Rightarrow> nat \<Rightarrow> u32" where
  "guidDword g k = of_int (uint g div 2 ^ (32 * k) mod 2 ^ 32)"

definition SetInterfaceDnsSettings ::
  "goarch \<Rightarrow> 'w iphlpapi \<Rightarrow> GUID \<Rightarrow> DnsInterfaceSettings \<Rightarrow> 'w \<Rightarrow> gerr option \<times> 'w" where
  "SetInterfaceDnsSettings arch api guid settings w =
     (case arch of
        Amd64 \<Rightarrow> setInterfaceDnsSettingsByPtr api guid settings w
      | Arm64 \<Rightarrow> setInterfaceDnsSettingsByQwords api (guidQword guid 0) (guidQword guid 1) settings w
      | _ \<Rightarrow> setInterfaceDnsSettingsByDwords api (guidDword guid 0) (guidDword guid 1)
               (guidDword guid 2) (guidDword guid 3) settings w)"

section \<open>Row methods\<close>

text \<open>The methods \<^verbatim>\<open>Init\<close>, \<^verbatim>\<open>get\<close>, \<^verbatim>\<open>Set\<close>, \<^verbatim>\<open>Create\<close> and \<^verbatim>\<open>Delete\<close> of the rows are the wrappers under another name.\<close>

abbreviation interfaceRowInit where "interfaceRowInit \<equiv> initializeIPInterfaceEntry"
abbreviation interfaceRowSet where "interfaceRowSet \<equiv> setIPInterfaceEntry"
abbreviation unicastRowInit where "unicastRowInit \<equiv> initializeUnicastIPAddressEntry"
abbreviation unicastRowGet where "unicastRowGet \<equiv> getUnicastIPAddressEntry"
abbreviation unicastRowSet where "unicastRowSet \<equiv> setUnicastIPAddressEntry"
abbreviation unicastRowCreate where "unicastRowCreate \<equiv> createUnicastIPAddressEntry"
abbreviation unicastRowDelete where "unicastRowDelete \<equiv> deleteUnicastIPAddressEntry"
abbreviation anycastRowGet where "anycastRowGet \<equiv> getAnycastIPAddressEntry"
abbreviation anycastRowCreate where "anycastRowCreate \<equiv> createAnycastIPAddressEntry"
abbreviation anycastRowDelete where "anycastRowDelete \<equiv> deleteAnycastIPAddressEntry"
abbreviation forwardRowInit where "forwardRowInit \<equiv> initializeIPForwardEntry"
abbreviation forwardRowGet where "forwardRowGet \<equiv> getIPForwardEntry2"
abbreviation forwardRowSet where "forwardRowSet \<equiv> setIPForwardEntry2"
abbreviation forwardRowCreate where "forwardRowCreate \<equiv> createIPForwardEntry2"
abbreviation forwardRowDelete where "forwardRowDelete \<equiv> deleteIPForwardEntry2"

section \<open>Table readers\<close>

definition GetIPForwardTable2 :: "'w iphlpapi \<Rightarrow> AddressFamily \<Rightarrow> 'w \<Rightarrow> gerr + MibIPforwardRow2 list" where
  "GetIPForwardTable2 api family w =
     (case getIPForwardTable2 api family w of (Some err, _) \<Rightarrow> Inl err | (None, t) \<Rightarrow> Inr t)"

definition GetUnicastIPAddressTable ::
  "'w iphlpapi \<Rightarrow> AddressFamily \<Rightarrow> 'w \<Rightarrow> gerr + MibUnicastIPAddressRow list" where
  "GetUnicastIPAddressTable api family w =
     (case getUnicastIPAddressTable api family w of (Some err, _) \<Rightarrow> Inl err | (None, t) \<Rightarrow> Inr t)"

definition GetAnycastIPAddressTable ::
  "'w iphlpapi \<Rightarrow> AddressFamily \<Rightarrow> 'w \<Rightarrow> gerr + MibAnycastIPAddressRow list" where
  "GetAnycastIPAddressTable api family w =
     (case getAnycastIPAddressTable api family w of (Some err, _) \<Rightarrow> Inl err | (None, t) \<Rightarrow> Inr t)"

definition GetIPInterfaceTable ::
  "'w iphlpapi \<Rightarrow> AddressFamily \<Rightarrow> 'w \<Rightarrow> gerr + MibIPInterfaceRow list" where
  "GetIPInterfaceTable api family w =
     (case getIPInterfaceTable api family w of (Some err, _) \<Rightarrow> Inl err | (None, t) \<Rightarrow> Inr t)"

text \<open>\<^verbatim>\<open>MibIPInterfaceRow.get\<close> with its patch of out-of-range site prefix lengths.\<close>

definition patchSitePrefix :: "MibIPInterfaceRow \<Rightarrow> MibIPInterfaceRow" where
  "patchSitePrefix row =
     (if ifFamily row = AF_INET then
        (if ifSitePrefixLength row > 32 then row\<lparr>ifSitePrefixLength := 0\<rparr> else row)
      else if ifFamily row = AF_INET6 then
        (if ifSitePrefixLength row > 128 then row\<lparr>ifSitePrefixLength := 128\<rparr> else row)
      else row)"

definition interfaceRowGet ::
  "'w iphlpapi \<Rightarrow> MibIPInterfaceRow \<Rightarrow> 'w \<Rightarrow> gerr option \<times> MibIPInterfaceRow" where
  "interfaceRowGet api row w =
     (case getIPInterfaceEntry api row w of
        (Some err, row) \<Rightarrow> (Some err, row)
      | (None, row) \<Rightarrow> (None, patchSitePrefix row))"

section \<open>Properties\<close>

lemma guid_range: "0 \<le> uint (g :: GUID)" "uint (g :: GUID) < 2 ^ 128"
proof -
  show "0 \<le> uint g" by simp
  have "uint g < 2 ^ LENGTH(128)" by (rule uint_bounded)
  then show "uint g < 2 ^ 128" by simp
qed

lemma uint_guidQword: "uint (guidQword g k) = uint g div 2 ^ (64 * k) mod 2 ^ 64"
  by (simp add: guidQword_def uint_word_of_int)

lemma uint_guidDword: "uint (guidDword g k) = uint g div 2 ^ (32 * k) mod 2 ^ 32"
  by (simp add: guidDword_def uint_word_of_int)

text \<open>A value below \<open>b ^ 2\<close> is its two digits to the base \<open>b\<close>.\<close>

lemma two_digits:
  fixes x b :: int
  assumes "0 < b" "0 \<le> x" "x < b * b"
  shows "x mod b + b * (x div b mod b) = x"
proof -
  have "b * (x div b) \<le> x"
    using assms(1) by (simp add: minus_mod_eq_mult_div [symmetric])
  then have "b * (x div b) < b * b"
    using assms(3) by simp
  then have "x div b < b"
    using assms(1) by simp
  moreover have "0 \<le> x div b"
    using assms by (simp add: pos_imp_zdiv_nonneg_iff)
  ultimately show ?thesis
    by (simp add: mod_pos_pos_trivial)
qed

lemma four_digits:
  fixes b :: int
  assumes "d0 + b * d1 = lo" "d2 + b * d3 = hi" "lo + b * b * hi = x"
  shows "d0 + b * d1 + b * b * d2 + b * b * b * d3 = x"
  unfolding assms(3) [symmetric] assms(1,2) [symmetric] by (simp add: algebra_simps)

lemma guid_qwords: "of_int (uint (guidQword g 0) + 2 ^ 64 * uint (guidQword g 1)) = g"
proof -
  have "uint g mod 2 ^ 64 + 2 ^ 64 * (uint g div 2 ^ 64 mod 2 ^ 64) = uint g"
    using guid_range [of g] by (intro two_digits) simp_all
  then have "uint (guidQword g 0) + 2 ^ 64 * uint (guidQword g 1) = uint g"
    by (simp add: uint_guidQword)
  then show ?thesis
    by (simp only: word_of_int_uint)
qed

lemma guid_dwords:
  "of_int (uint (guidDword g 0) + 2 ^ 32 * uint (guidDword g 1) + 2 ^ 64 * uint (guidDword g 2)
     + 2 ^ 96 * uint (guidDword g 3)) = g"
proof -
  define lo hi where "lo = uint g mod 2 ^ 64" and "hi = uint g div 2 ^ 64"
  have "0 \<le> hi" "hi < 2 ^ 32 * 2 ^ 32"
    using guid_range [of g] two_digits [of "2 ^ 64" "uint g"]
    by (simp_all add: hi_def pos_imp_zdiv_nonneg_iff)
  then have hi: "hi mod 2 ^ 32 + 2 ^ 32 * (hi div 2 ^ 32 mod 2 ^ 32) = hi"
    by (intro two_digits) simp_all
  have lo: "lo mod 2 ^ 32 + 2 ^ 32 * (lo div 2 ^ 32 mod 2 ^ 32) = lo"
    by (intro two_digits) (simp_all add: lo_def)
  have x: "lo + 2 ^ 32 * 2 ^ 32 * hi = uint g"
    by (simp add: lo_def hi_def mod_mult_div_eq)
  have d: "uint (guidDword g 0) = lo mod 2 ^ 32" "uint (guidDword g 1) = lo div 2 ^ 32 mod 2 ^ 32"
    "uint (guidDword g 2) = hi mod 2 ^ 32" "uint (guidDword g 3) = hi div 2 ^ 32 mod 2 ^ 32"
    unfolding uint_guidDword lo_def hi_def
    by (simp_all add: mod_mod_cancel zdiv_zmult2_eq [symmetric])
       (simp add: zmod_zmult2_eq [of "4294967296" "uint g" "4294967296", simplified])
  have "uint (guidDword g 0) + 2 ^ 32 * uint (guidDword g 1) + 2 ^ 32 * 2 ^ 32 * uint (guidDword g 2)
     + 2 ^ 32 * 2 ^ 32 * 2 ^ 32 * uint (guidDword g 3) = uint g"
    unfolding d by (rule four_digits [OF lo hi x])
  then have "uint (guidDword g 0) + 2 ^ 32 * uint (guidDword g 1) + 2 ^ 64 * uint (guidDword g 2)
     + 2 ^ 96 * uint (guidDword g 3) = uint g"
    by simp
  then show ?thesis
    by (simp only: word_of_int_uint)
qed

text \<open>
  The three calling conventions for the DNS call agree: on every architecture the driver
  receives the same GUID and settings, and a missing entry point is reported without calling.
\<close>

theorem dns_calling_conventions_agree:
  "SetInterfaceDnsSettings arch api guid settings w = SetInterfaceDnsSettings Amd64 api guid settings w"
  unfolding SetInterfaceDnsSettings_def setInterfaceDnsSettingsByPtr_def
    setInterfaceDnsSettingsByQwords_def setInterfaceDnsSettingsByDwords_def guid_qwords guid_dwords
  by (cases arch) (simp_all only: goarch.case Let_def)

text \<open>
  C38: the interface row handed out by \<^verbatim>\<open>get\<close> always has a site prefix length the matching
  \<^verbatim>\<open>Set\<close> call accepts for its family, and \<^verbatim>\<open>get\<close> changes no other field of the system's row.
\<close>

theorem interface_row_site_prefix:
  assumes "interfaceRowGet api row w = (None, row')"
  shows "(ifFamily row' = AF_INET \<longrightarrow> ifSitePrefixLength row' \<le> 32) \<and>
    (ifFamily row' = AF_INET6 \<longrightarrow> ifSitePrefixLength row' \<le> 128) \<and>
    (\<exists>raw. procGetIpInterfaceEntry api row w = (0, raw) \<and>
           row' = raw\<lparr>ifSitePrefixLength := ifSitePrefixLength row'\<rparr>)"
  using assms
  by (auto simp: interfaceRowGet_def getIPInterfaceEntry_def patchSitePrefix_def not_less
      split: prod.splits option.splits if_splits)

end
