(* ===== verification/Win_Memory.thy ===== *)
theory Win_Memory
  imports Win_Api
begin

text \<open>
  A reference system for the IP helper calls: routing, address and interface tables and DNS
  settings held in memory, with the documented behaviour (creating an existing entry and
  deleting or reading a missing one fail).  It instantiates the parameter of the model in the
  concrete instances of the properties; no property depends on it.
\<close>

record memWorld =
  mwRoutes :: "MibIPforwardRow2 list"
  mwAddrs :: "MibUnicastIPAddressRow list"
  mwIfaces :: "MibIPInterfaceRow list"
  mwDns :: "(GUID \<times> DnsInterfaceSettings) list"
  mwHandles :: "Handle list"

definition emptyWorld :: memWorld where
  "emptyWorld = \<lparr>mwRoutes = [], mwAddrs = [], mwIfaces = [], mwDns = [], mwHandles = []\<rparr>"

text \<open>The key of a route is its interface, destination prefix and next hop.\<close>

type_synonym route_key = "LUID \<times> Prefix \<times> Addr"

definition routeKey :: "MibIPforwardRow2 \<Rightarrow> route_key" where
  "routeKey r = (frInterfaceLUID r, prefixOf (frDestinationPrefix r), sockAddr (frNextHop r))"

definition inFamily :: "AddressFamily \<Rightarrow> route_key \<Rightarrow> bool" where
  "inFamily fam k \<longleftrightarrow>
     fam = AF_UNSPEC \<or> fam = AF_INET \<and> addrIs4 (pfxAddr (fst (snd k)))
       \<or> fam = AF_INET6 \<and> addrIs6 (pfxAddr (fst (snd k)))"

definition addrKey :: "MibUnicastIPAddressRow \<Rightarrow> LUID \<times> Addr" where
  "addrKey r = (uaInterfaceLUID r, sockAddr (uaAddress r))"

text \<open>Table operations by key: 5010 is \<^verbatim>\<open>ERROR_OBJECT_ALREADY_EXISTS\<close>, 1168 \<^verbatim>\<open>ERROR_NOT_FOUND\<close>.\<close>

definition tabCreate :: "('r \<Rightarrow> 'k) \<Rightarrow> 'r \<Rightarrow> 'r list \<Rightarrow> u32 \<times> 'r list" where
  "tabCreate key r t = (if key r \<in> key ` set t then (5010, t) else (0, t @ [r]))"

definition tabDelete :: "('r \<Rightarrow> 'k) \<Rightarrow> 'r \<Rightarrow> 'r list \<Rightarrow> u32 \<times> 'r list" where
  "tabDelete key r t =
     (if key r \<in> key ` set t then (0, filter (\<lambda>x. key x \<noteq> key r) t) else (1168, t))"

definition tabGet :: "('r \<Rightarrow> 'k) \<Rightarrow> 'r \<Rightarrow> 'r list \<Rightarrow> u32 \<times> 'r" where
  "tabGet key r t = (case find (\<lambda>x. key x = key r) t of Some x \<Rightarrow> (0, x) | None \<Rightarrow> (1168, r))"

text \<open>Only rows whose socket addresses have their 26 data bytes count.\<close>

definition row_wf :: "MibIPforwardRow2 \<Rightarrow> bool" where
  "row_wf r \<longleftrightarrow> sockaddr_wf (RawPrefix (frDestinationPrefix r)) \<and> sockaddr_wf (frNextHop r)"

definition wfRoutes :: "memWorld \<Rightarrow> MibIPforwardRow2 list" where
  "wfRoutes w = filter row_wf (mwRoutes w)"

text \<open>A registration gets the least free handle; 8 is \<^verbatim>\<open>ERROR_NOT_ENOUGH_MEMORY\<close>.\<close>

definition newHandle :: "memWorld \<Rightarrow> u32 \<times> Handle \<times> memWorld" where
  "newHandle w =
     (case find (\<lambda>h. h \<noteq> 0 \<and> h \<notin> set (mwHandles w)) (map of_nat [1 ..< length (mwHandles w) + 2]) of
        Some h \<Rightarrow> (0, h, w\<lparr>mwHandles := mwHandles w @ [h]\<rparr>)
      | None \<Rightarrow> (8, 0, w))"

definition memApi :: "memWorld iphlpapi" where
  "memApi =
     \<lparr>procInitializeIpInterfaceEntry = (\<lambda>r. r),
      procGetIpInterfaceTable = (\<lambda>fam w. (0, filter (\<lambda>r. fam = AF_UNSPEC \<or> ifFamily r = fam) (mwIfaces w))),
      procGetIpInterfaceEntry = (\<lambda>r w. tabGet (\<lambda>x. (ifInterfaceLUID x, ifFamily x)) r (mwIfaces w)),
      procSetIpInterfaceEntry = (\<lambda>r w.
        (0, w\<lparr>mwIfaces := map (\<lambda>x. if ifInterfaceLUID x = ifInterfaceLUID r \<and> ifFamily x = ifFamily r
                                   then r else x) (mwIfaces w)\<rparr>)),
      procConvertInterfaceLuidToGuid = (\<lambda>l w. (0, ucast l)),
      procConvertInterfaceGuidToLuid = (\<lambda>g w. (0, ucast g)),
      procConvertInterfaceIndexToLuid = (\<lambda>i w. (0, ucast i)),
      procGetUnicastIpAddressTable = (\<lambda>fam w.
        (0, filter (\<lambda>r. fam = AF_UNSPEC \<or> rsFamily (uaAddress r) = fam) (mwAddrs w))),
      procInitializeUnicastIpAddressEntry = (\<lambda>r. r),
      procGetUnicastIpAddressEntry = (\<lambda>r w. tabGet addrKey r (mwAddrs w)),
      procSetUnicastIpAddressEntry = (\<lambda>r w. (0, w)),
      procCreateUnicastIpAddressEntry = (\<lambda>r w.
        let (e, t) = tabCreate addrKey r (mwAddrs w) in (e, w\<lparr>mwAddrs := t\<rparr>)),
      procDeleteUnicastIpAddressEntry = (\<lambda>r w.
        let (e, t) = tabDelete addrKey r (mwAddrs w) in (e, w\<lparr>mwAddrs := t\<rparr>)),
      procGetAnycastIpAddressTable = (\<lambda>fam w. (0, [])),
      procGetAnycastIpAddressEntry = (\<lambda>r w. (1168, r)),
      procCreateAnycastIpAddressEntry = (\<lambda>r w. (50, w)),
      procDeleteAnycastIpAddressEntry = (\<lambda>r w. (1168, w)),
      procGetIpForwardTable2 = (\<lambda>fam w. (0, filter (\<lambda>r. inFamily fam (routeKey r)) (wfRoutes w))),
      procInitializeIpForwardEntry = (\<lambda>r. r\<lparr>frValidLifetime := 0xffffffff, frPreferredLifetime := 0xffffffff\<rparr>),
      procGetIpForwardEntry2 = (\<lambda>r w. tabGet routeKey r (wfRoutes w)),
      procSetIpForwardEntry2 = (\<lambda>r w. (0, w)),
      procCreateIpForwardEntry2 = (\<lambda>r w.
        if \<not> row_wf r then (87, w)
        else let (e, t) = tabCreate routeKey r (wfRoutes w) in (e, w\<lparr>mwRoutes := t\<rparr>)),
      procDeleteIpForwardEntry2 = (\<lambda>r w.
        let (e, t) = tabDelete routeKey r (wfRoutes w) in (e, w\<lparr>mwRoutes := t\<rparr>)),
      procNotifyIpInterfaceChange = (\<lambda>fam i w. newHandle w),
      procNotifyUnicastIpAddressChange = (\<lambda>fam i w. newHandle w),
      procNotifyRouteChange2 = (\<lambda>fam i w. newHandle w),
      procCancelMibChangeNotify2 = (\<lambda>h w. (0, w\<lparr>mwHandles := removeAll h (mwHandles w)\<rparr>)),
      findSetInterfaceDnsSettings = None,
      procSetInterfaceDnsSettings = (\<lambda>g s w. (0, w\<lparr>mwDns := (g, s) # mwDns w\<rparr>))\<rparr>"

section \<open>A concrete instance of the interface row query\<close>

lemma interface_row_get_example:
  "interfaceRowGet memApi (zeroInterfaceRow\<lparr>ifFamily := AF_INET\<rparr>)
     (emptyWorld\<lparr>mwIfaces := [zeroInterfaceRow\<lparr>ifFamily := AF_INET, ifSitePrefixLength := 64\<rparr>]\<rparr>)
   = (None, zeroInterfaceRow\<lparr>ifFamily := AF_INET, ifSitePrefixLength := 0\<rparr>)"
  by (simp add: interfaceRowGet_def getIPInterfaceEntry_def memApi_def tabGet_def emptyWorld_def
      patchSitePrefix_def retErr_def zeroInterfaceRow_def)

theorem interface_row_site_prefix_witness:
  "\<exists>row'. interfaceRowGet memApi (zeroInterfaceRow\<lparr>ifFamily := AF_INET\<rparr>)
     (emptyWorld\<lparr>mwIfaces := [zeroInterfaceRow\<lparr>ifFamily := AF_INET, ifSitePrefixLength := 64\<rparr>]\<rparr>)
     = (None, row') \<and> ifSitePrefixLength row' \<le> 32"
  using interface_row_site_prefix [OF interface_row_get_example] interface_row_get_example
  by (auto simp: zeroInterfaceRow_def)

end
