(* ===== verification/Win_Change.thy ===== *)
theory Win_Change
  imports Win_Memory
begin

text \<open>
  The change notification registries of \<^verbatim>\<open>src/winipcfg/route_change_handler.go\<close>,
  \<^verbatim>\<open>interface_change_handler.go\<close> and \<^verbatim>\<open>unicast_address_change_handler.go\<close>.  The three files run
  the same protocol over three row types; the protocol is written once, over the row type and the
  registration call, and instantiated three times.

  Two mutexes order the operations.  Registration holds both throughout, so it is one step;
  \<^verbatim>\<open>Unregister\<close> holds the add/remove mutex throughout but releases the other while it waits for
  running callbacks, so it is two steps, between which only notifications and callback
  completions can happen: \<open>csUnregistering\<close> is the \<^verbatim>\<open>Unregister\<close> call that holds the mutex.
  A notification starts one goroutine per registered callback; a goroutine counts in the
  callback's wait group until it is done.  Callbacks are identified by their allocation number.
\<close>

section \<open>The protocol\<close>

type_synonym MibNotificationType = u32

record ('r, 'w) changeState =
  csCallbacks :: "nat list"
  csHandle :: Handle
  csWait :: "nat \<Rightarrow> nat"
  csRunning :: "(nat \<times> MibNotificationType \<times> 'r) list"
  csUnregistering :: "(nat \<times> bool) option"
  csNext :: nat
  csWorld :: 'w

definition initChange :: "'w \<Rightarrow> ('r, 'w) changeState" where
  "initChange w = \<lparr>csCallbacks = [], csHandle = 0, csWait = (\<lambda>_. 0), csRunning = [],
     csUnregistering = None, csNext = 0, csWorld = w\<rparr>"

type_synonym 'w notifyCall = "'w \<Rightarrow> gerr option \<times> Handle \<times> 'w"
type_synonym 'w cancelCall = "Handle \<Rightarrow> 'w \<Rightarrow> gerr option \<times> 'w"

definition registerCallback ::
  "'w notifyCall \<Rightarrow> ('r, 'w) changeState \<Rightarrow> (gerr + nat) \<times> ('r, 'w) changeState" where
  "registerCallback notify s =
     (let cb = csNext s;
          s = s\<lparr>csNext := Suc cb, csCallbacks := csCallbacks s @ [cb]\<rparr>
      in if csHandle s = 0 then
           (case notify (csWorld s) of
              (Some err, _, w) \<Rightarrow>
                (Inl err, s\<lparr>csCallbacks := removeAll cb (csCallbacks s), csHandle := 0, csWorld := w\<rparr>)
            | (None, h, w) \<Rightarrow> (Inr cb, s\<lparr>csHandle := h, csWorld := w\<rparr>))
         else (Inr cb, s))"

text \<open>\<^verbatim>\<open>Unregister\<close> up to the wait, and from the wait to its return.\<close>

definition unregisterBegin :: "nat \<Rightarrow> ('r, 'w) changeState \<Rightarrow> ('r, 'w) changeState" where
  "unregisterBegin cb s =
     (let cbs = removeAll cb (csCallbacks s)
      in s\<lparr>csCallbacks := cbs, csUnregistering := Some (cb, cbs = [] \<and> csHandle s \<noteq> 0)\<rparr>)"

definition unregisterEnd ::
  "'w cancelCall \<Rightarrow> ('r, 'w) changeState \<Rightarrow> gerr option \<times> ('r, 'w) changeState" where
  "unregisterEnd cancel s =
     (case csUnregistering s of
        Some (cb, True) \<Rightarrow>
          (case cancel (csHandle s) (csWorld s) of
             (Some err, w) \<Rightarrow> (Some err, s\<lparr>csWorld := w, csUnregistering := None\<rparr>)
           | (None, w) \<Rightarrow> (None, s\<lparr>csHandle := 0, csWorld := w, csUnregistering := None\<rparr>))
      | _ \<Rightarrow> (None, s\<lparr>csUnregistering := None\<rparr>))"

text \<open>\<^verbatim>\<open>cb.wait.Add(1); go func(...)\<close>, for every registered callback.\<close>

definition startCallback ::
  "MibNotificationType \<Rightarrow> 'r \<Rightarrow> ('r, 'w) changeState \<Rightarrow> nat \<Rightarrow> ('r, 'w) changeState" where
  "startCallback n row s cb =
     s\<lparr>csWait := (csWait s)(cb := csWait s cb + 1), csRunning := csRunning s @ [(cb, n, row)]\<rparr>"

definition rowChanged ::
  "'r \<Rightarrow> MibNotificationType \<Rightarrow> ('r, 'w) changeState \<Rightarrow> ('r, 'w) changeState" where
  "rowChanged row n s = foldl (startCallback n row) s (csCallbacks s)"

text \<open>The end of a callback goroutine: \<^verbatim>\<open>cb.wait.Done()\<close>.\<close>

definition callbackDone :: "nat \<Rightarrow> ('r, 'w) changeState \<Rightarrow> ('r, 'w) changeState" where
  "callbackDone i s =
     (let cb = fst (csRunning s ! i)
      in s\<lparr>csWait := (csWait s)(cb := csWait s cb - 1),
           csRunning := take i (csRunning s) @ drop (Suc i) (csRunning s)\<rparr>)"

inductive changeStep ::
  "'w notifyCall \<Rightarrow> 'w cancelCall \<Rightarrow> ('r, 'w) changeState \<Rightarrow> ('r, 'w) changeState \<Rightarrow> bool"
  for notify cancel where
  registered: "csUnregistering s = None \<Longrightarrow> changeStep notify cancel s (snd (registerCallback notify s))"
| beginUnregister: "csUnregistering s = None \<Longrightarrow> cb < csNext s \<Longrightarrow>
    changeStep notify cancel s (unregisterBegin cb s)"
| endUnregister: "csUnregistering s = Some (cb, r) \<Longrightarrow> csWait s cb = 0 \<Longrightarrow>
    changeStep notify cancel s (snd (unregisterEnd cancel s))"
| notified: "changeStep notify cancel s (rowChanged row n s)"
| finished: "i < length (csRunning s) \<Longrightarrow> changeStep notify cancel s (callbackDone i s)"

section \<open>The three registries\<close>

type_synonym 'w routeChanges = "(MibIPforwardRow2, 'w) changeState"
type_synonym 'w interfaceChanges = "(MibIPInterfaceRow, 'w) changeState"
type_synonym 'w unicastAddressChanges = "(MibUnicastIPAddressRow, 'w) changeState"

definition RegisterRouteChangeCallback ::
  "'w iphlpapi \<Rightarrow> 'w routeChanges \<Rightarrow> (gerr + nat) \<times> 'w routeChanges" where
  "RegisterRouteChangeCallback api = registerCallback (notifyRouteChange2 api AF_UNSPEC False)"

definition RegisterInterfaceChangeCallback ::
  "'w iphlpapi \<Rightarrow> 'w interfaceChanges \<Rightarrow> (gerr + nat) \<times> 'w interfaceChanges" where
  "RegisterInterfaceChangeCallback api = registerCallback (notifyIPInterfaceChange api AF_UNSPEC False)"

definition RegisterUnicastAddressChangeCallback ::
  "'w iphlpapi \<Rightarrow> 'w unicastAddressChanges \<Rightarrow> (gerr + nat) \<times> 'w unicastAddressChanges" where
  "RegisterUnicastAddressChangeCallback api =
     registerCallback (notifyUnicastIPAddressChange api AF_UNSPEC False)"

text \<open>\<^verbatim>\<open>Unregister\<close> without interference, when no callback is running.\<close>

definition unregisterCallback ::
  "'w iphlpapi \<Rightarrow> nat \<Rightarrow> ('r, 'w) changeState \<Rightarrow> gerr option \<times> ('r, 'w) changeState" where
  "unregisterCallback api cb s = unregisterEnd (cancelMibChangeNotify2 api) (unregisterBegin cb s)"

definition routeUnregister :: "'w iphlpapi \<Rightarrow> nat \<Rightarrow> 'w routeChanges \<Rightarrow> gerr option \<times> 'w routeChanges" where
  "routeUnregister = unregisterCallback"

definition interfaceUnregister ::
  "'w iphlpapi \<Rightarrow> nat \<Rightarrow> 'w interfaceChanges \<Rightarrow> gerr option \<times> 'w interfaceChanges" where
  "interfaceUnregister = unregisterCallback"

definition unicastAddressUnregister ::
  "'w iphlpapi \<Rightarrow> nat \<Rightarrow> 'w unicastAddressChanges \<Rightarrow> gerr option \<times> 'w unicastAddressChanges" where
  "unicastAddressUnregister = unregisterCallback"

definition routeChanged ::
  "MibIPforwardRow2 \<Rightarrow> MibNotificationType \<Rightarrow> 'w routeChanges \<Rightarrow> 'w routeChanges" where
  "routeChanged = rowChanged"

definition interfaceChanged ::
  "MibIPInterfaceRow \<Rightarrow> MibNotificationType \<Rightarrow> 'w interfaceChanges \<Rightarrow> 'w interfaceChanges" where
  "interfaceChanged = rowChanged"

definition unicastAddressChanged ::
  "MibUnicastIPAddressRow \<Rightarrow> MibNotificationType \<Rightarrow> 'w unicastAddressChanges \<Rightarrow> 'w unicastAddressChanges" where
  "unicastAddressChanged = rowChanged"

abbreviation routeStep :: "'w iphlpapi \<Rightarrow> 'w routeChanges \<Rightarrow> 'w routeChanges \<Rightarrow> bool" where
  "routeStep api \<equiv> changeStep (notifyRouteChange2 api AF_UNSPEC False) (cancelMibChangeNotify2 api)"

abbreviation interfaceStep :: "'w iphlpapi \<Rightarrow> 'w interfaceChanges \<Rightarrow> 'w interfaceChanges \<Rightarrow> bool" where
  "interfaceStep api \<equiv> changeStep (notifyIPInterfaceChange api AF_UNSPEC False) (cancelMibChangeNotify2 api)"

abbreviation unicastStep ::
  "'w iphlpapi \<Rightarrow> 'w unicastAddressChanges \<Rightarrow> 'w unicastAddressChanges \<Rightarrow> bool" where
  "unicastStep api \<equiv>
     changeStep (notifyUnicastIPAddressChange api AF_UNSPEC False) (cancelMibChangeNotify2 api)"

text \<open>The operations called in a row, with no callback running, are runs of the protocol.\<close>

lemma unregisterCallback_steps:
  assumes "csUnregistering s = None" "cb < csNext s" "csWait s cb = 0"
  shows "(changeStep notify (cancelMibChangeNotify2 api))\<^sup>*\<^sup>* s (snd (unregisterCallback api cb s))"
proof -
  have "changeStep notify (cancelMibChangeNotify2 api) s (unregisterBegin cb s)"
    using assms by (intro changeStep.beginUnregister)
  moreover have "changeStep notify (cancelMibChangeNotify2 api) (unregisterBegin cb s) (snd (unregisterCallback api cb s))"
    using assms(3) unfolding unregisterCallback_def
    by (intro changeStep.endUnregister) (auto simp: unregisterBegin_def Let_def)
  ultimately show ?thesis
    by simp
qed

section \<open>The registry invariant\<close>

definition changes_inv :: "('r, 'w) changeState \<Rightarrow> bool" where
  "changes_inv s \<longleftrightarrow>
     distinct (csCallbacks s) \<and> (\<forall>cb\<in>set (csCallbacks s). cb < csNext s) \<and>
     (\<forall>cb. csWait s cb = count_list (map fst (csRunning s)) cb) \<and>
     (\<forall>x\<in>set (csRunning s). fst x < csNext s) \<and>
     (\<forall>cb r. csUnregistering s = Some (cb, r) \<longrightarrow>
        cb < csNext s \<and> cb \<notin> set (csCallbacks s) \<and> (r \<longrightarrow> csCallbacks s = [] \<and> csHandle s \<noteq> 0))"

lemma rowChanged_fields [simp]:
  "csCallbacks (rowChanged row n s) = csCallbacks s"
  "csHandle (rowChanged row n s) = csHandle s"
  "csUnregistering (rowChanged row n s) = csUnregistering s"
  "csNext (rowChanged row n s) = csNext s"
  "csWorld (rowChanged row n s) = csWorld s"
  "csRunning (rowChanged row n s) = csRunning s @ map (\<lambda>cb. (cb, n, row)) (csCallbacks s)"
  "csWait (rowChanged row n s) cb = csWait s cb + count_list (csCallbacks s) cb"
proof -
  have "csCallbacks (foldl (startCallback n row) s cbs) = csCallbacks s \<and>
      csHandle (foldl (startCallback n row) s cbs) = csHandle s \<and>
      csUnregistering (foldl (startCallback n row) s cbs) = csUnregistering s \<and>
      csNext (foldl (startCallback n row) s cbs) = csNext s \<and>
      csWorld (foldl (startCallback n row) s cbs) = csWorld s \<and>
      csRunning (foldl (startCallback n row) s cbs) = csRunning s @ map (\<lambda>cb. (cb, n, row)) cbs \<and>
      csWait (foldl (startCallback n row) s cbs) cb = csWait s cb + count_list cbs cb" for cbs
    by (induction cbs arbitrary: s) (simp_all add: startCallback_def)
  then show "csCallbacks (rowChanged row n s) = csCallbacks s"
    "csHandle (rowChanged row n s) = csHandle s"
    "csUnregistering (rowChanged row n s) = csUnregistering s"
    "csNext (rowChanged row n s) = csNext s"
    "csWorld (rowChanged row n s) = csWorld s"
    "csRunning (rowChanged row n s) = csRunning s @ map (\<lambda>cb. (cb, n, row)) (csCallbacks s)"
    "csWait (rowChanged row n s) cb = csWait s cb + count_list (csCallbacks s) cb"
    unfolding rowChanged_def by blast+
qed

lemma count_list_split:
  "i < length xs \<Longrightarrow>
     count_list xs y = count_list (take i xs @ drop (Suc i) xs) y + (if xs ! i = y then 1 else 0)"
  by (subst (1) id_take_nth_drop, assumption) simp

lemma changes_inv_init [simp]: "changes_inv (initChange w)"
  by (simp add: changes_inv_def initChange_def)

lemma changes_inv_register:
  assumes "changes_inv s" "csUnregistering s = None"
  shows "changes_inv (snd (registerCallback notify s))"
  using assms
  by (auto simp: changes_inv_def registerCallback_def Let_def removeAll_filter_not_eq less_Suc_eq
      split: prod.splits option.splits intro: filter_cong)

lemma changes_inv_begin:
  "changes_inv s \<Longrightarrow> cb < csNext s \<Longrightarrow> changes_inv (unregisterBegin cb s)"
  by (auto simp: changes_inv_def unregisterBegin_def Let_def distinct_removeAll)

lemma changes_inv_end: "changes_inv s \<Longrightarrow> changes_inv (snd (unregisterEnd cancel s))"
  by (auto simp: changes_inv_def unregisterEnd_def split: prod.splits option.splits bool.splits)

lemma changes_inv_changed: "changes_inv s \<Longrightarrow> changes_inv (rowChanged row n s)"
  by (auto simp: changes_inv_def comp_def)

lemma changes_inv_done: "changes_inv s \<Longrightarrow> i < length (csRunning s) \<Longrightarrow> changes_inv (callbackDone i s)"
  using count_list_split [of i "map fst (csRunning s)"]
  by (auto simp: changes_inv_def callbackDone_def Let_def take_map drop_map
      dest: in_set_takeD in_set_dropD)

lemmas changes_inv_steps = changes_inv_register changes_inv_begin changes_inv_end changes_inv_changed
  changes_inv_done

lemma changeStep_inv: "changeStep notify cancel s s' \<Longrightarrow> changes_inv s \<Longrightarrow> changes_inv s'"
  by (induction rule: changeStep.induct) (simp_all add: changes_inv_steps)

section \<open>Quiescence after Unregister\<close>

text \<open>
  What a caller of \<^verbatim>\<open>Unregister\<close> relies on: once a callback is quiet it stays quiet, whatever the
  other threads and the system do.
\<close>

locale quiescence =
  fixes step :: "'s \<Rightarrow> 's \<Rightarrow> bool"
    and inv :: "'s \<Rightarrow> bool"
    and quiet :: "'c \<Rightarrow> 's \<Rightarrow> bool"
  assumes inv_step: "step s s' \<Longrightarrow> inv s \<Longrightarrow> inv s'"
    and quiet_step: "step s s' \<Longrightarrow> inv s \<Longrightarrow> quiet c s \<Longrightarrow> quiet c s'"
begin

lemma inv_steps: "step\<^sup>*\<^sup>* s s' \<Longrightarrow> inv s \<Longrightarrow> inv s'"
  by (induction rule: rtranclp_induct) (auto intro: inv_step)

lemma quiet_forever: "step\<^sup>*\<^sup>* s s' \<Longrightarrow> inv s \<Longrightarrow> quiet c s \<Longrightarrow> quiet c s'"
proof (induction rule: rtranclp_induct)
  case (step s1 s2)
  moreover from this have "inv s1"
    by (simp add: inv_steps)
  ultimately show ?case
    by (simp add: quiet_step)
qed

end

definition quietCallback :: "nat \<Rightarrow> ('r, 'w) changeState \<Rightarrow> bool" where
  "quietCallback cb s \<longleftrightarrow> cb < csNext s \<and> cb \<notin> set (csCallbacks s) \<and> cb \<notin> fst ` set (csRunning s)"

lemma changeStep_quiet:
  "changeStep notify cancel s s' \<Longrightarrow> quietCallback cb s \<Longrightarrow> quietCallback cb s'"
proof (induction rule: changeStep.induct)
  case (registered s)
  then show ?case
    by (auto simp: quietCallback_def registerCallback_def Let_def split: prod.splits option.splits)
next
  case (endUnregister s cb' r)
  then show ?case
    by (auto simp: quietCallback_def unregisterEnd_def split: prod.splits option.splits bool.splits)
next
  case (finished i s)
  then show ?case
    by (auto simp: quietCallback_def callbackDone_def Let_def dest: in_set_takeD in_set_dropD)
qed (auto simp: quietCallback_def unregisterBegin_def Let_def)

interpretation cs: quiescence "changeStep notify cancel" changes_inv quietCallback
  for notify :: "'w notifyCall" and cancel :: "'w cancelCall"
  by unfold_locales (simp_all add: changeStep_inv changeStep_quiet)


section \<open>The registration with the system\<close>

text \<open>
  \<open>live\<close> are the registrations the system holds.  A successful registration returns a new
  nonzero handle, a successful cancellation removes its handle, failures change nothing.
\<close>

definition documented_notify ::
  "'w notifyCall \<Rightarrow> 'w cancelCall \<Rightarrow> ('w \<Rightarrow> Handle set) \<Rightarrow> bool" where
  "documented_notify notify cancel live \<longleftrightarrow>
     (\<forall>w e h w'. notify w = (e, h, w') \<longrightarrow>
        (if e = None then h \<noteq> 0 \<and> h \<notin> live w \<and> live w' = insert h (live w) else live w' = live w)) \<and>
     (\<forall>h w e w'. cancel h w = (e, w') \<longrightarrow> live w' = (if e = None then live w - {h} else live w))"

definition registration_ok :: "('w \<Rightarrow> Handle set) \<Rightarrow> 'w \<Rightarrow> ('r, 'w) changeState \<Rightarrow> bool" where
  "registration_ok live w s \<longleftrightarrow>
     (csCallbacks s \<noteq> [] \<longrightarrow> csHandle s \<noteq> 0) \<and>
     (csHandle s \<noteq> 0 \<longrightarrow> csHandle s \<notin> live w) \<and>
     live (csWorld s) = live w \<union> (if csHandle s = 0 then {} else {csHandle s})"

lemma registration_ok_register:
  assumes "documented_notify notify cancel live" "registration_ok live w s"
  shows "registration_ok live w (snd (registerCallback notify s))"
proof (cases "csHandle s = 0")
  case True
  obtain e h w' where n: "notify (csWorld s) = (e, h, w')"
    by (metis prod.exhaust)
  have "if e = None then h \<noteq> 0 \<and> h \<notin> live (csWorld s) \<and> live w' = insert h (live (csWorld s))
      else live w' = live (csWorld s)"
    using assms(1) n unfolding documented_notify_def by blast
  then show ?thesis
    using assms(2) True n
    by (auto simp: registration_ok_def registerCallback_def Let_def split: if_splits option.splits)
qed (use assms(2) in \<open>auto simp: registration_ok_def registerCallback_def Let_def\<close>)

lemma registration_ok_end:
  assumes "documented_notify notify cancel live" "registration_ok live w s" "changes_inv s"
  shows "registration_ok live w (snd (unregisterEnd cancel s))"
proof (cases "\<exists>cb. csUnregistering s = Some (cb, True)")
  case True
  obtain e w' where c: "cancel (csHandle s) (csWorld s) = (e, w')"
    by fastforce
  have "live w' = (if e = None then live (csWorld s) - {csHandle s} else live (csWorld s))"
    using assms(1) c unfolding documented_notify_def by blast
  moreover have "csCallbacks s = []" "csHandle s \<noteq> 0"
    using True assms(3) by (auto simp: changes_inv_def)
  ultimately show ?thesis
    using assms(2) True c by (auto simp: registration_ok_def unregisterEnd_def split: option.splits)
qed (use assms(2) in \<open>auto simp: registration_ok_def unregisterEnd_def split: option.splits bool.splits\<close>)

lemma changeStep_registration:
  assumes "documented_notify notify cancel live"
  shows "changeStep notify cancel s s' \<Longrightarrow> changes_inv s \<Longrightarrow> registration_ok live w s \<Longrightarrow>
    registration_ok live w s'"
proof (induction rule: changeStep.induct)
  case (registered s)
  then show ?case by (simp add: registration_ok_register [OF assms])
next
  case (endUnregister s cb r)
  then show ?case by (simp add: registration_ok_end [OF assms])
next
  case (beginUnregister s cb)
  then show ?case by (auto simp: registration_ok_def unregisterBegin_def Let_def)
next
  case (notified s row n)
  then show ?case by (simp add: registration_ok_def)
next
  case (finished i s)
  then show ?case by (simp add: registration_ok_def callbackDone_def Let_def)
qed

lemma reachable_registration:
  assumes "documented_notify notify cancel live" "(changeStep notify cancel)\<^sup>*\<^sup>* (initChange w) s"
  shows "changes_inv s \<and> registration_ok live w s"
  using assms(2)
proof (induction rule: rtranclp_induct)
  case base
  show ?case by (simp add: registration_ok_def) (simp add: initChange_def)
next
  case (step s1 s2)
  then show ?case
    using changeStep_inv changeStep_registration [OF assms(1)] by blast
qed

section \<open>Waiting ends\<close>

lemma drain_callbacks:
  "changes_inv s \<Longrightarrow> \<exists>s'. (changeStep notify cancel)\<^sup>*\<^sup>* s s' \<and> csRunning s' = [] \<and>
     csUnregistering s' = csUnregistering s \<and> changes_inv s'"
proof (induction "length (csRunning s)" arbitrary: s)
  case 0
  then show ?case by (intro exI [of _ s]) simp
next
  case (Suc n)
  let ?s = "callbackDone 0 s"
  have nonempty: "0 < length (csRunning s)"
    using Suc.hyps(2) by linarith
  then have first: "changeStep notify cancel s ?s"
    by (rule changeStep.finished)
  have same: "csUnregistering ?s = csUnregistering s" "changes_inv ?s"
    using Suc.prems changes_inv_done [OF _ nonempty] by (simp_all add: callbackDone_def Let_def)
  have "n = length (csRunning ?s)"
    using Suc.hyps(2) by (auto simp: callbackDone_def Let_def)
  then obtain s' where "(changeStep notify cancel)\<^sup>*\<^sup>* ?s s'" "csRunning s' = []"
      "csUnregistering s' = csUnregistering ?s" "changes_inv s'"
    using Suc.hyps(1) [of ?s] same(2) by blast
  then show ?case
    using first same by (intro exI [of _ s']) (simp add: converse_rtranclp_into_rtranclp)
qed

section \<open>Properties\<close>


text \<open>
  C27: the system registration follows the callbacks, for each of the three registries.  In every
  reachable state the system holds, beyond what it held at the start, exactly the registration
  of a nonzero handle and none for a zero one (nothing leaks, nothing is cancelled twice), and
  while a callback is registered the handle is live.
\<close>

theorem registration_follows_callbacks:
  assumes "documented_notify (notifyRouteChange2 api AF_UNSPEC False) (cancelMibChangeNotify2 api) live"
    and "documented_notify (notifyIPInterfaceChange api AF_UNSPEC False) (cancelMibChangeNotify2 api) live"
    and "documented_notify (notifyUnicastIPAddressChange api AF_UNSPEC False) (cancelMibChangeNotify2 api) live"
  shows "((routeStep api)\<^sup>*\<^sup>* (initChange w) rs \<longrightarrow> registration_ok live w rs) \<and>
    ((interfaceStep api)\<^sup>*\<^sup>* (initChange w) is \<longrightarrow> registration_ok live w is) \<and>
    ((unicastStep api)\<^sup>*\<^sup>* (initChange w) us \<longrightarrow> registration_ok live w us)"
  using reachable_registration [OF assms(1), of w rs] reachable_registration [OF assms(2), of w "is"]
    reachable_registration [OF assms(3), of w us]
  by blast

text \<open>
  A notification reaches every registered callback exactly once and nobody else, and the
  wait groups count exactly the callbacks that are running.
\<close>

theorem notification_delivery:
  assumes "(changeStep notify cancel)\<^sup>*\<^sup>* (initChange w) s"
  shows "csRunning (rowChanged row n s) = csRunning s @ map (\<lambda>cb. (cb, n, row)) (csCallbacks s) \<and>
    distinct (csCallbacks s) \<and>
    (\<forall>cb. csWait (rowChanged row n s) cb = count_list (map fst (csRunning (rowChanged row n s))) cb)"
proof -
  have "changes_inv s"
    using cs.inv_steps [OF assms] by simp
  moreover from this have "changes_inv (rowChanged row n s)"
    by (rule changes_inv_changed)
  ultimately show ?thesis
    by (simp add: changes_inv_def)
qed

text \<open>
  C32: Unregister can always return.  From every reachable state with a waiting \<^verbatim>\<open>Unregister\<close>, the
  running callbacks finishing and nothing else lets it pass the wait and give up the mutex.
\<close>

theorem unregister_can_return:
  assumes "(changeStep notify cancel)\<^sup>*\<^sup>* (initChange w) s" "csUnregistering s = Some (cb, r)"
  shows "\<exists>s1. (changeStep notify cancel)\<^sup>*\<^sup>* s s1 \<and> csUnregistering s1 = Some (cb, r) \<and>
    csWait s1 cb = 0 \<and> csUnregistering (snd (unregisterEnd cancel s1)) = None"
proof -
  have "changes_inv s"
    using cs.inv_steps [OF assms(1)] by simp
  then obtain s1 where s1: "(changeStep notify cancel)\<^sup>*\<^sup>* s s1" "csRunning s1 = []"
      "csUnregistering s1 = Some (cb, r)" "changes_inv s1"
    using drain_callbacks [of s notify cancel] assms(2) by auto
  then have "csWait s1 cb = 0"
    by (simp add: changes_inv_def)
  then show ?thesis
    using s1 by (intro exI [of _ s1]) (auto simp: unregisterEnd_def split: prod.splits option.splits bool.splits)
qed

section \<open>Concrete instances\<close>

text \<open>One callback registered, notified, and unregistered while its goroutine runs.\<close>

definition demoNotified :: "memWorld routeChanges" where
  "demoNotified =
     routeChanged zeroForwardRow 1 (snd (RegisterRouteChangeCallback memApi (initChange emptyWorld)))"

definition demoWaiting :: "memWorld routeChanges" where
  "demoWaiting = callbackDone 0 (unregisterBegin 0 demoNotified)"

lemma demo_steps:
  "(routeStep memApi)\<^sup>*\<^sup>* (initChange emptyWorld) demoNotified"
  "(routeStep memApi)\<^sup>*\<^sup>* (initChange emptyWorld) demoWaiting"
  "csCallbacks demoNotified = [0]" "csUnregistering demoWaiting = Some (0, True)" "csWait demoWaiting 0 = 0"
proof -
  let ?s1 = "snd (RegisterRouteChangeCallback memApi (initChange emptyWorld))"
  let ?s3 = "unregisterBegin 0 demoNotified"
  have s1: "csCallbacks ?s1 = [0]" "csUnregistering ?s1 = None" "csNext ?s1 = 1" "csRunning ?s1 = []"
      "csWait ?s1 = (\<lambda>_. 0)" "csHandle ?s1 = 1"
    by (simp_all add: RegisterRouteChangeCallback_def registerCallback_def initChange_def Let_def
        notifyRouteChange2_def memApi_def newHandle_def emptyWorld_def retErr_def)
  have a: "routeStep memApi (initChange emptyWorld) ?s1"
    unfolding RegisterRouteChangeCallback_def by (rule changeStep.registered) (simp add: initChange_def)
  have b: "routeStep memApi ?s1 demoNotified"
    unfolding demoNotified_def routeChanged_def by (rule changeStep.notified)
  have n: "csCallbacks demoNotified = [0]" "csUnregistering demoNotified = None" "csNext demoNotified = 1"
      "csRunning demoNotified = [(0, 1, zeroForwardRow)]" "csWait demoNotified 0 = 1"
      "csHandle demoNotified = 1"
    using s1 by (simp_all add: demoNotified_def routeChanged_def)
  have c: "routeStep memApi demoNotified ?s3"
    using n by (intro changeStep.beginUnregister) simp_all
  have d: "routeStep memApi ?s3 demoWaiting"
    unfolding demoWaiting_def using n by (intro changeStep.finished) (simp add: unregisterBegin_def Let_def)
  show "(routeStep memApi)\<^sup>*\<^sup>* (initChange emptyWorld) demoNotified"
    "(routeStep memApi)\<^sup>*\<^sup>* (initChange emptyWorld) demoWaiting"
    using a b c d by (meson rtranclp.rtrancl_into_rtrancl rtranclp.rtrancl_refl)+
  show "csCallbacks demoNotified = [0]" "csUnregistering demoWaiting = Some (0, True)" "csWait demoWaiting 0 = 0"
    using n by (simp_all add: demoWaiting_def callbackDone_def unregisterBegin_def Let_def)
qed



lemma newHandle_documented:
  assumes "newHandle w = (r, h, w')"
  shows "if r = 0 then h \<noteq> 0 \<and> h \<notin> set (mwHandles w) \<and> set (mwHandles w') = insert h (set (mwHandles w))
    else set (mwHandles w') = set (mwHandles w)"
  using assms by (auto simp: newHandle_def find_Some_iff split: option.splits)

lemma memApi_documented_notify:
  "documented_notify (notifyRouteChange2 memApi AF_UNSPEC False) (cancelMibChangeNotify2 memApi)
     (\<lambda>w. set (mwHandles w))"
  "documented_notify (notifyIPInterfaceChange memApi AF_UNSPEC False) (cancelMibChangeNotify2 memApi)
     (\<lambda>w. set (mwHandles w))"
  "documented_notify (notifyUnicastIPAddressChange memApi AF_UNSPEC False) (cancelMibChangeNotify2 memApi)
     (\<lambda>w. set (mwHandles w))"
  by (auto simp: documented_notify_def notifyRouteChange2_def notifyIPInterfaceChange_def
      notifyUnicastIPAddressChange_def cancelMibChangeNotify2_def memApi_def retErr_def
      split: prod.splits if_splits dest!: newHandle_documented)

theorem registration_follows_callbacks_witness:
  "registration_ok (\<lambda>w. set (mwHandles w)) emptyWorld demoNotified"
  using registration_follows_callbacks [OF memApi_documented_notify, of emptyWorld demoNotified]
    demo_steps(1) by blast

theorem notification_delivery_witness:
  "distinct (csCallbacks demoNotified)"
  using notification_delivery [OF demo_steps(1)] by blast

theorem unregister_can_return_witness:
  "\<exists>s1. (routeStep memApi)\<^sup>*\<^sup>* demoWaiting s1 \<and> csWait s1 0 = 0"
  using unregister_can_return [OF demo_steps(2,4)] by blast

end
