(* ===== verification/Win_Luid.thy ===== *)
theory Win_Luid
  imports Win_Memory
begin

text \<open>
  The operations on an interface of \<^verbatim>\<open>src/winipcfg/luid.go\<close>: addresses, routes and DNS of a
  \<^verbatim>\<open>LUID\<close>.  Every operation takes the DLL and the system state and returns its error, if any, and
  the state after it.  What the IP helper documentation promises of the routing table is the
  predicate \<open>documented_routes\<close>, over an abstract view of the table as a set of
  (interface, prefix, next hop) keys; the properties of the route operations are stated under it.
\<close>

section \<open>Interface and address operations\<close>

definition IPInterface ::
  "'w iphlpapi \<Rightarrow> LUID \<Rightarrow> AddressFamily \<Rightarrow> 'w \<Rightarrow> gerr + MibIPInterfaceRow" where
  "IPInterface api luid family w =
     (let row = interfaceRowInit api zeroInterfaceRow;
          row = row\<lparr>ifInterfaceLUID := luid, ifFamily := family\<rparr>
      in case interfaceRowGet api row w of
           (Some err, _) \<Rightarrow> Inl err
         | (None, row) \<Rightarrow> Inr row)"

definition luidGUID :: "'w iphlpapi \<Rightarrow> LUID \<Rightarrow> 'w \<Rightarrow> gerr + GUID" where
  "luidGUID api luid w =
     (case convertInterfaceLUIDToGUID api luid w of (Some err, _) \<Rightarrow> Inl err | (None, g) \<Rightarrow> Inr g)"

definition LUIDFromGUID :: "'w iphlpapi \<Rightarrow> GUID \<Rightarrow> 'w \<Rightarrow> gerr + LUID" where
  "LUIDFromGUID api guid w =
     (case convertInterfaceGUIDToLUID api guid w of (Some err, _) \<Rightarrow> Inl err | (None, l) \<Rightarrow> Inr l)"

definition LUIDFromIndex :: "'w iphlpapi \<Rightarrow> u32 \<Rightarrow> 'w \<Rightarrow> gerr + LUID" where
  "LUIDFromIndex api index w =
     (case convertInterfaceIndexToLUID api index w of (Some err, _) \<Rightarrow> Inl err | (None, l) \<Rightarrow> Inr l)"

definition IPAddress ::
  "'w iphlpapi \<Rightarrow> LUID \<Rightarrow> Addr \<Rightarrow> 'w \<Rightarrow> gerr + MibUnicastIPAddressRow" where
  "IPAddress api luid addr w =
     (let row = zeroUnicastRow\<lparr>uaInterfaceLUID := luid\<rparr>
      in case SetAddr addr (uaAddress row) of
           (Some err, _) \<Rightarrow> Inl err
         | (None, a) \<Rightarrow>
             (case unicastRowGet api (row\<lparr>uaAddress := a\<rparr>) w of
                (Some err, _) \<Rightarrow> Inl err
              | (None, row) \<Rightarrow> Inr row))"

definition AddIPAddress ::
  "'w iphlpapi \<Rightarrow> LUID \<Rightarrow> Prefix \<Rightarrow> 'w \<Rightarrow> gerr option \<times> 'w" where
  "AddIPAddress api luid address w =
     (let row = unicastRowInit api zeroUnicastRow;
          row = row\<lparr>uaInterfaceLUID := luid, uaDadState := DadStatePreferred,
                    uaValidLifetime := 0xffffffff, uaPreferredLifetime := 0xffffffff\<rparr>
      in case SetAddr (pfxAddr address) (uaAddress row) of
           (Some err, _) \<Rightarrow> (Some err, w)
         | (None, a) \<Rightarrow>
             unicastRowCreate api
               (row\<lparr>uaAddress := a, uaOnLinkPrefixLength := of_int (pfxBits address)\<rparr>) w)"

fun AddIPAddresses ::
  "'w iphlpapi \<Rightarrow> LUID \<Rightarrow> Prefix list \<Rightarrow> 'w \<Rightarrow> gerr option \<times> 'w" where
  "AddIPAddresses api luid [] w = (None, w)"
| "AddIPAddresses api luid (a # as) w =
     (case AddIPAddress api luid a w of
        (Some err, w) \<Rightarrow> (Some err, w)
      | (None, w) \<Rightarrow> AddIPAddresses api luid as w)"

text \<open>The loop of \<^verbatim>\<open>FlushIPAddresses\<close> over the table; errors of single deletions are ignored.\<close>

fun flushAddressRows ::
  "'w iphlpapi \<Rightarrow> LUID \<Rightarrow> MibUnicastIPAddressRow list \<Rightarrow> 'w \<Rightarrow> 'w" where
  "flushAddressRows api luid [] w = w"
| "flushAddressRows api luid (r # rs) w =
     flushAddressRows api luid rs
       (if uaInterfaceLUID r = luid then snd (unicastRowDelete api r w) else w)"

definition FlushIPAddresses ::
  "'w iphlpapi \<Rightarrow> LUID \<Rightarrow> AddressFamily \<Rightarrow> 'w \<Rightarrow> gerr option \<times> 'w" where
  "FlushIPAddresses api luid family w =
     (case getUnicastIPAddressTable api family w of
        (Some err, _) \<Rightarrow> (Some err, w)
      | (None, t) \<Rightarrow> (None, flushAddressRows api luid t w))"

definition SetIPAddresses ::
  "'w iphlpapi \<Rightarrow> LUID \<Rightarrow> Prefix list \<Rightarrow> 'w \<Rightarrow> gerr option \<times> 'w" where
  "SetIPAddresses api luid addresses w =
     (case FlushIPAddresses api luid AF_UNSPEC w of
        (Some err, w) \<Rightarrow> (Some err, w)
      | (None, w) \<Rightarrow> AddIPAddresses api luid addresses w)"

text \<open>The family filter of the \<^verbatim>\<open>...ForFamily\<close> loops: skip an address of the other family.\<close>

definition skipFamily :: "AddressFamily \<Rightarrow> Addr \<Rightarrow> bool" where
  "skipFamily family a \<longleftrightarrow>
     (\<not> addrIs4 a \<and> family = AF_INET) \<or> (\<not> addrIs6 a \<and> family = AF_INET6)"

fun addAddressesForFamily ::
  "'w iphlpapi \<Rightarrow> LUID \<Rightarrow> AddressFamily \<Rightarrow> Prefix list \<Rightarrow> 'w \<Rightarrow> gerr option \<times> 'w" where
  "addAddressesForFamily api luid family [] w = (None, w)"
| "addAddressesForFamily api luid family (a # as) w =
     (if skipFamily family (pfxAddr a) then addAddressesForFamily api luid family as w
      else case AddIPAddress api luid a w of
             (Some err, w) \<Rightarrow> (Some err, w)
           | (None, w) \<Rightarrow> addAddressesForFamily api luid family as w)"

definition SetIPAddressesForFamily ::
  "'w iphlpapi \<Rightarrow> LUID \<Rightarrow> AddressFamily \<Rightarrow> Prefix list \<Rightarrow> 'w \<Rightarrow> gerr option \<times> 'w" where
  "SetIPAddressesForFamily api luid family addresses w =
     (case FlushIPAddresses api luid family w of
        (Some err, w) \<Rightarrow> (Some err, w)
      | (None, w) \<Rightarrow> addAddressesForFamily api luid family addresses w)"

definition DeleteIPAddress ::
  "'w iphlpapi \<Rightarrow> LUID \<Rightarrow> Prefix \<Rightarrow> 'w \<Rightarrow> gerr option \<times> 'w" where
  "DeleteIPAddress api luid address w =
     (let row = (unicastRowInit api zeroUnicastRow)\<lparr>uaInterfaceLUID := luid\<rparr>
      in case SetAddr (pfxAddr address) (uaAddress row) of
           (Some err, _) \<Rightarrow> (Some err, w)
         | (None, a) \<Rightarrow>
             unicastRowDelete api
               (row\<lparr>uaAddress := a, uaOnLinkPrefixLength := of_int (pfxBits address)\<rparr>) w)"

section \<open>Route operations\<close>

text \<open>The row the route operations build: initialised, with interface, destination and next hop.\<close>

definition routeRow ::
  "'w iphlpapi \<Rightarrow> LUID \<Rightarrow> Prefix \<Rightarrow> Addr \<Rightarrow> gerr + MibIPforwardRow2" where
  "routeRow api luid destination nextHop =
     (let row = (forwardRowInit api zeroForwardRow)\<lparr>frInterfaceLUID := luid\<rparr>
      in case SetPrefix destination (frDestinationPrefix row) of
           (Some err, _) \<Rightarrow> Inl err
         | (None, p) \<Rightarrow>
             (case SetAddr nextHop (frNextHop row) of
                (Some err, _) \<Rightarrow> Inl err
              | (None, h) \<Rightarrow> Inr (row\<lparr>frDestinationPrefix := p, frNextHop := h\<rparr>)))"

definition Route ::
  "'w iphlpapi \<Rightarrow> LUID \<Rightarrow> Prefix \<Rightarrow> Addr \<Rightarrow> 'w \<Rightarrow> gerr + MibIPforwardRow2" where
  "Route api luid destination nextHop w =
     (case routeRow api luid destination nextHop of
        Inl err \<Rightarrow> Inl err
      | Inr row \<Rightarrow>
          (case forwardRowGet api
                  (row\<lparr>frValidLifetime := 0xffffffff, frPreferredLifetime := 0xffffffff\<rparr>) w of
             (Some err, _) \<Rightarrow> Inl err
           | (None, row) \<Rightarrow> Inr row))"

definition AddRoute ::
  "'w iphlpapi \<Rightarrow> LUID \<Rightarrow> Prefix \<Rightarrow> Addr \<Rightarrow> u32 \<Rightarrow> 'w \<Rightarrow> gerr option \<times> 'w" where
  "AddRoute api luid destination nextHop metric w =
     (case routeRow api luid destination nextHop of
        Inl err \<Rightarrow> (Some err, w)
      | Inr row \<Rightarrow> forwardRowCreate api (row\<lparr>frMetric := metric\<rparr>) w)"

fun AddRoutes ::
  "'w iphlpapi \<Rightarrow> LUID \<Rightarrow> RouteData list \<Rightarrow> 'w \<Rightarrow> gerr option \<times> 'w" where
  "AddRoutes api luid [] w = (None, w)"
| "AddRoutes api luid (rd # rds) w =
     (case AddRoute api luid (rdDestination rd) (rdNextHop rd) (rdMetric rd) w of
        (Some err, w) \<Rightarrow> (Some err, w)
      | (None, w) \<Rightarrow> AddRoutes api luid rds w)"

text \<open>The loop of \<^verbatim>\<open>FlushRoutes\<close>: it continues on failures and remembers the last error.\<close>

fun flushRouteRows ::
  "'w iphlpapi \<Rightarrow> LUID \<Rightarrow> MibIPforwardRow2 list \<Rightarrow> gerr option \<Rightarrow> 'w \<Rightarrow> gerr option \<times> 'w" where
  "flushRouteRows api luid [] err w = (err, w)"
| "flushRouteRows api luid (r # rs) err w =
     (if frInterfaceLUID r = luid
      then let (err2, w) = forwardRowDelete api r w
           in flushRouteRows api luid rs (if err2 \<noteq> None then err2 else err) w
      else flushRouteRows api luid rs err w)"

definition FlushRoutes ::
  "'w iphlpapi \<Rightarrow> LUID \<Rightarrow> AddressFamily \<Rightarrow> 'w \<Rightarrow> gerr option \<times> 'w" where
  "FlushRoutes api luid family w =
     (case getIPForwardTable2 api family w of
        (Some err, _) \<Rightarrow> (Some err, w)
      | (None, t) \<Rightarrow> flushRouteRows api luid t None w)"

definition SetRoutes ::
  "'w iphlpapi \<Rightarrow> LUID \<Rightarrow> RouteData list \<Rightarrow> 'w \<Rightarrow> gerr option \<times> 'w" where
  "SetRoutes api luid rds w =
     (case FlushRoutes api luid AF_UNSPEC w of
        (Some err, w) \<Rightarrow> (Some err, w)
      | (None, w) \<Rightarrow> AddRoutes api luid rds w)"

fun addRoutesForFamily ::
  "'w iphlpapi \<Rightarrow> LUID \<Rightarrow> AddressFamily \<Rightarrow> RouteData list \<Rightarrow> 'w \<Rightarrow> gerr option \<times> 'w" where
  "addRoutesForFamily api luid family [] w = (None, w)"
| "addRoutesForFamily api luid family (rd # rds) w =
     (if skipFamily family (pfxAddr (rdDestination rd)) then addRoutesForFamily api luid family rds w
      else case AddRoute api luid (rdDestination rd) (rdNextHop rd) (rdMetric rd) w of
             (Some err, w) \<Rightarrow> (Some err, w)
           | (None, w) \<Rightarrow> addRoutesForFamily api luid family rds w)"

definition SetRoutesForFamily ::
  "'w iphlpapi \<Rightarrow> LUID \<Rightarrow> AddressFamily \<Rightarrow> RouteData list \<Rightarrow> 'w \<Rightarrow> gerr option \<times> 'w" where
  "SetRoutesForFamily api luid family rds w =
     (case FlushRoutes api luid family w of
        (Some err, w) \<Rightarrow> (Some err, w)
      | (None, w) \<Rightarrow> addRoutesForFamily api luid family rds w)"

definition DeleteRoute ::
  "'w iphlpapi \<Rightarrow> LUID \<Rightarrow> Prefix \<Rightarrow> Addr \<Rightarrow> 'w \<Rightarrow> gerr option \<times> 'w" where
  "DeleteRoute api luid destination nextHop w =
     (case routeRow api luid destination nextHop of
        Inl err \<Rightarrow> (Some err, w)
      | Inr row \<Rightarrow>
          (case forwardRowGet api row w of
             (Some err, _) \<Rightarrow> (Some err, w)
           | (None, row) \<Rightarrow> forwardRowDelete api row w))"

section \<open>DNS\<close>

text \<open>
  What \<^verbatim>\<open>SetDNS\<close> uses of \<^verbatim>\<open>golang.org/x/sys/windows\<close>: UTF-16 conversion, the text form of a GUID,
  the registry and the service manager.
\<close>

record 'w winsys =
  UTF16PtrFromString :: "string \<Rightarrow> gerr + u16 list"
  guidString :: "GUID \<Rightarrow> string"
  regOpenKey :: "string \<Rightarrow> 'w \<Rightarrow> gerr option \<times> 'w"
  regSetStringValue :: "string \<Rightarrow> string \<Rightarrow> string \<Rightarrow> 'w \<Rightarrow> gerr option \<times> 'w"
  regCloseKey :: "string \<Rightarrow> 'w \<Rightarrow> 'w"
  scmConnect :: "'w \<Rightarrow> gerr option \<times> 'w"
  scmOpenService :: "string \<Rightarrow> 'w \<Rightarrow> gerr option \<times> 'w"
  svcControlParamChange :: "string \<Rightarrow> 'w \<Rightarrow> 'w"
  svcClose :: "string \<Rightarrow> 'w \<Rightarrow> 'w"
  scmDisconnect :: "'w \<Rightarrow> 'w"

definition dnsServersFor :: "AddressFamily \<Rightarrow> Addr list \<Rightarrow> string list" where
  "dnsServersFor family servers =
     map addrString
       (filter (\<lambda>a. addrIs4 a \<and> family = AF_INET \<or> addrIs6 a \<and> family = AF_INET6) servers)"

definition dnsSettings :: "AddressFamily \<Rightarrow> u16 list \<Rightarrow> u16 list \<Rightarrow> DnsInterfaceSettings" where
  "dnsSettings family servers16 domains16 =
     (let flags = or DnsInterfaceSettingsFlagNameserver DnsInterfaceSettingsFlagSearchList;
          flags = (if family = AF_INET6 then or flags DnsInterfaceSettingsFlagIPv6 else flags)
      in \<lparr>dnVersion = DnsInterfaceSettingsVersion1, dnFlags = flags, dnDomain = None,
          dnNameServer = Some servers16, dnSearchList = Some domains16, dnRegistrationEnabled = 0,
          dnRegisterAdapterName = 0, dnEnableLLMNR = 0, dnQueryAdapterName = 0,
          dnProfileNameServer = None\<rparr>)"

text \<open>The fallback for systems without the DNS entry point: registry values and a service nudge.\<close>

definition nudgeDnscache :: "'w winsys \<Rightarrow> 'w \<Rightarrow> 'w" where
  "nudgeDnscache sys w =
     (case scmConnect sys w of
        (Some _, w) \<Rightarrow> w
      | (None, w) \<Rightarrow>
          (case scmOpenService sys ''dnscache'' w of
             (Some _, w) \<Rightarrow> scmDisconnect sys w
           | (None, w) \<Rightarrow>
               scmDisconnect sys (svcClose sys ''dnscache''
                 (svcControlParamChange sys ''dnscache'' w))))"

definition setDnsRegistry ::
  "'w winsys \<Rightarrow> AddressFamily \<Rightarrow> GUID \<Rightarrow> string \<Rightarrow> string \<Rightarrow> 'w \<Rightarrow> gerr option \<times> 'w" where
  "setDnsRegistry sys family guid servers domains w =
     (let bs = [CHR 0x5C];
          svc = (if family = AF_INET then ''Tcpip'' else ''Tcpip6'');
          path = ''SYSTEM'' @ bs @ ''CurrentControlSet'' @ bs @ ''Services'' @ bs @ svc @ bs
                   @ ''Parameters'' @ bs @ ''Interfaces'' @ bs @ guidString sys guid
      in case regOpenKey sys path w of
           (Some err, w) \<Rightarrow> (Some (Wrapf ''opening interface registry key: '' err), w)
         | (None, w) \<Rightarrow>
             (case regSetStringValue sys path ''NameServer'' servers w of
                (Some err, w) \<Rightarrow>
                  (Some (Wrapf ''setting NameServer registry value: '' err), regCloseKey sys path w)
              | (None, w) \<Rightarrow>
                  (case regSetStringValue sys path ''SearchList'' domains w of
                     (Some err, w) \<Rightarrow>
                       (Some (Wrapf ''setting SearchList registry value: '' err), regCloseKey sys path w)
                   | (None, w) \<Rightarrow> (None, regCloseKey sys path (nudgeDnscache sys w)))))"

definition SetDNS ::
  "goarch \<Rightarrow> 'w iphlpapi \<Rightarrow> 'w winsys \<Rightarrow> LUID \<Rightarrow> AddressFamily \<Rightarrow> Addr list \<Rightarrow> string list
     \<Rightarrow> 'w \<Rightarrow> gerr option \<times> 'w" where
  "SetDNS arch api sys luid family servers domains w =
     (if family \<noteq> AF_INET \<and> family \<noteq> AF_INET6 then (Some ERROR_PROTOCOL_UNREACHABLE, w)
      else
        let servers' = joinWith '','' (dnsServersFor family servers);
            domains' = joinWith '','' domains in
        case UTF16PtrFromString sys servers' of
          Inl err \<Rightarrow> (Some err, w)
        | Inr servers16 \<Rightarrow>
            (case UTF16PtrFromString sys domains' of
               Inl err \<Rightarrow> (Some err, w)
             | Inr domains16 \<Rightarrow>
                 (case luidGUID api luid w of
                    Inl err \<Rightarrow> (Some err, w)
                  | Inr guid \<Rightarrow>
                      (case SetInterfaceDnsSettings arch api guid
                              (dnsSettings family servers16 domains16) w of
                         (None, w) \<Rightarrow> (None, w)
                       | (Some err, w) \<Rightarrow>
                           if \<not> errorsIs err ERROR_PROC_NOT_FOUND then (Some err, w)
                           else setDnsRegistry sys family guid servers' domains' w))))"

definition FlushDNS ::
  "goarch \<Rightarrow> 'w iphlpapi \<Rightarrow> 'w winsys \<Rightarrow> LUID \<Rightarrow> AddressFamily \<Rightarrow> 'w \<Rightarrow> gerr option \<times> 'w" where
  "FlushDNS arch api sys luid family w = SetDNS arch api sys luid family [] [] w"

section \<open>What the system documents about routes\<close>

text \<open>
  \<open>routes w\<close> is the set of route keys in the system state: a successful table query lists the
  keys of the family; a successful creation adds a key that was not there; a successful deletion
  removes its key; a failed call changes nothing; a successful entry query finds the key; the
  prefixes in the table are proper ones and the socket addresses of listed and of initialised
  rows have their 26 data bytes.
\<close>

definition documented_routes :: "'w iphlpapi \<Rightarrow> ('w \<Rightarrow> route_key set) \<Rightarrow> bool" where
  "documented_routes api routes \<longleftrightarrow>
     (\<forall>fam w t. procGetIpForwardTable2 api fam w = (0, t) \<longrightarrow>
        routeKey ` set t = {k \<in> routes w. inFamily fam k} \<and>
        (\<forall>row\<in>set t. row_wf row)) \<and>
     (\<forall>w. \<forall>k\<in>routes w. prefix_wf (fst (snd k))) \<and>
     (\<forall>row w r w'. procCreateIpForwardEntry2 api row w = (r, w') \<longrightarrow>
        (if r = 0 then routeKey row \<notin> routes w \<and> routes w' = insert (routeKey row) (routes w)
         else routes w' = routes w)) \<and>
     (\<forall>row w r w'. procDeleteIpForwardEntry2 api row w = (r, w') \<longrightarrow>
        routes w' = (if r = 0 then routes w - {routeKey row} else routes w)) \<and>
     (\<forall>row w row'. procGetIpForwardEntry2 api row w = (0, row') \<longrightarrow>
        routeKey row' = routeKey row \<and> routeKey row \<in> routes w) \<and>
     row_wf (procInitializeIpForwardEntry api zeroForwardRow)"

lemma prefix_wf_prefixOf: "sockaddr_wf (RawPrefix x) \<Longrightarrow> prefix_wf (prefixOf x)"
  by (auto simp: prefixOf_def sockaddr_wf_def Let_def)

definition memRoutes :: "memWorld \<Rightarrow> route_key set" where
  "memRoutes w = routeKey ` set (wfRoutes w)"

lemma memApi_documented_routes: "documented_routes memApi memRoutes"
  unfolding documented_routes_def
proof (intro conjI allI impI)
  fix row row' w assume "procGetIpForwardEntry2 memApi row w = (0, row')"
  then show "routeKey row' = routeKey row" "routeKey row \<in> memRoutes w"
    by (auto simp: memApi_def tabGet_def memRoutes_def find_Some_iff split: option.splits)
       (metis image_eqI nth_mem)
next
  fix w
  show "\<forall>k\<in>memRoutes w. prefix_wf (fst (snd k))"
    by (auto simp: memRoutes_def wfRoutes_def routeKey_def row_wf_def prefix_wf_prefixOf)
qed (auto simp: memApi_def memRoutes_def wfRoutes_def tabCreate_def tabDelete_def row_wf_def
      sockaddr_wf_def zeroForwardRow_def zeroSockaddr_def split: prod.splits if_splits)

lemma routeRow_key:
  assumes "documented_routes api routes" "storablePrefix d" "storableAddr h"
  obtains row where "routeRow api luid d h = Inr row" "routeKey row = (luid, d, h)"
    "\<And>m. routeKey (row\<lparr>frMetric := m\<rparr>) = (luid, d, h)" "row_wf row"
proof -
  let ?r = "(procInitializeIpForwardEntry api zeroForwardRow)\<lparr>frInterfaceLUID := luid\<rparr>"
  have wf: "sockaddr_wf (RawPrefix (frDestinationPrefix ?r))" "sockaddr_wf (frNextHop ?r)"
    using assms(1) by (simp_all add: documented_routes_def row_wf_def)
  obtain p where p: "SetPrefix d (frDestinationPrefix ?r) = (None, p)" "prefixOf p = d"
      "sockaddr_wf (RawPrefix p)"
    using px.put_eq [OF wf(1) assms(2)] px.put_get [OF wf(1) assms(2)] px.put_wf [OF wf(1) assms(2)]
    by metis
  obtain a where a: "SetAddr h (frNextHop ?r) = (None, a)" "sockAddr a = h" "sockaddr_wf a"
    using sa.put_eq [OF wf(2) assms(3)] sa.put_get [OF wf(2) assms(3)] sa.put_wf [OF wf(2) assms(3)]
    by metis
  have "routeRow api luid d h = Inr (?r\<lparr>frDestinationPrefix := p, frNextHop := a\<rparr>)"
    using p a by (simp add: routeRow_def initializeIPForwardEntry_def Let_def)
  then show thesis
    by (rule that) (use p a in \<open>simp_all add: routeKey_def row_wf_def\<close>)
qed

lemma AddRoute_routes:
  assumes "documented_routes api routes" "storablePrefix d" "storableAddr h"
    and "AddRoute api luid d h m w = (e, w')"
  shows "if e = None then (luid, d, h) \<notin> routes w \<and> routes w' = insert (luid, d, h) (routes w)
         else routes w' = routes w"
proof -
  obtain row where row: "routeRow api luid d h = Inr row"
      "\<And>m. routeKey (row\<lparr>frMetric := m\<rparr>) = (luid, d, h)"
    using routeRow_key [OF assms(1-3)] by metis
  obtain r where r: "procCreateIpForwardEntry2 api (row\<lparr>frMetric := m\<rparr>) w = (r, w')" "e = retErr r"
    using assms(4) row(1) by (auto simp: AddRoute_def createIPForwardEntry2_def split: prod.splits)
  then have "if r = 0 then routeKey (row\<lparr>frMetric := m\<rparr>) \<notin> routes w \<and>
      routes w' = insert (routeKey (row\<lparr>frMetric := m\<rparr>)) (routes w) else routes w' = routes w"
    using assms(1) unfolding documented_routes_def by blast
  then show ?thesis
    using r(2) row(2) by (cases "r = 0") auto
qed

lemma DeleteRoute_routes:
  assumes "documented_routes api routes" "storablePrefix d" "storableAddr h"
    and "DeleteRoute api luid d h w = (e, w')"
  shows "routes w' = (if e = None then routes w - {(luid, d, h)} else routes w)"
proof -
  obtain row where row: "routeRow api luid d h = Inr row" "routeKey row = (luid, d, h)"
    using routeRow_key [OF assms(1-3)] by metis
  obtain g row' where g: "procGetIpForwardEntry2 api row w = (g, row')"
    by fastforce
  show ?thesis
  proof (cases "g = 0")
    case True
    then have key: "routeKey row' = (luid, d, h)"
      using assms(1) g row(2) unfolding documented_routes_def by metis
    obtain r where r: "procDeleteIpForwardEntry2 api row' w = (r, w')" "e = retErr r"
      using assms(4) row(1) g True
      by (auto simp: DeleteRoute_def getIPForwardEntry2_def deleteIPForwardEntry2_def retErr_def
          split: prod.splits)
    then have "routes w' = (if r = 0 then routes w - {routeKey row'} else routes w)"
      using assms(1) unfolding documented_routes_def by blast
    then show ?thesis
      using r(2) key by simp
  next
    case False
    then show ?thesis
      using assms(4) row(1) g
      by (auto simp: DeleteRoute_def getIPForwardEntry2_def retErr_def split: prod.splits)
  qed
qed

lemma deleteIPForwardEntry2_routes:
  assumes "documented_routes api routes" "deleteIPForwardEntry2 api row w = (e, w')"
  shows "routes w' = (if e = None then routes w - {routeKey row} else routes w)"
proof -
  obtain r where "procDeleteIpForwardEntry2 api row w = (r, w')" "e = retErr r"
    using assms(2) by (auto simp: deleteIPForwardEntry2_def split: prod.splits)
  moreover from this have "routes w' = (if r = 0 then routes w - {routeKey row} else routes w)"
    using assms(1) unfolding documented_routes_def by blast
  ultimately show ?thesis by simp
qed

text \<open>
  The flush loop: it touches only keys of the given interface, and reports no error only when
  every row of the interface was deleted.
\<close>

lemma flushRouteRows_routes:
  assumes "documented_routes api routes" "flushRouteRows api luid rs err w = (e, w')"
  shows "routes w' \<subseteq> routes w \<and> {k \<in> routes w. fst k \<noteq> luid} \<subseteq> routes w' \<and>
    (e = None \<longrightarrow> err = None \<and>
       routes w' = routes w - routeKey ` {r \<in> set rs. frInterfaceLUID r = luid})"
  using assms(2)
proof (induction rs arbitrary: err w)
  case (Cons r rs)
  show ?case
  proof (cases "frInterfaceLUID r = luid")
    case True
    obtain e2 w2 where d: "deleteIPForwardEntry2 api r w = (e2, w2)"
      by fastforce
    note step = deleteIPForwardEntry2_routes [OF assms(1) d]
    have "flushRouteRows api luid rs (if e2 \<noteq> None then e2 else err) w2 = (e, w')"
      using Cons.prems True d by simp
    note IH = Cons.IH [OF this]
    have "fst (routeKey r) = luid"
      using True by (simp add: routeKey_def)
    moreover have "{x \<in> set (r # rs). frInterfaceLUID x = luid}
        = insert r {x \<in> set rs. frInterfaceLUID x = luid}"
      using True by auto
    ultimately show ?thesis
      using IH step by (auto split: if_splits)
  next
    case False
    then have "{x \<in> set (r # rs). frInterfaceLUID x = luid} = {x \<in> set rs. frInterfaceLUID x = luid}"
      by auto
    then show ?thesis
      using Cons.IH [of err w] Cons.prems False by simp
  qed
qed simp

lemma FlushRoutes_routes:
  assumes "documented_routes api routes" "FlushRoutes api luid fam w = (e, w')"
  shows "routes w' \<subseteq> routes w \<and> {k \<in> routes w. fst k \<noteq> luid} \<subseteq> routes w' \<and>
    (e = None \<longrightarrow> routes w' = {k \<in> routes w. \<not> (fst k = luid \<and> inFamily fam k)})"
proof -
  obtain r t where t: "procGetIpForwardTable2 api fam w = (r, t)"
    by fastforce
  show ?thesis
  proof (cases "r = 0")
    case True
    then have keys: "routeKey ` set t = {k \<in> routes w. inFamily fam k}"
      using assms(1) t unfolding documented_routes_def by blast
    have flush: "flushRouteRows api luid t None w = (e, w')"
      using assms(2) t True by (simp add: FlushRoutes_def getIPForwardTable2_def retErr_def)
    have "routeKey ` {r \<in> set t. frInterfaceLUID r = luid} = {k \<in> routeKey ` set t. fst k = luid}"
      by (auto simp: routeKey_def)
    also have "\<dots> = {k \<in> routes w. inFamily fam k \<and> fst k = luid}"
      unfolding keys by auto
    finally show ?thesis
      using flushRouteRows_routes [OF assms(1) flush] by auto
  next
    case False
    then show ?thesis
      using assms(2) t by (auto simp: FlushRoutes_def getIPForwardTable2_def retErr_def)
  qed
qed

definition storableRoute :: "RouteData \<Rightarrow> bool" where
  "storableRoute rd \<longleftrightarrow> storablePrefix (rdDestination rd) \<and> storableAddr (rdNextHop rd)"

definition routeDataKey :: "LUID \<Rightarrow> RouteData \<Rightarrow> route_key" where
  "routeDataKey luid rd = (luid, rdDestination rd, rdNextHop rd)"

lemma AddRoutes_routes:
  assumes "documented_routes api routes" "\<forall>rd\<in>set rds. storableRoute rd"
    and "AddRoutes api luid rds w = (e, w')"
  shows "\<exists>n. routes w' = routes w \<union> routeDataKey luid ` set (take n rds) \<and> (e = None \<longrightarrow> n = length rds)"
  using assms(2,3)
proof (induction rds arbitrary: w)
  case (Cons rd rds)
  obtain e1 w1 where a: "AddRoute api luid (rdDestination rd) (rdNextHop rd) (rdMetric rd) w = (e1, w1)"
    by fastforce
  have step: "if e1 = None then routeDataKey luid rd \<notin> routes w \<and>
      routes w1 = insert (routeDataKey luid rd) (routes w) else routes w1 = routes w"
    using AddRoute_routes [OF assms(1) _ _ a] Cons.prems(1)
    by (simp add: storableRoute_def routeDataKey_def)
  show ?case
  proof (cases e1)
    case None
    then have "AddRoutes api luid rds w1 = (e, w')"
      using Cons.prems(2) a by simp
    then obtain n where "routes w' = routes w1 \<union> routeDataKey luid ` set (take n rds)"
        "e = None \<longrightarrow> n = length rds"
      using Cons.IH Cons.prems(1) by auto
    then show ?thesis
      using step None by (intro exI [of _ "Suc n"]) auto
  next
    case (Some err)
    then show ?thesis
      using Cons.prems(2) a step by (intro exI [of _ 0]) auto
  qed
qed simp

section \<open>Properties\<close>

text \<open>
  Flushing the routes of an interface.  Whatever single deletions do, routes of other
  interfaces are untouched and nothing is added; when it returns no error, exactly the routes of
  that interface in the requested family are gone.
\<close>

theorem FlushRoutes_exact:
  assumes "documented_routes api routes" "FlushRoutes api luid fam w = (e, w')"
  shows "routes w' \<subseteq> routes w \<and> {k \<in> routes w. fst k \<noteq> luid} \<subseteq> routes w' \<and>
    (e = None \<longrightarrow> routes w' = {k \<in> routes w. \<not> (fst k = luid \<and> inFamily fam k)})"
  using assms by (rule FlushRoutes_routes)

theorem FlushRoutes_exact_witness:
  "\<exists>e w'. FlushRoutes memApi 7 AF_INET emptyWorld = (e, w') \<and>
     {k \<in> memRoutes emptyWorld. fst k \<noteq> 7} \<subseteq> memRoutes w'"
proof -
  obtain e w' where "FlushRoutes memApi 7 AF_INET emptyWorld = (e, w')"
    by fastforce
  then show ?thesis
    using FlushRoutes_exact [OF memApi_documented_routes] by blast
qed

text \<open>
  C30: setting the routes of an interface.  When \<^verbatim>\<open>SetRoutes\<close> returns no error, the routes of the
  interface are exactly the requested ones and every other interface keeps its routes.
\<close>

theorem SetRoutes_exact:
  assumes "documented_routes api routes" "\<forall>rd\<in>set rds. storableRoute rd"
    and "SetRoutes api luid rds w = (None, w')"
  shows "routes w' = {k \<in> routes w. fst k \<noteq> luid} \<union> routeDataKey luid ` set rds"
proof -
  obtain w1 where flush: "FlushRoutes api luid AF_UNSPEC w = (None, w1)"
      and add: "AddRoutes api luid rds w1 = (None, w')"
    using assms(3) by (auto simp: SetRoutes_def split: prod.splits option.splits)
  have "routes w1 = {k \<in> routes w. fst k \<noteq> luid}"
    using FlushRoutes_routes [OF assms(1) flush] by (auto simp: inFamily_def)
  then show ?thesis
    using AddRoutes_routes [OF assms(1,2) add] by auto
qed

theorem SetRoutes_exact_witness:
  "\<exists>w'. SetRoutes memApi 7 [\<lparr>rdDestination = PrefixFrom (Addr4 10 0 0 0) 8,
           rdNextHop = IPv4Unspecified, rdMetric = 0\<rparr>] emptyWorld = (None, w') \<and>
     memRoutes w' = {(7, PrefixFrom (Addr4 10 0 0 0) 8, IPv4Unspecified)}"
proof -
  let ?rd = "\<lparr>rdDestination = PrefixFrom (Addr4 10 0 0 0) 8, rdNextHop = IPv4Unspecified, rdMetric = 0\<rparr>"
  have ok: "storableRoute ?rd"
    by (simp add: storableRoute_def storablePrefix_def IPv4Unspecified_def)
       (simp add: PrefixFrom_def addrIsValid_def)
  obtain e w1 where f: "FlushRoutes memApi 7 AF_UNSPEC emptyWorld = (e, w1)"
    by fastforce
  have w1: "e = None" "w1 = emptyWorld"
    using f by (simp_all add: FlushRoutes_def getIPForwardTable2_def memApi_def emptyWorld_def retErr_def
        wfRoutes_def)
  obtain row where row: "routeRow memApi 7 (rdDestination ?rd) (rdNextHop ?rd) = Inr row"
      and nh: "row_wf row"
    by (rule routeRow_key [OF memApi_documented_routes])
       (use ok in \<open>auto simp: storableRoute_def\<close>)
  then have set: "SetRoutes memApi 7 [?rd] emptyWorld
      = (None, emptyWorld\<lparr>mwRoutes := [row\<lparr>frMetric := 0\<rparr>]\<rparr>)"
    using f w1 nh by (simp add: SetRoutes_def AddRoute_def createIPForwardEntry2_def memApi_def
        tabCreate_def retErr_def emptyWorld_def wfRoutes_def row_wf_def)
  have "memRoutes emptyWorld = {}"
    by (simp add: memRoutes_def emptyWorld_def wfRoutes_def)
  then show ?thesis
    using SetRoutes_exact [OF memApi_documented_routes _ set] set ok
    by (auto simp: routeDataKey_def)
qed

text \<open>The servers that belong to a family.\<close>

definition ofFamily :: "AddressFamily \<Rightarrow> Addr \<Rightarrow> bool" where
  "ofFamily family a \<longleftrightarrow> addrIs4 a \<and> family = AF_INET \<or> addrIs6 a \<and> family = AF_INET6"

lemma addrString_no_comma:
  assumes "addr_wf a" "CHR '','' \<notin> set (addrZone a)" "addrIsValid a"
  shows "CHR '','' \<notin> set (addrString a)"
proof -
  have four: "CHR '','' \<notin> set (string4 x y u v)" for x y u v
    using formatUint_digits by (fastforce simp: string4_def list_all_iff isDigit_def)
  have six: "CHR '','' \<notin> set (string6 bs z)" if "CHR '','' \<notin> set z" for bs z
    using that hexText_chars [of "CHR '',''"] by (auto simp: string6_body body6_def hexVal_def split: prod.splits)
  show ?thesis
    using assms four six by (cases a) (auto simp: addrIsValid_def split: option.splits list.splits)
qed

lemma dnsServers_read_back:
  assumes "\<forall>a\<in>set servers. addr_wf a \<and> CHR '','' \<notin> set (addrZone a)" "\<exists>a\<in>set servers. ofFamily family a"
  shows "map ParseAddr (splitOn (CHR '','') (joinWith '','' (dnsServersFor family servers))) =
    map Some (filter (ofFamily family) servers)"
proof -
  let ?as = "filter (ofFamily family) servers"
  have "addrIsValid a" if "ofFamily family a" for a
    using that by (cases a) (simp_all add: ofFamily_def addrIsValid_def)
  then have fam: "addr_wf a" "addrIsValid a" "CHR '','' \<notin> set (addrZone a)" if "a \<in> set ?as" for a
    using that assms(1) by simp_all
  have names: "dnsServersFor family servers = map addrString ?as"
    by (simp add: dnsServersFor_def ofFamily_def [abs_def])
  have "splitOn (CHR '','') (joinWith '','' (map addrString ?as)) = map addrString ?as"
    using fam addrString_no_comma assms(2) by (intro splitOn_joinWith) (auto simp: filter_empty_conv)
  then show ?thesis
    using fam ParseAddr_addrString by (simp add: names)
qed

text \<open>
  C37: the DNS settings of an interface.  For an IP family, with the DNS entry point present
  and the conversions succeeding, the system is called once, with version 1 settings whose name server list is
  the text of exactly the servers of that family, comma-separated, whose search list is that of the domains,
  whose flags announce these two and IPv6 for that family, and in which nothing else is set; the registry
  is not touched.  The servers can be read back: the text between the commas parses to the addresses of that
  family, in order, and without any the text is empty.  For any other family nothing happens and an error is returned.
\<close>

theorem SetDNS_calls:
  assumes "findSetInterfaceDnsSettings api = None"
    and "UTF16PtrFromString sys (joinWith '','' (dnsServersFor family servers)) = Inr s16"
    and "UTF16PtrFromString sys (joinWith '','' domains) = Inr d16"
    and "procConvertInterfaceLuidToGuid api luid w = (0, guid)"
    and "st = \<lparr>dnVersion = 1, dnFlags = (if family = AF_INET6 then 7 else 6), dnDomain = None,
      dnNameServer = Some s16, dnSearchList = Some d16, dnRegistrationEnabled = 0, dnRegisterAdapterName = 0,
      dnEnableLLMNR = 0, dnQueryAdapterName = 0, dnProfileNameServer = None\<rparr>"
    and "procSetInterfaceDnsSettings api guid st w = (r, w')"
    and "r \<noteq> 127"
    and "\<forall>a\<in>set servers. addr_wf a \<and> CHR '','' \<notin> set (addrZone a)"
  shows "SetDNS arch api sys luid family servers domains w =
      (if family = AF_INET \<or> family = AF_INET6 then (retErr r, w')
       else (Some ERROR_PROTOCOL_UNREACHABLE, w)) \<and>
    (if filter (ofFamily family) servers = [] then joinWith '','' (dnsServersFor family servers) = []
     else map ParseAddr (splitOn (CHR '','') (joinWith '','' (dnsServersFor family servers))) =
       map Some (filter (ofFamily family) servers))"
proof -
  have st: "dnsSettings family s16 d16 = st"
    by (simp add: assms(5) dnsSettings_def dns_flag_defs DnsInterfaceSettingsVersion1_def Let_def)
  have call: "SetInterfaceDnsSettings arch api guid (dnsSettings family s16 d16) w = (retErr r, w')"
    unfolding SetInterfaceDnsSettings_def setInterfaceDnsSettingsByPtr_def
      setInterfaceDnsSettingsByQwords_def setInterfaceDnsSettingsByDwords_def guid_qwords guid_dwords
    using assms(1,6) st by (cases arch) simp_all
  have "\<not> errorsIs (Errno r) ERROR_PROC_NOT_FOUND"
    using assms(7) by (simp add: ERROR_PROC_NOT_FOUND_def)
  then have "SetDNS arch api sys luid family servers domains w =
      (if family = AF_INET \<or> family = AF_INET6 then (retErr r, w') else (Some ERROR_PROTOCOL_UNREACHABLE, w))"
    using assms(2-4) call
    by (auto simp: SetDNS_def luidGUID_def convertInterfaceLUIDToGUID_def retErr_def Let_def)
  then show ?thesis
    using dnsServers_read_back [OF assms(8)] by (auto simp: filter_empty_conv dnsServersFor_def ofFamily_def)
qed

text \<open>A stand-in for the system libraries: byte-wise conversion, a registry that refuses.\<close>

definition plainSys :: "'w winsys" where
  "plainSys =
     \<lparr>UTF16PtrFromString = (\<lambda>s. Inr (map (\<lambda>c. of_nat (of_char c)) s @ [0])), guidString = (\<lambda>g. []),
      regOpenKey = (\<lambda>p w. (Some (Errno 2), w)), regSetStringValue = (\<lambda>p n v w. (Some (Errno 5), w)),
      regCloseKey = (\<lambda>p w. w), scmConnect = (\<lambda>w. (Some (Errno 5), w)),
      scmOpenService = (\<lambda>n w. (Some (Errno 5), w)), svcControlParamChange = (\<lambda>n w. w),
      svcClose = (\<lambda>n w. w), scmDisconnect = (\<lambda>w. w)\<rparr>"

theorem SetDNS_calls_witness:
  "(\<exists>s. SetDNS Amd64 memApi plainSys 5 AF_INET [Addr4 1 1 1 1, Addr6 (replicate 16 0) []] [] emptyWorld
     = (None, emptyWorld\<lparr>mwDns := [(5, s)]\<rparr>) \<and>
     dnNameServer s = Some (map (\<lambda>c. of_nat (of_char c)) ''1.1.1.1'' @ [0]) \<and> dnSearchList s = Some [0] \<and> dnFlags s = 6) \<and>
   map ParseAddr (splitOn (CHR '','') (joinWith '','' (dnsServersFor AF_INET
     [Addr4 1 1 1 1, Addr6 (replicate 16 0) []]))) = [Some (Addr4 1 1 1 1)]"
proof -
  let ?servers = "[Addr4 1 1 1 1, Addr6 (replicate 16 0) []]"
  have fam: "filter (ofFamily AF_INET) ?servers = [Addr4 1 1 1 1]" "AF_INET \<noteq> AF_INET6"
    by (simp_all add: ofFamily_def AF_INET_def AF_INET6_def)
  have names: "dnsServersFor AF_INET ?servers = [''1.1.1.1'']"
    by code_simp
  let ?s16 = "map (\<lambda>c. of_nat (of_char c)) ''1.1.1.1'' @ [0]" and ?d16 = "[0]"
  have conv: "findSetInterfaceDnsSettings memApi = None"
    "UTF16PtrFromString plainSys (joinWith '','' (dnsServersFor AF_INET ?servers)) = Inr ?s16"
    "UTF16PtrFromString plainSys (joinWith '','' []) = Inr ?d16"
    "procConvertInterfaceLuidToGuid memApi 5 emptyWorld = (0, 5)"
    by (simp_all add: names plainSys_def memApi_def)
  show ?thesis
    using SetDNS_calls [OF conv refl, of 0 _ Amd64] fam by (simp add: memApi_def emptyWorld_def retErr_def)
qed

end
