(* ===== verification/Win_Adapters.thy ===== *)
theory Win_Adapters
  imports Win_Luid
begin

text \<open>
  Queries about adapters: \<^verbatim>\<open>GetAdaptersAddresses\<close> and \<^verbatim>\<open>GetIfTable2Ex\<close> of \<^verbatim>\<open>src/winipcfg/winipcfg.go\<close>, the
  LUID methods \<^verbatim>\<open>Interface\<close> and \<^verbatim>\<open>DNS\<close> of \<^verbatim>\<open>src/winipcfg/luid.go\<close>, and the accessors of the adapter
  structures of \<^verbatim>\<open>src/winipcfg/types.go\<close>.  The system writes linked lists into the caller's buffer:
  a pointer is a number, nil is 0, and the buffer is a map from pointers to the structures there.
  The calls of the x/sys package are parameters.
\<close>

section \<open>Structures\<close>

type_synonym Ptr = u64

record IPAdapterAddresses =
  iaLength :: u32
  iaIfIndex :: u32
  iaNext :: Ptr
  iaAdapterName :: "u8 list"
  iaFirstUnicastAddress :: Ptr
  iaFirstAnycastAddress :: Ptr
  iaFirstMulticastAddress :: Ptr
  iaFirstDNSServerAddress :: Ptr
  iaDnsSuffix :: "u16 list option"
  iaDescription :: "u16 list option"
  iaFriendlyName :: "u16 list option"
  iaPhysicalAddress :: "u8 list"
  iaPhysicalAddressLength :: u32
  iaFlags :: u32
  iaMTU :: u32
  iaIfType :: u32
  iaOperStatus :: u32
  iaIPv6IfIndex :: u32
  iaZoneIndices :: "u32 list"
  iaFirstPrefix :: Ptr
  iaTransmitLinkSpeed :: u64
  iaReceiveLinkSpeed :: u64
  iaFirstWINSServerAddress :: Ptr
  iaFirstGatewayAddress :: Ptr
  iaIpv4Metric :: u32
  iaIpv6Metric :: u32
  iaLUID :: LUID
  iaDHCPv4Server :: Ptr
  iaCompartmentID :: u32
  iaNetworkGUID :: GUID
  iaConnectionType :: u32
  iaTunnelType :: u32
  iaDHCPv6Server :: Ptr
  iaDhcpv6ClientDUID :: "u8 list"
  iaDhcpv6ClientDUIDLength :: u32
  iaDHCPv6IAID :: u32
  iaFirstDNSSuffix :: Ptr

text \<open>The two fields of \<^verbatim>\<open>windows.IpAdapterDnsServerAdapter\<close> the code reads; \<open>'a\<close> is a \<^verbatim>\<open>windows.SocketAddress\<close>.\<close>

record 'a dnsServerNode =
  dsNext :: Ptr
  dsAddress :: 'a

record 'a adapterMem =
  amAdapters :: "Ptr \<Rightarrow> IPAdapterAddresses"
  amDns :: "Ptr \<Rightarrow> 'a dnsServerNode"

record MibIfRow2 =
  irInterfaceLUID :: LUID
  irInterfaceIndex :: u32
  irInterfaceGUID :: GUID
  irAlias :: "u16 list"
  irDescription :: "u16 list"
  irPhysicalAddressLength :: u32
  irPhysicalAddress :: "u8 list"
  irPermanentPhysicalAddress :: "u8 list"
  irMTU :: u32
  irType :: u32
  irTunnelType :: u32
  irMediaType :: u32
  irPhysicalMediumType :: u32
  irAccessType :: u32
  irDirectionType :: u32
  irInterfaceAndOperStatusFlags :: u8
  irOperStatus :: u32
  irAdminStatus :: u32
  irMediaConnectState :: u32
  irNetworkGUID :: GUID
  irConnectionType :: u32
  irTransmitLinkSpeed :: u64
  irReceiveLinkSpeed :: u64
  irInOctets :: u64
  irInUcastPkts :: u64
  irInNUcastPkts :: u64
  irInDiscards :: u64
  irInErrors :: u64
  irInUnknownProtos :: u64
  irInUcastOctets :: u64
  irInMulticastOctets :: u64
  irInBroadcastOctets :: u64
  irOutOctets :: u64
  irOutUcastPkts :: u64
  irOutNUcastPkts :: u64
  irOutDiscards :: u64
  irOutErrors :: u64
  irOutUcastOctets :: u64
  irOutMulticastOctets :: u64
  irOutBroadcastOctets :: u64
  irOutQLen :: u64

definition zeroIfRow :: MibIfRow2 where
  "zeroIfRow =
     \<lparr>irInterfaceLUID = 0, irInterfaceIndex = 0, irInterfaceGUID = 0, irAlias = replicate 257 0,
      irDescription = replicate 257 0, irPhysicalAddressLength = 0, irPhysicalAddress = replicate 32 0,
      irPermanentPhysicalAddress = replicate 32 0, irMTU = 0, irType = 0, irTunnelType = 0, irMediaType = 0,
      irPhysicalMediumType = 0, irAccessType = 0, irDirectionType = 0, irInterfaceAndOperStatusFlags = 0,
      irOperStatus = 0, irAdminStatus = 0, irMediaConnectState = 0, irNetworkGUID = 0, irConnectionType = 0,
      irTransmitLinkSpeed = 0, irReceiveLinkSpeed = 0, irInOctets = 0, irInUcastPkts = 0, irInNUcastPkts = 0,
      irInDiscards = 0, irInErrors = 0, irInUnknownProtos = 0, irInUcastOctets = 0, irInMulticastOctets = 0,
      irInBroadcastOctets = 0, irOutOctets = 0, irOutUcastPkts = 0, irOutNUcastPkts = 0, irOutDiscards = 0,
      irOutErrors = 0, irOutUcastOctets = 0, irOutMulticastOctets = 0, irOutBroadcastOctets = 0, irOutQLen = 0\<rparr>"

section \<open>The system\<close>

text \<open>
  \<open>aaGetAdaptersAddresses family flags size w\<close> is called with a buffer of \<open>size\<close> bytes and returns
  the error, the size it leaves in the size argument, and what it wrote: the pointer to the start
  of the buffer and the structures.
\<close>

record ('a, 'w) adapterApi =
  aaGetAdaptersAddresses :: "AddressFamily \<Rightarrow> u32 \<Rightarrow> u32 \<Rightarrow> 'w \<Rightarrow> gerr option \<times> u32 \<times> Ptr \<times> 'a adapterMem \<times> 'w"
  aaGetIfEntry2 :: "MibIfRow2 \<Rightarrow> 'w \<Rightarrow> u32 \<times> MibIfRow2"
  aaGetIfTable2Ex :: "u32 \<Rightarrow> 'w \<Rightarrow> u32 \<times> MibIfRow2 list"
  aaSocketIP :: "'a \<Rightarrow> u8 list option"
  aaUTF16ToString :: "u16 list \<Rightarrow> string"
  aaBytesToString :: "u8 list \<Rightarrow> string"

section \<open>Adapter list\<close>

text \<open>Growing the buffer until the list fits.  The size only grows, so the loop ends.\<close>

function adaptersLoop ::
  "('a, 'w) adapterApi \<Rightarrow> AddressFamily \<Rightarrow> u32 \<Rightarrow> u32 \<Rightarrow> 'w \<Rightarrow> (gerr + Ptr \<times> 'a adapterMem) \<times> 'w" where
  "adaptersLoop api family flags sz w =
     (case aaGetAdaptersAddresses api family flags sz w of
        (None, _, p, m, w) \<Rightarrow> (Inr (p, m), w)
      | (Some err, sz', _, _, w) \<Rightarrow>
          if err \<noteq> ERROR_BUFFER_OVERFLOW \<or> sz' \<le> sz then (Inl err, w)
          else adaptersLoop api family flags sz' w)"
  by pat_completeness auto

termination
proof (relation "measure (\<lambda>(api, family, flags, sz, w). 2 ^ 32 - unat sz)")
  fix sz sz' :: u32 and err
  assume "\<not> (err \<noteq> ERROR_BUFFER_OVERFLOW \<or> sz' \<le> sz)"
  then have "unat sz < unat sz'"
    by (simp add: not_le word_less_nat_alt)
  moreover have "unat sz' < 2 ^ 32"
    using unsigned_less [of sz'] by simp
  ultimately have "2 ^ 32 - unat sz' < (2 ^ 32 - unat sz :: nat)"
    by linarith
  then show "((api, family, flags, sz', w'), (api, family, flags, sz, w)) \<in>
      measure (\<lambda>(api, family, flags, sz, w). 2 ^ 32 - unat sz)" for api family flags w' w
    by simp
qed simp

declare adaptersLoop.simps [simp del]

text \<open>\<^verbatim>\<open>for p := first; p != nil; p = p.Next\<close>: the pointers of a linked list; \<^const>\<open>None\<close> for a cyclic one.\<close>

partial_function (option) followList :: "(Ptr \<Rightarrow> Ptr) \<Rightarrow> Ptr \<Rightarrow> Ptr list option" where
  "followList next p = (if p = 0 then Some [] else Option.bind (followList next (next p)) (\<lambda>ps. Some (p # ps)))"

definition GetAdaptersAddresses ::
  "('a, 'w) adapterApi \<Rightarrow> AddressFamily \<Rightarrow> u32 \<Rightarrow> 'w
     \<Rightarrow> ((gerr + Ptr list \<times> 'a adapterMem) \<times> 'w) option" where
  "GetAdaptersAddresses api family flags w =
     (case adaptersLoop api family flags 15000 w of
        (Inl err, w) \<Rightarrow> Some (Inl err, w)
      | (Inr (p, m), w) \<Rightarrow>
          map_option (\<lambda>result. (Inr (result, m), w)) (followList (\<lambda>p. iaNext (amAdapters m p)) p))"

definition GAAFlagDefault :: u32 where "GAAFlagDefault = 0"

text \<open>\<^verbatim>\<open>DNS\<close>: the inner loop over the servers of one adapter, and the loop over the adapters.\<close>

fun dnsOfServers :: "('a, 'w) adapterApi \<Rightarrow> 'a list \<Rightarrow> Addr list \<Rightarrow> gerr + Addr list" where
  "dnsOfServers api [] r = Inr r"
| "dnsOfServers api (a # as) r =
     (case aaSocketIP api a of
        None \<Rightarrow> Inl ERROR_INVALID_PARAMETER
      | Some ip \<Rightarrow>
          dnsOfServers api as (case AddrFromSlice ip of Some x \<Rightarrow> r @ [x] | None \<Rightarrow> r))"

fun dnsOfAdapters ::
  "('a, 'w) adapterApi \<Rightarrow> LUID \<Rightarrow> 'a adapterMem \<Rightarrow> Ptr list \<Rightarrow> Addr list \<Rightarrow> (gerr + Addr list) option" where
  "dnsOfAdapters api luid m [] r = Some (Inr r)"
| "dnsOfAdapters api luid m (p # ps) r =
     (if iaLUID (amAdapters m p) = luid then
        (case followList (\<lambda>q. dsNext (amDns m q)) (iaFirstDNSServerAddress (amAdapters m p)) of
           None \<Rightarrow> None
         | Some qs \<Rightarrow>
             (case dnsOfServers api (map (\<lambda>q. dsAddress (amDns m q)) qs) r of
                Inl err \<Rightarrow> Some (Inl err)
              | Inr r \<Rightarrow> dnsOfAdapters api luid m ps r))
      else dnsOfAdapters api luid m ps r)"

definition DNS :: "('a, 'w) adapterApi \<Rightarrow> LUID \<Rightarrow> 'w \<Rightarrow> ((gerr + Addr list) \<times> 'w) option" where
  "DNS api luid w =
     (case GetAdaptersAddresses api AF_UNSPEC GAAFlagDefault w of
        None \<Rightarrow> None
      | Some (Inl err, w) \<Rightarrow> Some (Inl err, w)
      | Some (Inr (ps, m), w) \<Rightarrow> map_option (\<lambda>r. (r, w)) (dnsOfAdapters api luid m ps []))"

section \<open>Interface rows\<close>

definition getIfEntry2 :: "('a, 'w) adapterApi \<Rightarrow> MibIfRow2 \<Rightarrow> 'w \<Rightarrow> gerr option \<times> MibIfRow2" where
  "getIfEntry2 api row w = (let (r0, row) = aaGetIfEntry2 api row w in (retErr r0, row))"

definition getIfTable2Ex :: "('a, 'w) adapterApi \<Rightarrow> u32 \<Rightarrow> 'w \<Rightarrow> gerr option \<times> MibIfRow2 list" where
  "getIfTable2Ex api level w = (let (r0, t) = aaGetIfTable2Ex api level w in (retErr r0, t))"

definition GetIfTable2Ex :: "('a, 'w) adapterApi \<Rightarrow> u32 \<Rightarrow> 'w \<Rightarrow> gerr + MibIfRow2 list" where
  "GetIfTable2Ex api level w = (case getIfTable2Ex api level w of (Some err, _) \<Rightarrow> Inl err | (None, t) \<Rightarrow> Inr t)"

definition Interface :: "('a, 'w) adapterApi \<Rightarrow> LUID \<Rightarrow> 'w \<Rightarrow> gerr + MibIfRow2" where
  "Interface api luid w =
     (case getIfEntry2 api (zeroIfRow\<lparr>irInterfaceLUID := luid\<rparr>) w of
        (Some err, _) \<Rightarrow> Inl err | (None, row) \<Rightarrow> Inr row)"

section \<open>Accessors\<close>

text \<open>\<^verbatim>\<open>a[:n]\<close> of an array panics when \<^verbatim>\<open>n\<close> is beyond its length.\<close>

definition arrayPrefix :: "'b list \<Rightarrow> u32 \<Rightarrow> 'b list goResult" where
  "arrayPrefix a n = (if unat n \<le> length a then Ret (take (unat n) a) else Panic)"

definition AdapterName :: "('a, 'w) adapterApi \<Rightarrow> IPAdapterAddresses \<Rightarrow> string" where
  "AdapterName api addr = aaBytesToString api (iaAdapterName addr)"

definition optText :: "('a, 'w) adapterApi \<Rightarrow> u16 list option \<Rightarrow> string" where
  "optText api p = (case p of None \<Rightarrow> [] | Some s \<Rightarrow> aaUTF16ToString api s)"

definition DNSSuffix :: "('a, 'w) adapterApi \<Rightarrow> IPAdapterAddresses \<Rightarrow> string" where
  "DNSSuffix api addr = optText api (iaDnsSuffix addr)"

definition adapterDescription :: "('a, 'w) adapterApi \<Rightarrow> IPAdapterAddresses \<Rightarrow> string" where
  "adapterDescription api addr = optText api (iaDescription addr)"

definition FriendlyName :: "('a, 'w) adapterApi \<Rightarrow> IPAdapterAddresses \<Rightarrow> string" where
  "FriendlyName api addr = optText api (iaFriendlyName addr)"

definition adapterPhysicalAddress :: "IPAdapterAddresses \<Rightarrow> u8 list goResult" where
  "adapterPhysicalAddress addr = arrayPrefix (iaPhysicalAddress addr) (iaPhysicalAddressLength addr)"

definition DHCPv6ClientDUID :: "IPAdapterAddresses \<Rightarrow> u8 list goResult" where
  "DHCPv6ClientDUID addr = arrayPrefix (iaDhcpv6ClientDUID addr) (iaDhcpv6ClientDUIDLength addr)"

text \<open>\<^verbatim>\<open>IPAdapterDNSSuffix.String\<close> and \<^verbatim>\<open>MibIfRow2.get\<close>.\<close>

definition dnsSuffixString :: "('a, 'w) adapterApi \<Rightarrow> u16 list \<Rightarrow> string" where
  "dnsSuffixString api str = aaUTF16ToString api str"

abbreviation ifRow2Get where "ifRow2Get \<equiv> getIfEntry2"

definition Alias :: "('a, 'w) adapterApi \<Rightarrow> MibIfRow2 \<Rightarrow> string" where
  "Alias api row = aaUTF16ToString api (irAlias row)"

definition rowDescription :: "('a, 'w) adapterApi \<Rightarrow> MibIfRow2 \<Rightarrow> string" where
  "rowDescription api row = aaUTF16ToString api (irDescription row)"

definition rowPhysicalAddress :: "MibIfRow2 \<Rightarrow> u8 list goResult" where
  "rowPhysicalAddress row = arrayPrefix (irPhysicalAddress row) (irPhysicalAddressLength row)"

definition PermanentPhysicalAddress :: "MibIfRow2 \<Rightarrow> u8 list goResult" where
  "PermanentPhysicalAddress row = arrayPrefix (irPermanentPhysicalAddress row) (irPhysicalAddressLength row)"

section \<open>Linked lists\<close>

fun chain :: "(Ptr \<Rightarrow> Ptr) \<Rightarrow> Ptr \<Rightarrow> Ptr list \<Rightarrow> bool" where
  "chain next p [] \<longleftrightarrow> p = 0"
| "chain next p (q # qs) \<longleftrightarrow> p = q \<and> q \<noteq> 0 \<and> chain next (next q) qs"

lemma followList_chain: "chain next p ps \<Longrightarrow> followList next p = Some ps"
  by (induction ps arbitrary: p) (simp_all add: followList.simps)

lemma chain_followList:
  assumes "followList nx p = Some ps"
  shows "chain nx p ps"
  by (rule followList.raw_induct [of "\<lambda>nx p ps. chain nx p ps", OF _ assms])
     (auto split: if_splits bind_splits)

lemma followList_iff: "followList next p = Some ps \<longleftrightarrow> chain next p ps"
  using followList_chain chain_followList by blast

section \<open>Properties\<close>

text \<open>
  The documented call: a buffer below the needed size \<open>n\<close> is refused with that size, one of at
  least that size is filled with a list that ends.
\<close>

definition documented_adapters :: "('a, 'w) adapterApi \<Rightarrow> AddressFamily \<Rightarrow> u32 \<Rightarrow> u32 \<Rightarrow> bool" where
  "documented_adapters api family flags n \<longleftrightarrow>
     (\<forall>sz w. case aaGetAdaptersAddresses api family flags sz w of (e, sz', p, m, w') \<Rightarrow>
        if sz < n then e = Some ERROR_BUFFER_OVERFLOW \<and> sz' = n
        else e = None \<and> (\<exists>ps. chain (\<lambda>q. iaNext (amAdapters m q)) p ps))"

lemma adaptersLoop_fits:
  assumes "documented_adapters api family flags n" "n \<le> sz"
  shows "\<exists>p m w' ps. adaptersLoop api family flags sz w = (Inr (p, m), w') \<and>
    chain (\<lambda>q. iaNext (amAdapters m q)) p ps"
  using assms unfolding documented_adapters_def
  by (subst adaptersLoop.simps) (fastforce simp: not_less split: prod.splits)

text \<open>
  C20: the adapter query succeeds.  Whatever size the system needs, the loop, which starts at
  15000 bytes, ends with the filled buffer, and the query returns exactly the linked list in it.
\<close>

theorem adapters_query_succeeds:
  assumes "documented_adapters api family flags n"
  shows "\<exists>p m w' ps. adaptersLoop api family flags 15000 w = (Inr (p, m), w') \<and>
    GetAdaptersAddresses api family flags w = Some (Inr (ps, m), w') \<and>
    chain (\<lambda>q. iaNext (amAdapters m q)) p ps"
proof -
  have fits: "\<exists>p m w' ps. adaptersLoop api family flags sz w = (Inr (p, m), w') \<and>
      chain (\<lambda>q. iaNext (amAdapters m q)) p ps" for sz
  proof (cases "n \<le> sz")
    case True
    then show ?thesis
      using adaptersLoop_fits [OF assms] by blast
  next
    case False
    obtain e sz' p m w' where call: "aaGetAdaptersAddresses api family flags sz w = (e, sz', p, m, w')"
      by (metis prod.exhaust)
    have "e = Some ERROR_BUFFER_OVERFLOW" "sz' = n"
      using assms False call by (auto simp: documented_adapters_def not_le dest!: spec [of _ sz] spec [of _ w])
    then have "adaptersLoop api family flags sz w = adaptersLoop api family flags n w'"
      using False call by (subst adaptersLoop.simps) simp
    then show ?thesis
      using adaptersLoop_fits [OF assms order_refl, of w'] by simp
  qed
  obtain p m w' ps where "adaptersLoop api family flags 15000 w = (Inr (p, m), w')"
    "chain (\<lambda>q. iaNext (amAdapters m q)) p ps"
    using fits [of 15000] by blast
  then show ?thesis
    by (simp add: GetAdaptersAddresses_def followList_chain)
qed

text \<open>The server addresses of the adapters with a LUID, in order.\<close>

definition serversOf :: "LUID \<Rightarrow> 'a adapterMem \<Rightarrow> (Ptr \<Rightarrow> Ptr list) \<Rightarrow> Ptr list \<Rightarrow> 'a list" where
  "serversOf luid m dns ps =
     concat (map (\<lambda>p. map (\<lambda>q. dsAddress (amDns m q)) (dns p)) (filter (\<lambda>p. iaLUID (amAdapters m p) = luid) ps))"

definition serverAddrs :: "('a, 'w) adapterApi \<Rightarrow> 'a list \<Rightarrow> gerr + Addr list" where
  "serverAddrs api as =
     (if \<exists>a\<in>set as. aaSocketIP api a = None then Inl ERROR_INVALID_PARAMETER
      else Inr (List.map_filter (\<lambda>a. AddrFromSlice (the (aaSocketIP api a))) as))"

lemma dnsOfServers_eq: "dnsOfServers api as r = map_sum id ((@) r) (serverAddrs api as)"
  by (induction as arbitrary: r) (auto simp: serverAddrs_def map_filter_simps split: option.splits)

lemma serverAddrs_append:
  "serverAddrs api (as @ bs) = (case serverAddrs api as of Inl e \<Rightarrow> Inl e
     | Inr r \<Rightarrow> map_sum id ((@) r) (serverAddrs api bs))"
  by (auto simp: serverAddrs_def List.map_filter_def)

lemma dnsOfAdapters_eq:
  assumes "\<forall>p\<in>set ps. iaLUID (amAdapters m p) = luid \<longrightarrow>
      chain (\<lambda>q. dsNext (amDns m q)) (iaFirstDNSServerAddress (amAdapters m p)) (dns p)"
  shows "dnsOfAdapters api luid m ps r = Some (map_sum id ((@) r) (serverAddrs api (serversOf luid m dns ps)))"
  using assms
proof (induction ps arbitrary: r)
  case Nil
  then show ?case
    by (simp add: serversOf_def serverAddrs_def map_filter_simps)
next
  case (Cons p ps)
  show ?case
  proof (cases "iaLUID (amAdapters m p) = luid")
    case False
    then show ?thesis
      using Cons by (simp add: serversOf_def)
  next
    case True
    then have "serversOf luid m dns (p # ps) = map (\<lambda>q. dsAddress (amDns m q)) (dns p) @ serversOf luid m dns ps"
      by (simp add: serversOf_def)
    then show ?thesis
      using Cons True
      by (auto simp: followList_chain dnsOfServers_eq serverAddrs_append split: sum.splits)
         (simp add: map_sum_def split: sum.splits)
  qed
qed

text \<open>
  C19: the DNS servers of an interface.  When the adapter query returns, the result is, for the
  adapters with this LUID and in list order, the addresses of all their servers; a server address
  of neither family makes the whole call fail, and nothing else does.
\<close>

theorem DNS_exact:
  assumes "GetAdaptersAddresses api AF_UNSPEC GAAFlagDefault w = Some (Inr (ps, m), w')"
    and "\<forall>p\<in>set ps. iaLUID (amAdapters m p) = luid \<longrightarrow>
      chain (\<lambda>q. dsNext (amDns m q)) (iaFirstDNSServerAddress (amAdapters m p)) (dns p)"
  shows "DNS api luid w = Some (serverAddrs api (serversOf luid m dns ps), w')"
  using assms(1) dnsOfAdapters_eq [OF assms(2), of api "[]"]
  by (cases "serverAddrs api (serversOf luid m dns ps)") (simp_all add: DNS_def)

section \<open>Concrete instances\<close>

text \<open>A system with two adapters that needs 20000 bytes to list them.\<close>

definition demoAdapter :: "Ptr \<Rightarrow> LUID \<Rightarrow> Ptr \<Rightarrow> IPAdapterAddresses" where
  "demoAdapter nx luid dns =
     \<lparr>iaLength = 448, iaIfIndex = 0, iaNext = nx, iaAdapterName = [], iaFirstUnicastAddress = 0,
      iaFirstAnycastAddress = 0, iaFirstMulticastAddress = 0, iaFirstDNSServerAddress = dns, iaDnsSuffix = None,
      iaDescription = None, iaFriendlyName = None, iaPhysicalAddress = replicate 8 0,
      iaPhysicalAddressLength = 6, iaFlags = 0, iaMTU = 1500, iaIfType = 6, iaOperStatus = 1, iaIPv6IfIndex = 0,
      iaZoneIndices = replicate 16 0, iaFirstPrefix = 0, iaTransmitLinkSpeed = 0, iaReceiveLinkSpeed = 0,
      iaFirstWINSServerAddress = 0, iaFirstGatewayAddress = 0, iaIpv4Metric = 0, iaIpv6Metric = 0, iaLUID = luid,
      iaDHCPv4Server = 0, iaCompartmentID = 0, iaNetworkGUID = 0, iaConnectionType = 0, iaTunnelType = 0,
      iaDHCPv6Server = 0, iaDhcpv6ClientDUID = replicate 130 0, iaDhcpv6ClientDUIDLength = 0, iaDHCPv6IAID = 0,
      iaFirstDNSSuffix = 0\<rparr>"

definition demoMem :: "u8 list adapterMem" where
  "demoMem = \<lparr>amAdapters = (\<lambda>p. if p = 16 then demoAdapter 512 5 32 else demoAdapter 0 6 0),
     amDns = (\<lambda>q. \<lparr>dsNext = (if q = 32 then 48 else 0), dsAddress = (if q = 32 then [1, 1, 1, 1] else [9, 9, 9, 9])\<rparr>)\<rparr>"

definition demoAdapters :: "(u8 list, unit) adapterApi" where
  "demoAdapters =
     \<lparr>aaGetAdaptersAddresses = (\<lambda>family flags sz w.
        if sz < 20000 then (Some ERROR_BUFFER_OVERFLOW, 20000, 0, demoMem, w) else (None, sz, 16, demoMem, w)),
      aaGetIfEntry2 = (\<lambda>row w. (2, row)), aaGetIfTable2Ex = (\<lambda>level w. (0, [])), aaSocketIP = Some,
      aaUTF16ToString = (\<lambda>s. []), aaBytesToString = (\<lambda>s. [])\<rparr>"

lemma demo_chain: "chain (\<lambda>q. iaNext (amAdapters demoMem q)) 16 [16, 512]"
  by (simp add: demoMem_def demoAdapter_def)

lemma demo_documented: "documented_adapters demoAdapters family flags 20000"
  by (auto simp: documented_adapters_def demoAdapters_def intro: exI [of _ "[16, 512]"] demo_chain)

theorem adapters_query_succeeds_witness:
  "\<exists>p m w' ps. adaptersLoop demoAdapters AF_UNSPEC GAAFlagDefault 15000 () = (Inr (p, m), w') \<and>
     GetAdaptersAddresses demoAdapters AF_UNSPEC GAAFlagDefault () = Some (Inr (ps, m), w')"
  using adapters_query_succeeds [OF demo_documented, of AF_UNSPEC GAAFlagDefault "()"] by blast

lemma demo_query: "GetAdaptersAddresses demoAdapters AF_UNSPEC GAAFlagDefault () = Some (Inr ([16, 512], demoMem), ())"
proof -
  have "adaptersLoop demoAdapters AF_UNSPEC GAAFlagDefault 15000 () = (Inr (16, demoMem), ())"
    by (subst adaptersLoop.simps, simp add: demoAdapters_def)
       (subst adaptersLoop.simps, simp)
  then show ?thesis
    using followList_chain [OF demo_chain] by (simp add: GetAdaptersAddresses_def)
qed

theorem DNS_exact_witness:
  "DNS demoAdapters 5 () = Some (Inr [Addr4 1 1 1 1, Addr4 9 9 9 9], ())"
  using DNS_exact [OF demo_query, of 5 "\<lambda>p. [32, 48]"]
  by (simp add: serversOf_def serverAddrs_def demoAdapters_def demoMem_def demoAdapter_def AddrFromSlice_def
      List.map_filter_def)


end
