(* ===== verification/Win_Enums.thy ===== *)
theory Win_Enums
  imports Win_Adapters
begin

text \<open>
  The enumerations of \<^verbatim>\<open>src/winipcfg/types.go\<close>.  A constant declaration of Go is data here: a block lists
  names with an optional type and expression; a name without one repeats the expression and the
  type before it, with its own position as \<^verbatim>\<open>iota\<close>; an expression without a type leaves the constant
  untyped.  The blocks are those of the source; their values are computed.
\<close>

section \<open>Constant declarations\<close>

datatype constExpr =
    CLit int | CIota | CRef string | CAdd constExpr constExpr | CShl constExpr constExpr | COr constExpr constExpr

type_synonym constSpec = "string \<times> (string option \<times> constExpr) option"
type_synonym goConst = "string \<times> string option \<times> int"

fun constRef :: "goConst list \<Rightarrow> string \<Rightarrow> string option \<times> int" where
  "constRef [] n = (None, 0)"
| "constRef ((m, c) # env) n = (if m = n then c else constRef env n)"

fun evalExpr :: "int \<Rightarrow> goConst list \<Rightarrow> constExpr \<Rightarrow> int" where
  "evalExpr i env (CLit v) = v"
| "evalExpr i env CIota = i"
| "evalExpr i env (CRef n) = snd (constRef env n)"
| "evalExpr i env (CAdd a b) = evalExpr i env a + evalExpr i env b"
| "evalExpr i env (CShl a b) = push_bit (nat (evalExpr i env b)) (evalExpr i env a)"
| "evalExpr i env (COr a b) = or (evalExpr i env a) (evalExpr i env b)"

text \<open>The type of an expression: that of a typed operand.\<close>

fun typeExpr :: "goConst list \<Rightarrow> constExpr \<Rightarrow> string option" where
  "typeExpr env (CRef n) = fst (constRef env n)"
| "typeExpr env (CAdd a b) = (case typeExpr env a of Some t \<Rightarrow> Some t | None \<Rightarrow> typeExpr env b)"
| "typeExpr env (CShl a b) = typeExpr env a"
| "typeExpr env (COr a b) = (case typeExpr env a of Some t \<Rightarrow> Some t | None \<Rightarrow> typeExpr env b)"
| "typeExpr env e = None"

fun constOf :: "int \<Rightarrow> goConst list \<Rightarrow> string \<Rightarrow> string option \<times> constExpr \<Rightarrow> goConst" where
  "constOf i env n (Some t, e) = (n, Some t, evalExpr i env e)"
| "constOf i env n (None, e) = (n, typeExpr env e, evalExpr i env e)"

fun evalConsts ::
  "int \<Rightarrow> string option \<times> constExpr \<Rightarrow> goConst list \<Rightarrow> constSpec list \<Rightarrow> goConst list" where
  "evalConsts i prev env [] = rev env"
| "evalConsts i prev env ((n, None) # specs) = evalConsts (i + 1) prev (constOf i env n prev # env) specs"
| "evalConsts i prev env ((n, Some te) # specs) = evalConsts (i + 1) te (constOf i env n te # env) specs"

definition constsOf :: "constSpec list \<Rightarrow> goConst list" where
  "constsOf specs = evalConsts 0 (None, CLit 0) [] specs"

definition constValues :: "constSpec list \<Rightarrow> int list" where
  "constValues specs = map (\<lambda>(n, t, v). v) (constsOf specs)"

definition constValue :: "constSpec list \<Rightarrow> string \<Rightarrow> int" where
  "constValue specs n = snd (constRef (constsOf specs) n)"

text \<open>A name with a literal and no type.\<close>

definition literal :: "string \<times> int \<Rightarrow> constSpec" where
  "literal = (\<lambda>(n, v). (n, Some (None, CLit v)))"

section \<open>The blocks\<close>

definition IPAAFlags_consts :: "constSpec list" where
  "IPAAFlags_consts =
    [(''IPAAFlagDdnsEnabled'', Some (Some ''IPAAFlags'', CShl (CLit 1) (CIota))),
     (''IPAAFlagRegisterAdapterSuffix'', None),
     (''IPAAFlagDhcpv4Enabled'', None),
     (''IPAAFlagReceiveOnly'', None),
     (''IPAAFlagNoMulticast'', None),
     (''IPAAFlagIpv6OtherStatefulConfig'', None),
     (''IPAAFlagNetbiosOverTcpipEnabled'', None),
     (''IPAAFlagIpv4Enabled'', None),
     (''IPAAFlagIpv6Enabled'', None),
     (''IPAAFlagIpv6ManagedAddressConfigurationSupported'', None)]"

definition IfOperStatus_consts :: "constSpec list" where
  "IfOperStatus_consts =
    [(''IfOperStatusUp'', Some (Some ''IfOperStatus'', CAdd (CIota) (CLit 1))),
     (''IfOperStatusDown'', None),
     (''IfOperStatusTesting'', None),
     (''IfOperStatusUnknown'', None),
     (''IfOperStatusDormant'', None),
     (''IfOperStatusNotPresent'', None),
     (''IfOperStatusLowerLayerDown'', None)]"

definition IfType_low_consts :: "constSpec list" where
  "IfType_low_consts =
    (''IfTypeOther'', Some (Some ''IfType'', CLit 1)) # map literal
    [(''IfTypeRegular1822'', 2), (''IfTypeHdh1822'', 3), (''IfTypeDdnX25'', 4), (''IfTypeRfc877X25'', 5),
     (''IfTypeEthernetCSMACD'', 6), (''IfTypeISO88023CSMACD'', 7), (''IfTypeISO88024Tokenbus'', 8),
     (''IfTypeISO88025Tokenring'', 9), (''IfTypeISO88026Man'', 10), (''IfTypeStarlan'', 11),
     (''IfTypeProteon10Mbit'', 12), (''IfTypeProteon80Mbit'', 13), (''IfTypeHyperchannel'', 14),
     (''IfTypeFddi'', 15), (''IfTypeLapB'', 16), (''IfTypeSdlc'', 17), (''IfTypeDs1'', 18),
     (''IfTypeE1'', 19), (''IfTypeBasicISDN'', 20), (''IfTypePrimaryISDN'', 21),
     (''IfTypePropPoint2PointSerial'', 22), (''IfTypePPP'', 23), (''IfTypeSoftwareLoopback'', 24),
     (''IfTypeEon'', 25), (''IfTypeEthernet3Mbit'', 26), (''IfTypeNsip'', 27), (''IfTypeSlip'', 28),
     (''IfTypeUltra'', 29), (''IfTypeDs3'', 30), (''IfTypeSip'', 31), (''IfTypeFramerelay'', 32),
     (''IfTypeRs232'', 33), (''IfTypePara'', 34), (''IfTypeArcnet'', 35), (''IfTypeArcnetPlus'', 36),
     (''IfTypeAtm'', 37), (''IfTypeMioX25'', 38), (''IfTypeSonet'', 39), (''IfTypeX25Ple'', 40),
     (''IfTypeIso88022LLC'', 41), (''IfTypeLocaltalk'', 42), (''IfTypeSmdsDxi'', 43),
     (''IfTypeFramerelayService'', 44), (''IfTypeV35'', 45), (''IfTypeHssi'', 46), (''IfTypeHippi'', 47),
     (''IfTypeModem'', 48), (''IfTypeAal5'', 49), (''IfTypeSonetPath'', 50), (''IfTypeSonetVt'', 51),
     (''IfTypeSmdsIcip'', 52), (''IfTypePropVirtual'', 53), (''IfTypePropMultiplexor'', 54),
     (''IfTypeIEEE80212'', 55), (''IfTypeFibrechannel'', 56), (''IfTypeHippiinterface'', 57),
     (''IfTypeFramerelayInterconnect'', 58), (''IfTypeAflane8023'', 59), (''IfTypeAflane8025'', 60),
     (''IfTypeCctemul'', 61), (''IfTypeFastether'', 62), (''IfTypeISDN'', 63), (''IfTypeV11'', 64),
     (''IfTypeV36'', 65), (''IfTypeG703_64k'', 66), (''IfTypeG703_2mb'', 67), (''IfTypeQllc'', 68),
     (''IfTypeFastetherFX'', 69), (''IfTypeChannel'', 70), (''IfTypeIEEE80211'', 71),
     (''IfTypeIBM370parchan'', 72), (''IfTypeEscon'', 73), (''IfTypeDlsw'', 74), (''IfTypeISDNS'', 75),
     (''IfTypeISDNU'', 76), (''IfTypeLapD'', 77), (''IfTypeIpswitch'', 78), (''IfTypeRsrb'', 79),
     (''IfTypeAtmLogical'', 80), (''IfTypeDs0'', 81), (''IfTypeDs0Bundle'', 82), (''IfTypeBsc'', 83),
     (''IfTypeAsync'', 84), (''IfTypeCnr'', 85), (''IfTypeIso88025rDtr'', 86), (''IfTypeEplrs'', 87),
     (''IfTypeArap'', 88), (''IfTypePropCnls'', 89), (''IfTypeHostpad'', 90), (''IfTypeTermpad'', 91),
     (''IfTypeFramerelayMpi'', 92), (''IfTypeX213'', 93), (''IfTypeAdsl'', 94), (''IfTypeRadsl'', 95),
     (''IfTypeSdsl'', 96), (''IfTypeVdsl'', 97), (''IfTypeIso88025Crfprint'', 98), (''IfTypeMyrinet'', 99),
     (''IfTypeVoiceEm'', 100), (''IfTypeVoiceFxo'', 101), (''IfTypeVoiceFxs'', 102),
     (''IfTypeVoiceEncap'', 103), (''IfTypeVoiceOverip'', 104), (''IfTypeAtmDxi'', 105),
     (''IfTypeAtmFuni'', 106), (''IfTypeAtmIma'', 107), (''IfTypePPPmultilinkbundle'', 108),
     (''IfTypeIpoverCdlc'', 109), (''IfTypeIpoverClaw'', 110), (''IfTypeStacktostack'', 111),
     (''IfTypeVirtualipaddress'', 112), (''IfTypeMpc'', 113), (''IfTypeIpoverAtm'', 114),
     (''IfTypeIso88025Fiber'', 115), (''IfTypeTdlc'', 116), (''IfTypeGigabitethernet'', 117),
     (''IfTypeHdlc'', 118), (''IfTypeLapF'', 119), (''IfTypeV37'', 120), (''IfTypeX25Mlp'', 121),
     (''IfTypeX25Huntgroup'', 122), (''IfTypeTransphdlc'', 123), (''IfTypeInterleave'', 124),
     (''IfTypeFast'', 125), (''IfTypeIP'', 126), (''IfTypeDocscableMaclayer'', 127),
     (''IfTypeDocscableDownstream'', 128), (''IfTypeDocscableUpstream'', 129),
     (''IfTypeA12mppswitch'', 130), (''IfTypeTunnel'', 131), (''IfTypeCoffee'', 132), (''IfTypeCes'', 133),
     (''IfTypeAtmSubinterface'', 134), (''IfTypeL2Vlan'', 135), (''IfTypeL3Ipvlan'', 136),
     (''IfTypeL3Ipxvlan'', 137), (''IfTypeDigitalpowerline'', 138), (''IfTypeMediamailoverip'', 139),
     (''IfTypeDtm'', 140), (''IfTypeDcn'', 141), (''IfTypeIpforward'', 142), (''IfTypeMsdsl'', 143),
     (''IfTypeIEEE1394'', 144), (''IfTypeIfGsn'', 145), (''IfTypeDvbrccMaclayer'', 146)]"

definition IfType_high_consts :: "constSpec list" where
  "IfType_high_consts = map literal
    [(''IfTypeDvbrccDownstream'', 147), (''IfTypeDvbrccUpstream'', 148), (''IfTypeAtmVirtual'', 149),
     (''IfTypeMplsTunnel'', 150), (''IfTypeSrp'', 151), (''IfTypeVoiceoveratm'', 152),
     (''IfTypeVoiceoverframerelay'', 153), (''IfTypeIdsl'', 154), (''IfTypeCompositelink'', 155),
     (''IfTypeSs7Siglink'', 156), (''IfTypePropWirelessP2P'', 157), (''IfTypeFrForward'', 158),
     (''IfTypeRfc1483'', 159), (''IfTypeUsb'', 160), (''IfTypeIEEE8023adLag'', 161),
     (''IfTypeBgpPolicyAccounting'', 162), (''IfTypeFrf16MfrBundle'', 163),
     (''IfTypeH323Gatekeeper'', 164), (''IfTypeH323Proxy'', 165), (''IfTypeMpls'', 166),
     (''IfTypeMfSiglink'', 167), (''IfTypeHdsl2'', 168), (''IfTypeShdsl'', 169), (''IfTypeDs1Fdl'', 170),
     (''IfTypePos'', 171), (''IfTypeDvbAsiIn'', 172), (''IfTypeDvbAsiOut'', 173), (''IfTypePlc'', 174),
     (''IfTypeNfas'', 175), (''IfTypeTr008'', 176), (''IfTypeGr303Rdt'', 177), (''IfTypeGr303Idt'', 178),
     (''IfTypeIsup'', 179), (''IfTypePropDocsWirelessMaclayer'', 180),
     (''IfTypePropDocsWirelessDownstream'', 181), (''IfTypePropDocsWirelessUpstream'', 182),
     (''IfTypeHiperlan2'', 183), (''IfTypePropBwaP2MP'', 184), (''IfTypeSonetOverheadChannel'', 185),
     (''IfTypeDigitalWrapperOverheadChannel'', 186), (''IfTypeAal2'', 187), (''IfTypeRadioMac'', 188),
     (''IfTypeAtmRadio'', 189), (''IfTypeImt'', 190), (''IfTypeMvl'', 191), (''IfTypeReachDsl'', 192),
     (''IfTypeFrDlciEndpt'', 193), (''IfTypeAtmVciEndpt'', 194), (''IfTypeOpticalChannel'', 195),
     (''IfTypeOpticalTransport'', 196), (''IfTypeIEEE80216Wman'', 237), (''IfTypeWwanpp'', 243),
     (''IfTypeWwanpp2'', 244), (''IfTypeIEEE802154'', 259), (''IfTypeXboxWireless'', 281)]"

definition IfType_consts :: "constSpec list" where
  "IfType_consts = IfType_low_consts @ IfType_high_consts"

definition MibIfEntryLevel_consts :: "constSpec list" where
  "MibIfEntryLevel_consts =
    [(''MibIfEntryNormal'', Some (Some ''MibIfEntryLevel'', CLit 0)),
     (''MibIfEntryNormalWithoutStatistics'', Some (None, CLit 2))]"

definition NdisMedium_consts :: "constSpec list" where
  "NdisMedium_consts =
    [(''NdisMedium802_3'', Some (Some ''NdisMedium'', CIota)),
     (''NdisMedium802_5'', None),
     (''NdisMediumFddi'', None),
     (''NdisMediumWan'', None),
     (''NdisMediumLocalTalk'', None),
     (''NdisMediumDix'', None),
     (''NdisMediumArcnetRaw'', None),
     (''NdisMediumArcnet878_2'', None),
     (''NdisMediumAtm'', None),
     (''NdisMediumWirelessWan'', None),
     (''NdisMediumIrda'', None),
     (''NdisMediumBpc'', None),
     (''NdisMediumCoWan'', None),
     (''NdisMedium1394'', None),
     (''NdisMediumInfiniBand'', None),
     (''NdisMediumTunnel'', None),
     (''NdisMediumNative802_11'', None),
     (''NdisMediumLoopback'', None),
     (''NdisMediumWiMAX'', None),
     (''NdisMediumIP'', None),
     (''NdisMediumMax'', None)]"

definition NdisPhysicalMedium_consts :: "constSpec list" where
  "NdisPhysicalMedium_consts =
    [(''NdisPhysicalMediumUnspecified'', Some (Some ''NdisPhysicalMedium'', CIota)),
     (''NdisPhysicalMediumWirelessLan'', None),
     (''NdisPhysicalMediumCableModem'', None),
     (''NdisPhysicalMediumPhoneLine'', None),
     (''NdisPhysicalMediumPowerLine'', None),
     (''NdisPhysicalMediumDSL'', None),
     (''NdisPhysicalMediumFibreChannel'', None),
     (''NdisPhysicalMedium1394'', None),
     (''NdisPhysicalMediumWirelessWan'', None),
     (''NdisPhysicalMediumNative802_11'', None),
     (''NdisPhysicalMediumBluetooth'', None),
     (''NdisPhysicalMediumInfiniband'', None),
     (''NdisPhysicalMediumWiMax'', None),
     (''NdisPhysicalMediumUWB'', None),
     (''NdisPhysicalMedium802_3'', None),
     (''NdisPhysicalMedium802_5'', None),
     (''NdisPhysicalMediumIrda'', None),
     (''NdisPhysicalMediumWiredWAN'', None),
     (''NdisPhysicalMediumWiredCoWan'', None),
     (''NdisPhysicalMediumOther'', None),
     (''NdisPhysicalMediumNative802_15_4'', None),
     (''NdisPhysicalMediumMax'', None)]"

definition NetIfAccessType_consts :: "constSpec list" where
  "NetIfAccessType_consts =
    [(''NetIfAccessLoopback'', Some (Some ''NetIfAccessType'', CAdd (CIota) (CLit 1))),
     (''NetIfAccessBroadcast'', None),
     (''NetIfAccessPointToPoint'', None),
     (''NetIfAccessPointToMultiPoint'', None),
     (''NetIfAccessMax'', None)]"

definition NetIfAdminStatus_consts :: "constSpec list" where
  "NetIfAdminStatus_consts =
    [(''NetIfAdminStatusUp'', Some (Some ''NetIfAdminStatus'', CAdd (CIota) (CLit 1))),
     (''NetIfAdminStatusDown'', None),
     (''NetIfAdminStatusTesting'', None)]"

definition NetIfConnectionType_consts :: "constSpec list" where
  "NetIfConnectionType_consts =
    [(''NetIfConnectionDedicated'', Some (Some ''NetIfConnectionType'', CAdd (CIota) (CLit 1))),
     (''NetIfConnectionPassive'', None),
     (''NetIfConnectionDemand'', None),
     (''NetIfConnectionMaximum'', None)]"

definition NetIfDirectionType_consts :: "constSpec list" where
  "NetIfDirectionType_consts =
    [(''NetIfDirectionSendReceive'', Some (Some ''NetIfDirectionType'', CIota)),
     (''NetIfDirectionSendOnly'', None),
     (''NetIfDirectionReceiveOnly'', None),
     (''NetIfDirectionMaximum'', None)]"

definition NetIfMediaConnectState_consts :: "constSpec list" where
  "NetIfMediaConnectState_consts =
    [(''MediaConnectStateUnknown'', Some (Some ''NetIfMediaConnectState'', CIota)),
     (''MediaConnectStateConnected'', None),
     (''MediaConnectStateDisconnected'', None)]"

definition DadState_consts :: "constSpec list" where
  "DadState_consts =
    [(''DadStateInvalid'', Some (Some ''DadState'', CIota)),
     (''DadStateTentative'', None),
     (''DadStateDuplicate'', None),
     (''DadStateDeprecated'', None),
     (''DadStatePreferred'', None)]"

definition PrefixOrigin_consts :: "constSpec list" where
  "PrefixOrigin_consts =
    [(''PrefixOriginOther'', Some (Some ''PrefixOrigin'', CIota)),
     (''PrefixOriginManual'', None),
     (''PrefixOriginWellKnown'', None),
     (''PrefixOriginDHCP'', None),
     (''PrefixOriginRouterAdvertisement'', None),
     (''PrefixOriginUnchanged'', Some (None, CShl (CLit 1) (CLit 4)))]"

definition LinkLocalAddressBehavior_consts :: "constSpec list" where
  "LinkLocalAddressBehavior_consts =
    [(''LinkLocalAddressAlwaysOff'', Some (Some ''LinkLocalAddressBehavior'', CIota)),
     (''LinkLocalAddressDelayed'', None),
     (''LinkLocalAddressAlwaysOn'', None),
     (''LinkLocalAddressUnchanged'', Some (None, CLit (-1)))]"

definition OffloadRod_consts :: "constSpec list" where
  "OffloadRod_consts =
    [(''ChecksumSupported'', Some (Some ''OffloadRod'', CShl (CLit 1) (CIota))),
     (''OptionsSupported'', None),
     (''DatagramChecksumSupported'', None),
     (''StreamChecksumSupported'', None),
     (''StreamOptionsSupported'', None),
     (''FastPathCompatible'', None),
     (''LargeSendOffloadSupported'', None),
     (''GiantSendOffloadSupported'', None)]"

definition RouteOrigin_consts :: "constSpec list" where
  "RouteOrigin_consts =
    [(''RouteOriginManual'', Some (Some ''RouteOrigin'', CIota)),
     (''RouteOriginWellKnown'', None),
     (''RouteOriginDHCP'', None),
     (''RouteOriginRouterAdvertisement'', None),
     (''RouteOrigin6to4'', None)]"

definition RouteProtocol_consts :: "constSpec list" where
  "RouteProtocol_consts =
    [(''RouteProtocolOther'', Some (Some ''RouteProtocol'', CAdd (CIota) (CLit 1))),
     (''RouteProtocolLocal'', None),
     (''RouteProtocolNetMgmt'', None),
     (''RouteProtocolIcmp'', None),
     (''RouteProtocolEgp'', None),
     (''RouteProtocolGgp'', None),
     (''RouteProtocolHello'', None),
     (''RouteProtocolRip'', None),
     (''RouteProtocolIsIs'', None),
     (''RouteProtocolEsIs'', None),
     (''RouteProtocolCisco'', None),
     (''RouteProtocolBbn'', None),
     (''RouteProtocolOspf'', None),
     (''RouteProtocolBgp'', None),
     (''RouteProtocolIdpr'', None),
     (''RouteProtocolEigrp'', None),
     (''RouteProtocolDvmrp'', None),
     (''RouteProtocolRpl'', None),
     (''RouteProtocolDHCP'', None),
     (''RouteProtocolNTAutostatic'', Some (None, CLit 10002)),
     (''RouteProtocolNTStatic'', Some (None, CLit 10006)),
     (''RouteProtocolNTStaticNonDOD'', Some (None, CLit 10007))]"

definition RouterDiscoveryBehavior_consts :: "constSpec list" where
  "RouterDiscoveryBehavior_consts =
    [(''RouterDiscoveryDisabled'', Some (Some ''RouterDiscoveryBehavior'', CIota)),
     (''RouterDiscoveryEnabled'', None),
     (''RouterDiscoveryDHCP'', None),
     (''RouterDiscoveryUnchanged'', Some (None, CLit (-1)))]"

definition SuffixOrigin_consts :: "constSpec list" where
  "SuffixOrigin_consts =
    [(''SuffixOriginOther'', Some (Some ''SuffixOrigin'', CIota)),
     (''SuffixOriginManual'', None),
     (''SuffixOriginWellKnown'', None),
     (''SuffixOriginDHCP'', None),
     (''SuffixOriginLinkLayerAddress'', None),
     (''SuffixOriginRandom'', None),
     (''SuffixOriginUnchanged'', Some (None, CShl (CLit 1) (CLit 4)))]"

definition MibNotificationType_consts :: "constSpec list" where
  "MibNotificationType_consts =
    [(''MibParameterNotification'', Some (Some ''MibNotificationType'', CIota)),
     (''MibAddInstance'', None),
     (''MibDeleteInstance'', None),
     (''MibInitialNotification'', None)]"

definition TunnelType_consts :: "constSpec list" where
  "TunnelType_consts =
    [(''TunnelTypeNone'', Some (Some ''TunnelType'', CLit 0)),
     (''TunnelTypeOther'', Some (None, CLit 1)),
     (''TunnelTypeDirect'', Some (None, CLit 2)),
     (''TunnelType6to4'', Some (None, CLit 11)),
     (''TunnelTypeIsatap'', Some (None, CLit 13)),
     (''TunnelTypeTeredo'', Some (None, CLit 14)),
     (''TunnelTypeIPHTTPS'', Some (None, CLit 15))]"

definition InterfaceAndOperStatusFlags_consts :: "constSpec list" where
  "InterfaceAndOperStatusFlags_consts =
    [(''IAOSFHardwareInterface'', Some (Some ''InterfaceAndOperStatusFlags'', CShl (CLit 1) (CIota))),
     (''IAOSFFilterInterface'', None),
     (''IAOSFConnectorPresent'', None),
     (''IAOSFNotAuthenticated'', None),
     (''IAOSFNotMediaConnected'', None),
     (''IAOSFPaused'', None),
     (''IAOSFLowPower'', None),
     (''IAOSFEndPointInterface'', None)]"

definition GAAFlags_consts :: "constSpec list" where
  "GAAFlags_consts =
    [(''GAAFlagSkipUnicast'', Some (Some ''GAAFlags'', CShl (CLit 1) (CIota))),
     (''GAAFlagSkipAnycast'', None),
     (''GAAFlagSkipMulticast'', None),
     (''GAAFlagSkipDNSServer'', None),
     (''GAAFlagIncludePrefix'', None),
     (''GAAFlagSkipFriendlyName'', None),
     (''GAAFlagIncludeWinsInfo'', None),
     (''GAAFlagIncludeGateways'', None),
     (''GAAFlagIncludeAllInterfaces'', None),
     (''GAAFlagIncludeAllCompartments'', None),
     (''GAAFlagIncludeTunnelBindingOrder'', None),
     (''GAAFlagSkipDNSInfo'', None),
     (''GAAFlagDefault'', Some (Some ''GAAFlags'', CLit 0)),
     (''GAAFlagSkipAll'', Some (None, COr (COr (COr (COr (COr (CRef ''GAAFlagSkipUnicast'') (CRef ''GAAFlagSkipAnycast'')) (CRef ''GAAFlagSkipMulticast'')) (CRef ''GAAFlagSkipDNSServer'')) (CRef ''GAAFlagSkipFriendlyName'')) (CRef ''GAAFlagSkipDNSInfo''))),
     (''GAAFlagIncludeAll'', Some (None, COr (COr (COr (COr (COr (CRef ''GAAFlagIncludePrefix'') (CRef ''GAAFlagIncludeWinsInfo'')) (CRef ''GAAFlagIncludeGateways'')) (CRef ''GAAFlagIncludeAllInterfaces'')) (CRef ''GAAFlagIncludeAllCompartments'')) (CRef ''GAAFlagIncludeTunnelBindingOrder'')))]"

definition ScopeLevel_consts :: "constSpec list" where
  "ScopeLevel_consts =
    [(''ScopeLevelInterface'', Some (Some ''ScopeLevel'', CLit 1)),
     (''ScopeLevelLink'', Some (None, CLit 2)),
     (''ScopeLevelSubnet'', Some (None, CLit 3)),
     (''ScopeLevelAdmin'', Some (None, CLit 4)),
     (''ScopeLevelSite'', Some (None, CLit 5)),
     (''ScopeLevelOrganization'', Some (None, CLit 8)),
     (''ScopeLevelGlobal'', Some (None, CLit 14)),
     (''ScopeLevelCount'', Some (None, CLit 16))]"

section \<open>Properties\<close>

text \<open>The last block of the file, without types: the versions and the flags of the DNS settings.\<close>

definition DnsInterfaceSettingsVersion_consts :: "constSpec list" where
  "DnsInterfaceSettingsVersion_consts = map literal
    [(''DnsInterfaceSettingsVersion1'', 1), (''DnsInterfaceSettingsVersion2'', 2), (''DnsInterfaceSettingsVersion3'', 3)]"

definition DnsInterfaceSettingsFlag_consts :: "constSpec list" where
  "DnsInterfaceSettingsFlag_consts = map literal
    [(''DnsInterfaceSettingsFlagIPv6'', 0x0001), (''DnsInterfaceSettingsFlagNameserver'', 0x0002),
     (''DnsInterfaceSettingsFlagSearchList'', 0x0004), (''DnsInterfaceSettingsFlagRegistrationEnabled'', 0x0008),
     (''DnsInterfaceSettingsFlagRegisterAdapterName'', 0x0010), (''DnsInterfaceSettingsFlagDomain'', 0x0020),
     (''DnsInterfaceSettingsFlagHostname'', 0x0040), (''DnsInterfaceSettingsFlagEnableLLMNR'', 0x0080),
     (''DnsInterfaceSettingsFlagQueryAdapterName'', 0x0100), (''DnsInterfaceSettingsFlagProfileNameserver'', 0x0200),
     (''DnsInterfaceSettingsFlagDisableUnconstrainedQueries'', 0x0400),
     (''DnsInterfaceSettingsFlagSupplementalSearchList'', 0x0800), (''DnsInterfaceSettingsFlagDOH'', 0x1000),
     (''DnsInterfaceSettingsFlagDOHProfile'', 0x2000)]"

text \<open>The blocks with the range of their base type, for the DNS settings that of the fields they are stored in.\<close>

definition enumerations :: "(int \<times> int \<times> constSpec list) list" where
  "enumerations =
    [(0, 4294967295, IPAAFlags_consts),
     (0, 4294967295, IfOperStatus_consts),
     (0, 4294967295, IfType_consts),
     (0, 4294967295, MibIfEntryLevel_consts),
     (0, 4294967295, NdisMedium_consts),
     (0, 4294967295, NdisPhysicalMedium_consts),
     (0, 4294967295, NetIfAccessType_consts),
     (0, 4294967295, NetIfAdminStatus_consts),
     (0, 4294967295, NetIfConnectionType_consts),
     (0, 4294967295, NetIfDirectionType_consts),
     (0, 4294967295, NetIfMediaConnectState_consts),
     (0, 4294967295, DadState_consts),
     (0, 4294967295, PrefixOrigin_consts),
     (-2147483648, 2147483647, LinkLocalAddressBehavior_consts),
     (0, 255, OffloadRod_consts),
     (0, 4294967295, RouteOrigin_consts),
     (0, 4294967295, RouteProtocol_consts),
     (-2147483648, 2147483647, RouterDiscoveryBehavior_consts),
     (0, 4294967295, SuffixOrigin_consts),
     (0, 4294967295, MibNotificationType_consts),
     (0, 4294967295, TunnelType_consts),
     (0, 255, InterfaceAndOperStatusFlags_consts),
     (0, 4294967295, GAAFlags_consts),
     (0, 4294967295, ScopeLevel_consts),
     (0, 4294967295, DnsInterfaceSettingsVersion_consts),
     (0, 18446744073709551615, DnsInterfaceSettingsFlag_consts)]"

definition enumOk :: "int \<times> int \<times> constSpec list \<Rightarrow> bool" where
  "enumOk = (\<lambda>(lo, hi, cs). distinct (constValues cs) \<and> list_all (\<lambda>v. lo \<le> v \<and> v \<le> hi) (constValues cs))"

lemma evalConsts_literals:
  "evalConsts i prev env (map literal nvs) = rev env @ map (\<lambda>(n, v). (n, None, v)) nvs"
proof (induction nvs arbitrary: i prev env)
  case (Cons nv nvs)
  then show ?case
    by (cases nv) (simp add: literal_def)
qed simp

lemma constValues_literals:
  "constValues ((m, Some (Some t, CLit k)) # map literal nvs) = k # map snd nvs"
proof -
  have "constsOf ((m, Some (Some t, CLit k)) # map literal nvs) = (m, Some t, k) # map (\<lambda>(n, v). (n, None, v)) nvs"
    using evalConsts_literals [of 1 "(Some t, CLit k)" "[(m, Some t, k)]" nvs] by (simp add: constsOf_def)
  then show ?thesis
    by (simp add: constValues_def comp_def split_def)
qed

text \<open>Increasing values within the bounds at both ends.\<close>

lemma enumOk_increasing:
  assumes "successively (<) (constValues cs)" "constValues cs = k # ks" "lo \<le> k" "last (k # ks) \<le> hi"
  shows "enumOk (lo, hi, cs)"
proof -
  have s: "sorted_wrt (<) (k # ks)"
    using assms(1,2) by (simp add: successively_conv_sorted_wrt transp_on_less)
  then have "x \<le> last (k # ks)" if "x \<in> set (k # ks)" for x
    using that by (cases ks rule: rev_cases) (auto simp: sorted_wrt_append)
  moreover have "distinct (k # ks)"
    using s by (induction "k # ks" arbitrary: k ks) (auto simp: strict_sorted_iff)
  moreover have "k \<le> x" if "x \<in> set (k # ks)" for x
    using s that by auto
  ultimately have "distinct (k # ks)" "\<forall>x\<in>set (k # ks). lo \<le> x \<and> x \<le> hi"
    using assms(3,4) by (blast intro: order_trans)+
  then show ?thesis
    using assms(2) by (simp add: enumOk_def list_all_iff)
qed

lemmas IfType_defs = IfType_consts_def IfType_low_consts_def IfType_high_consts_def

lemma IfType_ok: "enumOk (0, 4294967295, IfType_consts)"
proof (rule enumOk_increasing)
  show "successively (<) (constValues IfType_consts)"
    unfolding IfType_defs append_Cons map_append [symmetric] constValues_literals by simp
  show "constValues IfType_consts = 1 # tl (constValues IfType_consts)"
    unfolding IfType_defs append_Cons map_append [symmetric] constValues_literals by simp
  show "last (1 # tl (constValues IfType_consts)) \<le> 4294967295"
    unfolding IfType_defs append_Cons map_append [symmetric] constValues_literals by simp
qed simp

lemmas enum_eval = enumOk_def constValues_def constsOf_def

lemma enums_ok:
  "enumOk (0, 4294967295, IPAAFlags_consts)"
  "enumOk (0, 4294967295, IfOperStatus_consts)"
  "enumOk (0, 4294967295, MibIfEntryLevel_consts)"
  "enumOk (0, 4294967295, NdisMedium_consts)"
  "enumOk (0, 4294967295, NdisPhysicalMedium_consts)"
  "enumOk (0, 4294967295, NetIfAccessType_consts)"
  "enumOk (0, 4294967295, NetIfAdminStatus_consts)"
  "enumOk (0, 4294967295, NetIfConnectionType_consts)"
  "enumOk (0, 4294967295, NetIfDirectionType_consts)"
  "enumOk (0, 4294967295, NetIfMediaConnectState_consts)"
  "enumOk (0, 4294967295, DadState_consts)"
  "enumOk (0, 4294967295, PrefixOrigin_consts)"
  "enumOk (-2147483648, 2147483647, LinkLocalAddressBehavior_consts)"
  "enumOk (0, 255, OffloadRod_consts)"
  "enumOk (0, 4294967295, RouteOrigin_consts)"
  "enumOk (0, 4294967295, RouteProtocol_consts)"
  "enumOk (-2147483648, 2147483647, RouterDiscoveryBehavior_consts)"
  "enumOk (0, 4294967295, SuffixOrigin_consts)"
  "enumOk (0, 4294967295, MibNotificationType_consts)"
  "enumOk (0, 4294967295, TunnelType_consts)"
  "enumOk (0, 255, InterfaceAndOperStatusFlags_consts)"
  "enumOk (0, 4294967295, GAAFlags_consts)"
  "enumOk (0, 4294967295, ScopeLevel_consts)"
  "enumOk (0, 4294967295, DnsInterfaceSettingsVersion_consts)"
  "enumOk (0, 18446744073709551615, DnsInterfaceSettingsFlag_consts)"
  by (simp_all add: enum_eval IPAAFlags_consts_def IfOperStatus_consts_def MibIfEntryLevel_consts_def NdisMedium_consts_def
      NdisPhysicalMedium_consts_def NetIfAccessType_consts_def NetIfAdminStatus_consts_def NetIfConnectionType_consts_def
      NetIfDirectionType_consts_def NetIfMediaConnectState_consts_def DadState_consts_def PrefixOrigin_consts_def
      LinkLocalAddressBehavior_consts_def OffloadRod_consts_def RouteOrigin_consts_def RouteProtocol_consts_def
      RouterDiscoveryBehavior_consts_def SuffixOrigin_consts_def MibNotificationType_consts_def TunnelType_consts_def
      InterfaceAndOperStatusFlags_consts_def GAAFlags_consts_def ScopeLevel_consts_def
      DnsInterfaceSettingsVersion_consts_def DnsInterfaceSettingsFlag_consts_def literal_def)

text \<open>
  The enumerations handed to and read from the system are well formed: within each, no two names
  have the same value, and every value fits the integer type the enumeration is declared with.
\<close>

lemma enumerations_wellformed: "list_all enumOk enumerations"
  by (simp add: enumerations_def enums_ok IfType_ok)

text \<open>
  The flags that skip and the flags that include partition the twelve adapter query flags, and the
  query made by \<^verbatim>\<open>DNS\<close> sets none of them.
\<close>

lemma adapter_flags_partition:
  "and (constValue GAAFlags_consts ''GAAFlagSkipAll'') (constValue GAAFlags_consts ''GAAFlagIncludeAll'') = 0"
  "or (constValue GAAFlags_consts ''GAAFlagSkipAll'') (constValue GAAFlags_consts ''GAAFlagIncludeAll'') = 2 ^ 12 - 1"
  "uint GAAFlagDefault = constValue GAAFlags_consts ''GAAFlagDefault''"
  by (simp_all add: constValue_def constsOf_def GAAFlags_consts_def GAAFlagDefault_def)

text \<open>Each flag of the DNS settings is a bit of its own, and those \<^verbatim>\<open>SetDNS\<close> uses are the declared ones.\<close>

lemma dns_flag_bits:
  "constValues DnsInterfaceSettingsFlag_consts = map (\<lambda>i. 2 ^ i) [0 ..< 14]"
  "uint DnsInterfaceSettingsFlagIPv6 = constValue DnsInterfaceSettingsFlag_consts ''DnsInterfaceSettingsFlagIPv6''"
  "uint DnsInterfaceSettingsFlagNameserver =
     constValue DnsInterfaceSettingsFlag_consts ''DnsInterfaceSettingsFlagNameserver''"
  "uint DnsInterfaceSettingsFlagSearchList =
     constValue DnsInterfaceSettingsFlag_consts ''DnsInterfaceSettingsFlagSearchList''"
  "uint DnsInterfaceSettingsVersion1 = constValue DnsInterfaceSettingsVersion_consts ''DnsInterfaceSettingsVersion1''"
  by (simp_all add: constValue_def constValues_def constsOf_def literal_def DnsInterfaceSettingsFlag_consts_def
      DnsInterfaceSettingsVersion_consts_def dns_flag_defs DnsInterfaceSettingsVersion1_def upt_rec)

end
