(* ===== verification/Win_Table.thy ===== *)
theory Win_Table
  imports Win_Adapters Win_Memory
begin

text \<open>
  The table queries of \<^verbatim>\<open>src/winipcfg/winipcfg.go\<close> with the memory they use.  The system allocates a table
  and hands out a pointer; \<^verbatim>\<open>get\<close> makes a slice that aliases it, the rows are copied out by \<^verbatim>\<open>append\<close>, and
  \<^verbatim>\<open>free\<close> returns it.  Reading or freeing memory that is not allocated is \<^const>\<open>None\<close>.  The readers of \<open>Win_Api\<close>
  and \<open>Win_Adapters\<close>, where a table is its list of rows, are shown to be what these compute.
\<close>

section \<open>Tables in memory\<close>

record 'r mibTable =
  tbNumEntries :: u32
  tbRows :: "'r list"

type_synonym 'r mibHeap = "Ptr \<rightharpoonup> 'r mibTable"

text \<open>\<^verbatim>\<open>unsafe.Slice(&tab.table[0], tab.numEntries)\<close>: where the rows are and how many.\<close>

definition tableGet :: "Ptr \<Rightarrow> 'r mibHeap \<Rightarrow> (Ptr \<times> nat) option" where
  "tableGet tab m = (case m tab of Some t \<Rightarrow> Some (tab, unat (tbNumEntries t)) | None \<Rightarrow> None)"

text \<open>\<^verbatim>\<open>append(make([]Row, 0, n), s...)\<close> reads the rows of the slice at that moment.\<close>

definition copyRows :: "Ptr \<times> nat \<Rightarrow> 'r mibHeap \<Rightarrow> 'r list option" where
  "copyRows s m =
     (case m (fst s) of
        Some t \<Rightarrow> if snd s \<le> length (tbRows t) then Some (take (snd s) (tbRows t)) else None
      | None \<Rightarrow> None)"

definition freeMibTable :: "Ptr \<Rightarrow> 'r mibHeap \<Rightarrow> 'r mibHeap option" where
  "freeMibTable tab m = (if m tab = None then None else Some (m(tab := None)))"

text \<open>The methods \<^verbatim>\<open>get\<close> and \<^verbatim>\<open>free\<close> of each table type.\<close>

abbreviation interfaceTableGet :: "Ptr \<Rightarrow> MibIPInterfaceRow mibHeap \<Rightarrow> (Ptr \<times> nat) option" where
  "interfaceTableGet \<equiv> tableGet"
abbreviation interfaceTableFree :: "Ptr \<Rightarrow> MibIPInterfaceRow mibHeap \<Rightarrow> MibIPInterfaceRow mibHeap option" where
  "interfaceTableFree \<equiv> freeMibTable"
abbreviation ifTable2Get :: "Ptr \<Rightarrow> MibIfRow2 mibHeap \<Rightarrow> (Ptr \<times> nat) option" where
  "ifTable2Get \<equiv> tableGet"
abbreviation ifTable2Free :: "Ptr \<Rightarrow> MibIfRow2 mibHeap \<Rightarrow> MibIfRow2 mibHeap option" where
  "ifTable2Free \<equiv> freeMibTable"
abbreviation unicastTableGet :: "Ptr \<Rightarrow> MibUnicastIPAddressRow mibHeap \<Rightarrow> (Ptr \<times> nat) option" where
  "unicastTableGet \<equiv> tableGet"
abbreviation unicastTableFree :: "Ptr \<Rightarrow> MibUnicastIPAddressRow mibHeap \<Rightarrow> MibUnicastIPAddressRow mibHeap option" where
  "unicastTableFree \<equiv> freeMibTable"
abbreviation anycastTableGet :: "Ptr \<Rightarrow> MibAnycastIPAddressRow mibHeap \<Rightarrow> (Ptr \<times> nat) option" where
  "anycastTableGet \<equiv> tableGet"
abbreviation anycastTableFree :: "Ptr \<Rightarrow> MibAnycastIPAddressRow mibHeap \<Rightarrow> MibAnycastIPAddressRow mibHeap option" where
  "anycastTableFree \<equiv> freeMibTable"
abbreviation forwardTableGet :: "Ptr \<Rightarrow> MibIPforwardRow2 mibHeap \<Rightarrow> (Ptr \<times> nat) option" where
  "forwardTableGet \<equiv> tableGet"
abbreviation forwardTableFree :: "Ptr \<Rightarrow> MibIPforwardRow2 mibHeap \<Rightarrow> MibIPforwardRow2 mibHeap option" where
  "forwardTableFree \<equiv> freeMibTable"

text \<open>The body the table functions share; \<open>query\<close> is the system call that sets \<^verbatim>\<open>tab\<close>.\<close>

definition readTable ::
  "('r mibHeap \<Rightarrow> gerr option \<times> Ptr \<times> 'r mibHeap) \<Rightarrow> 'r mibHeap \<Rightarrow> ((gerr + 'r list) \<times> 'r mibHeap) option" where
  "readTable query m =
     (case query m of
        (Some err, _, m) \<Rightarrow> Some (Inl err, m)
      | (None, tab, m) \<Rightarrow>
          Option.bind (tableGet tab m) (\<lambda>s.
          Option.bind (copyRows s m) (\<lambda>t.
          Option.bind (freeMibTable tab m) (\<lambda>m. Some (Inr t, m)))))"

text \<open>
  What the system does: on success it allocates a table with the rows at an address of its choice,
  on failure nothing.
\<close>

definition allocTable ::
  "('r mibHeap \<Rightarrow> Ptr) \<Rightarrow> gerr option \<times> 'r list \<Rightarrow> 'r mibHeap \<Rightarrow> gerr option \<times> Ptr \<times> 'r mibHeap" where
  "allocTable alloc r m =
     (case r of
        (Some err, _) \<Rightarrow> (Some err, 0, m)
      | (None, rows) \<Rightarrow>
          (None, alloc m, m(alloc m \<mapsto> \<lparr>tbNumEntries = of_nat (length rows), tbRows = rows\<rparr>)))"

definition forwardTableQuery where
  "forwardTableQuery alloc api family w = readTable (allocTable alloc (getIPForwardTable2 api family w))"

definition unicastTableQuery where
  "unicastTableQuery alloc api family w = readTable (allocTable alloc (getUnicastIPAddressTable api family w))"

definition anycastTableQuery where
  "anycastTableQuery alloc api family w = readTable (allocTable alloc (getAnycastIPAddressTable api family w))"

definition interfaceTableQuery where
  "interfaceTableQuery alloc api family w = readTable (allocTable alloc (getIPInterfaceTable api family w))"

definition ifTable2Query where
  "ifTable2Query alloc api level w = readTable (allocTable alloc (getIfTable2Ex api level w))"

section \<open>The queries and their memory\<close>

text \<open>The system's part: the address it chooses is free, and the count fits its 32 bits.\<close>

definition allocates :: "('r mibHeap \<Rightarrow> Ptr) \<Rightarrow> gerr option \<times> 'r list \<Rightarrow> 'r mibHeap \<Rightarrow> bool" where
  "allocates alloc r m \<longleftrightarrow> m (alloc m) = None \<and> int (length (snd r)) < 2 ^ 32"

lemma readTable_alloc:
  assumes "allocates alloc r m"
  shows "readTable (allocTable alloc r) m = Some (case r of (Some err, _) \<Rightarrow> Inl err | (None, t) \<Rightarrow> Inr t, m)"
proof -
  obtain e rows where r: "r = (e, rows)"
    by fastforce
  have "length rows < 2 ^ 32"
    using assms r by (simp add: allocates_def)
  then have "unat (of_nat (length rows) :: u32) = length rows"
    by (simp add: unat_of_nat)
  moreover have "m(alloc m := None) = m"
    using assms by (auto simp: allocates_def)
  ultimately show ?thesis
    by (simp add: r readTable_def allocTable_def tableGet_def copyRows_def freeMibTable_def split: option.splits)
qed

lemmas table_query_defs = forwardTableQuery_def unicastTableQuery_def anycastTableQuery_def
  interfaceTableQuery_def ifTable2Query_def GetIPForwardTable2_def GetUnicastIPAddressTable_def
  GetAnycastIPAddressTable_def GetIPInterfaceTable_def GetIfTable2Ex_def

text \<open>
  C21: a table query never reads memory after it was freed, frees what it got exactly once and leaves no
  table behind, on success and on failure; and what it returns, in its own memory, is what the
  row-level reader returns.
\<close>

theorem table_queries_refine:
  assumes "allocates af (getIPForwardTable2 api family w) mf"
    and "allocates au (getUnicastIPAddressTable api family w) mu"
    and "allocates aa (getAnycastIPAddressTable api family w) ma"
    and "allocates ai (getIPInterfaceTable api family w) mi"
    and "allocates at (getIfTable2Ex aapi level v) mt"
  shows "forwardTableQuery af api family w mf = Some (GetIPForwardTable2 api family w, mf) \<and>
    unicastTableQuery au api family w mu = Some (GetUnicastIPAddressTable api family w, mu) \<and>
    anycastTableQuery aa api family w ma = Some (GetAnycastIPAddressTable api family w, ma) \<and>
    interfaceTableQuery ai api family w mi = Some (GetIPInterfaceTable api family w, mi) \<and>
    ifTable2Query at aapi level v mt = Some (GetIfTable2Ex aapi level v, mt)"
  by (simp add: table_query_defs readTable_alloc [OF assms(1)] readTable_alloc [OF assms(2)]
      readTable_alloc [OF assms(3)] readTable_alloc [OF assms(4)] readTable_alloc [OF assms(5)]
      cong: option.case_cong)

theorem table_queries_refine_witness:
  "let w = emptyWorld\<lparr>mwIfaces := [zeroInterfaceRow]\<rparr> in
   interfaceTableQuery (\<lambda>_. 8) memApi AF_UNSPEC w Map.empty = Some (Inr [zeroInterfaceRow], Map.empty) \<and>
   forwardTableQuery (\<lambda>_. 8) memApi AF_UNSPEC w Map.empty = Some (Inr [], Map.empty)"
proof -
  let ?w = "emptyWorld\<lparr>mwIfaces := [zeroInterfaceRow]\<rparr>"
  have "allocates (\<lambda>_. 8) (getIPForwardTable2 memApi AF_UNSPEC ?w) Map.empty"
    "allocates (\<lambda>_. 8) (getUnicastIPAddressTable memApi AF_UNSPEC ?w) Map.empty"
    "allocates (\<lambda>_. 8) (getAnycastIPAddressTable memApi AF_UNSPEC ?w) Map.empty"
    "allocates (\<lambda>_. 8) (getIPInterfaceTable memApi AF_UNSPEC ?w) Map.empty"
    "allocates (\<lambda>_. 8) (getIfTable2Ex demoAdapters 0 ()) Map.empty"
    by (simp_all add: allocates_def getIPForwardTable2_def getUnicastIPAddressTable_def getAnycastIPAddressTable_def
        getIPInterfaceTable_def getIfTable2Ex_def memApi_def emptyWorld_def wfRoutes_def demoAdapters_def)
  from table_queries_refine [OF this] show ?thesis
    by (simp add: GetIPInterfaceTable_def GetIPForwardTable2_def getIPInterfaceTable_def getIPForwardTable2_def
        memApi_def emptyWorld_def wfRoutes_def retErr_def)
qed

end
