(* ===== verification/Win_Layout.thy ===== *)
theory Win_Layout
  imports Prelude
begin

text \<open>
  The memory layout of the structures handed to the IP helper functions, which are declared twice:
  \<^verbatim>\<open>src/winipcfg/types_64.go\<close> for amd64 and arm64, and \<^verbatim>\<open>src/winipcfg/types_32.go\<close>, with explicit padding, for
  386 and arm, where Go aligns 64-bit integers to four bytes only.  A declaration is a value of
  \<open>goType\<close>; size, alignment and field offsets follow the rules of the Go compiler.
\<close>

section \<open>Layout rules\<close>

datatype goType = TInt int | TPtr | TArray int goType | TStruct goFields
and goFields = FNil | FCons string goType goFields

primrec fieldList :: "(string \<times> goType) list \<Rightarrow> goFields" where
  "fieldList [] = FNil"
| "fieldList (f # fs) = FCons (fst f) (snd f) (fieldList fs)"

definition struct :: "(string \<times> goType) list \<Rightarrow> goType" where
  "struct fs = TStruct (fieldList fs)"

text \<open>A target: the size of a pointer and the largest alignment of a basic type.\<close>

record target =
  tgPtr :: int
  tgMaxAlign :: int

definition go64 :: target where "go64 = \<lparr>tgPtr = 8, tgMaxAlign = 8\<rparr>"
definition go32 :: target where "go32 = \<lparr>tgPtr = 4, tgMaxAlign = 4\<rparr>"

definition alignUp :: "int \<Rightarrow> int \<Rightarrow> int" where
  "alignUp n a = (n + a - 1) div a * a"

primrec alignOf :: "target \<Rightarrow> goType \<Rightarrow> int" and alignFields :: "target \<Rightarrow> goFields \<Rightarrow> int" where
  "alignOf tg (TInt n) = min n (tgMaxAlign tg)"
| "alignOf tg TPtr = min (tgPtr tg) (tgMaxAlign tg)"
| "alignOf tg (TArray k t) = alignOf tg t"
| "alignOf tg (TStruct fs) = alignFields tg fs"
| "alignFields tg FNil = 1"
| "alignFields tg (FCons n t fs) = max (alignOf tg t) (alignFields tg fs)"

text \<open>The end of a list of fields that starts at an offset.\<close>

primrec sizeOf :: "target \<Rightarrow> goType \<Rightarrow> int" and endFields :: "target \<Rightarrow> goFields \<Rightarrow> int \<Rightarrow> int" where
  "sizeOf tg (TInt n) = n"
| "sizeOf tg TPtr = tgPtr tg"
| "sizeOf tg (TArray k t) = k * sizeOf tg t"
| "sizeOf tg (TStruct fs) = alignUp (endFields tg fs 0) (alignFields tg fs)"
| "endFields tg FNil off = off"
| "endFields tg (FCons n t fs) off = endFields tg fs (alignUp off (alignOf tg t) + sizeOf tg t)"

text \<open>Name, offset and size of the fields; padding fields are called \<^verbatim>\<open>_\<close>.\<close>

primrec offsetsFrom :: "target \<Rightarrow> goFields \<Rightarrow> int \<Rightarrow> (string \<times> int \<times> int) list" where
  "offsetsFrom tg FNil off = []"
| "offsetsFrom tg (FCons n t fs) off =
     (let o' = alignUp off (alignOf tg t); rest = offsetsFrom tg fs (o' + sizeOf tg t)
      in if n = ''_'' then rest else (n, o', sizeOf tg t) # rest)"

primrec fieldsOf :: "goType \<Rightarrow> goFields" where
  "fieldsOf (TInt n) = FNil" | "fieldsOf TPtr = FNil" | "fieldsOf (TArray k t) = FNil" | "fieldsOf (TStruct fs) = fs"

definition layoutOf :: "target \<Rightarrow> goType \<Rightarrow> (string \<times> int \<times> int) list \<times> int" where
  "layoutOf tg t = (offsetsFrom tg (fieldsOf t) 0, sizeOf tg t)"

section \<open>Declarations shared by both\<close>

definition anySize :: int where "anySize = 1"
definition maxDNSSuffixStringLength :: int where "maxDNSSuffixStringLength = 256"
definition maxDHCPv6DUIDLength :: int where "maxDHCPv6DUIDLength = 130"
definition ifMaxStringSize :: int where "ifMaxStringSize = 256"
definition ifMaxPhysAddressLength :: int where "ifMaxPhysAddressLength = 32"

text \<open>\<^verbatim>\<open>windows.GUID\<close> and \<^verbatim>\<open>windows.SocketAddress\<close>, as documented by the system.\<close>

definition GUID_layout :: goType where
  "GUID_layout = struct [(''Data1'', TInt 4), (''Data2'', TInt 2), (''Data3'', TInt 2), (''Data4'', TArray 8 (TInt 1))]"

definition SocketAddress_layout :: goType where
  "SocketAddress_layout = struct [(''Sockaddr'', TPtr), (''SockaddrLength'', TInt 4)]"

definition IPAdapterDNSSuffix_layout :: goType where
  "IPAdapterDNSSuffix_layout = struct
     [(''Next'', TPtr), (''str'', TArray maxDNSSuffixStringLength (TInt 2))]"

definition RawSockaddrInet_layout :: goType where
  "RawSockaddrInet_layout = struct
     [(''Family'', TInt 2), (''data'', TArray 26 (TInt 1))]"

definition IPAddressPrefix_layout :: goType where
  "IPAddressPrefix_layout = struct
     [(''RawPrefix'', RawSockaddrInet_layout), (''PrefixLength'', TInt 1),
      (''_'', TArray 2 (TInt 1))]"

definition MibIPforwardRow2_layout :: goType where
  "MibIPforwardRow2_layout = struct
     [(''InterfaceLUID'', TInt 8), (''InterfaceIndex'', TInt 4),
      (''DestinationPrefix'', IPAddressPrefix_layout), (''NextHop'', RawSockaddrInet_layout),
      (''SitePrefixLength'', TInt 1), (''ValidLifetime'', TInt 4),
      (''PreferredLifetime'', TInt 4), (''Metric'', TInt 4), (''Protocol'', TInt 4),
      (''Loopback'', TInt 1), (''AutoconfigureAddress'', TInt 1), (''Publish'', TInt 1),
      (''Immortal'', TInt 1), (''Age'', TInt 4), (''Origin'', TInt 4)]"

definition DnsInterfaceSettings_layout :: goType where
  "DnsInterfaceSettings_layout = struct
     [(''Version'', TInt 4), (''_'', TArray 4 (TInt 1)), (''Flags'', TInt 8),
      (''Domain'', TPtr), (''NameServer'', TPtr), (''SearchList'', TPtr),
      (''RegistrationEnabled'', TInt 4), (''RegisterAdapterName'', TInt 4),
      (''EnableLLMNR'', TInt 4), (''QueryAdapterName'', TInt 4), (''ProfileNameServer'', TPtr)]"

section \<open>64-bit declarations\<close>

definition IPAdapterWINSServerAddress_64 :: goType where
  "IPAdapterWINSServerAddress_64 = struct
     [(''Length'', TInt 4), (''_'', TInt 4), (''Next'', TPtr),
      (''Address'', SocketAddress_layout)]"

definition IPAdapterGatewayAddress_64 :: goType where
  "IPAdapterGatewayAddress_64 = struct
     [(''Length'', TInt 4), (''_'', TInt 4), (''Next'', TPtr),
      (''Address'', SocketAddress_layout)]"

definition IPAdapterAddresses_64 :: goType where
  "IPAdapterAddresses_64 = struct
     [(''Length'', TInt 4), (''IfIndex'', TInt 4), (''Next'', TPtr), (''adapterName'', TPtr),
      (''FirstUnicastAddress'', TPtr), (''FirstAnycastAddress'', TPtr),
      (''FirstMulticastAddress'', TPtr), (''FirstDNSServerAddress'', TPtr),
      (''dnsSuffix'', TPtr), (''description'', TPtr), (''friendlyName'', TPtr),
      (''physicalAddress'', TArray 8 (TInt 1)), (''physicalAddressLength'', TInt 4),
      (''Flags'', TInt 4), (''MTU'', TInt 4), (''IfType'', TInt 4), (''OperStatus'', TInt 4),
      (''IPv6IfIndex'', TInt 4), (''ZoneIndices'', TArray 16 (TInt 4)),
      (''FirstPrefix'', TPtr), (''TransmitLinkSpeed'', TInt 8), (''ReceiveLinkSpeed'', TInt 8),
      (''FirstWINSServerAddress'', TPtr), (''FirstGatewayAddress'', TPtr),
      (''Ipv4Metric'', TInt 4), (''Ipv6Metric'', TInt 4), (''LUID'', TInt 8),
      (''DHCPv4Server'', SocketAddress_layout), (''CompartmentID'', TInt 4),
      (''NetworkGUID'', GUID_layout), (''ConnectionType'', TInt 4), (''TunnelType'', TInt 4),
      (''DHCPv6Server'', SocketAddress_layout),
      (''dhcpv6ClientDUID'', TArray maxDHCPv6DUIDLength (TInt 1)),
      (''dhcpv6ClientDUIDLength'', TInt 4), (''DHCPv6IAID'', TInt 4),
      (''FirstDNSSuffix'', TPtr)]"

definition MibIPInterfaceRow_64 :: goType where
  "MibIPInterfaceRow_64 = struct
     [(''Family'', TInt 2), (''InterfaceLUID'', TInt 8), (''InterfaceIndex'', TInt 4),
      (''MaxReassemblySize'', TInt 4), (''InterfaceIdentifier'', TInt 8),
      (''MinRouterAdvertisementInterval'', TInt 4),
      (''MaxRouterAdvertisementInterval'', TInt 4), (''AdvertisingEnabled'', TInt 1),
      (''ForwardingEnabled'', TInt 1), (''WeakHostSend'', TInt 1),
      (''WeakHostReceive'', TInt 1), (''UseAutomaticMetric'', TInt 1),
      (''UseNeighborUnreachabilityDetection'', TInt 1),
      (''ManagedAddressConfigurationSupported'', TInt 1),
      (''OtherStatefulConfigurationSupported'', TInt 1), (''AdvertiseDefaultRoute'', TInt 1),
      (''RouterDiscoveryBehavior'', TInt 4), (''DadTransmits'', TInt 4),
      (''BaseReachableTime'', TInt 4), (''RetransmitTime'', TInt 4),
      (''PathMTUDiscoveryTimeout'', TInt 4), (''LinkLocalAddressBehavior'', TInt 4),
      (''LinkLocalAddressTimeout'', TInt 4), (''ZoneIndices'', TArray 16 (TInt 4)),
      (''SitePrefixLength'', TInt 4), (''Metric'', TInt 4), (''NLMTU'', TInt 4),
      (''Connected'', TInt 1), (''SupportsWakeUpPatterns'', TInt 1),
      (''SupportsNeighborDiscovery'', TInt 1), (''SupportsRouterDiscovery'', TInt 1),
      (''ReachableTime'', TInt 4), (''TransmitOffload'', TInt 1), (''ReceiveOffload'', TInt 1),
      (''DisableDefaultRoutes'', TInt 1)]"

definition mibIPInterfaceTable_64 :: goType where
  "mibIPInterfaceTable_64 = struct
     [(''numEntries'', TInt 4), (''table'', TArray anySize (MibIPInterfaceRow_64))]"

definition MibIfRow2_64 :: goType where
  "MibIfRow2_64 = struct
     [(''InterfaceLUID'', TInt 8), (''InterfaceIndex'', TInt 4),
      (''InterfaceGUID'', GUID_layout), (''alias'', TArray (ifMaxStringSize + 1) (TInt 2)),
      (''description'', TArray (ifMaxStringSize + 1) (TInt 2)),
      (''physicalAddressLength'', TInt 4),
      (''physicalAddress'', TArray ifMaxPhysAddressLength (TInt 1)),
      (''permanentPhysicalAddress'', TArray ifMaxPhysAddressLength (TInt 1)),
      (''MTU'', TInt 4), (''Type'', TInt 4), (''TunnelType'', TInt 4), (''MediaType'', TInt 4),
      (''PhysicalMediumType'', TInt 4), (''AccessType'', TInt 4), (''DirectionType'', TInt 4),
      (''InterfaceAndOperStatusFlags'', TInt 1), (''OperStatus'', TInt 4),
      (''AdminStatus'', TInt 4), (''MediaConnectState'', TInt 4),
      (''NetworkGUID'', GUID_layout), (''ConnectionType'', TInt 4),
      (''TransmitLinkSpeed'', TInt 8), (''ReceiveLinkSpeed'', TInt 8), (''InOctets'', TInt 8),
      (''InUcastPkts'', TInt 8), (''InNUcastPkts'', TInt 8), (''InDiscards'', TInt 8),
      (''InErrors'', TInt 8), (''InUnknownProtos'', TInt 8), (''InUcastOctets'', TInt 8),
      (''InMulticastOctets'', TInt 8), (''InBroadcastOctets'', TInt 8),
      (''OutOctets'', TInt 8), (''OutUcastPkts'', TInt 8), (''OutNUcastPkts'', TInt 8),
      (''OutDiscards'', TInt 8), (''OutErrors'', TInt 8), (''OutUcastOctets'', TInt 8),
      (''OutMulticastOctets'', TInt 8), (''OutBroadcastOctets'', TInt 8),
      (''OutQLen'', TInt 8)]"

definition mibIfTable2_64 :: goType where
  "mibIfTable2_64 = struct
     [(''numEntries'', TInt 4), (''table'', TArray anySize (MibIfRow2_64))]"

definition MibUnicastIPAddressRow_64 :: goType where
  "MibUnicastIPAddressRow_64 = struct
     [(''Address'', RawSockaddrInet_layout), (''InterfaceLUID'', TInt 8),
      (''InterfaceIndex'', TInt 4), (''PrefixOrigin'', TInt 4), (''SuffixOrigin'', TInt 4),
      (''ValidLifetime'', TInt 4), (''PreferredLifetime'', TInt 4),
      (''OnLinkPrefixLength'', TInt 1), (''SkipAsSource'', TInt 1), (''DadState'', TInt 4),
      (''ScopeID'', TInt 4), (''CreationTimeStamp'', TInt 8)]"

definition mibUnicastIPAddressTable_64 :: goType where
  "mibUnicastIPAddressTable_64 = struct
     [(''numEntries'', TInt 4), (''table'', TArray anySize (MibUnicastIPAddressRow_64))]"

definition MibAnycastIPAddressRow_64 :: goType where
  "MibAnycastIPAddressRow_64 = struct
     [(''Address'', RawSockaddrInet_layout), (''InterfaceLUID'', TInt 8),
      (''InterfaceIndex'', TInt 4), (''ScopeID'', TInt 4)]"

definition mibAnycastIPAddressTable_64 :: goType where
  "mibAnycastIPAddressTable_64 = struct
     [(''numEntries'', TInt 4), (''table'', TArray anySize (MibAnycastIPAddressRow_64))]"

definition mibIPforwardTable2_64 :: goType where
  "mibIPforwardTable2_64 = struct
     [(''numEntries'', TInt 4), (''table'', TArray anySize (MibIPforwardRow2_layout))]"

section \<open>32-bit declarations\<close>

definition IPAdapterWINSServerAddress_32 :: goType where
  "IPAdapterWINSServerAddress_32 = struct
     [(''Length'', TInt 4), (''_'', TInt 4), (''Next'', TPtr),
      (''Address'', SocketAddress_layout), (''_'', TArray 4 (TInt 1))]"

definition IPAdapterGatewayAddress_32 :: goType where
  "IPAdapterGatewayAddress_32 = struct
     [(''Length'', TInt 4), (''_'', TInt 4), (''Next'', TPtr),
      (''Address'', SocketAddress_layout), (''_'', TArray 4 (TInt 1))]"

definition IPAdapterAddresses_32 :: goType where
  "IPAdapterAddresses_32 = struct
     [(''Length'', TInt 4), (''IfIndex'', TInt 4), (''Next'', TPtr), (''adapterName'', TPtr),
      (''FirstUnicastAddress'', TPtr), (''FirstAnycastAddress'', TPtr),
      (''FirstMulticastAddress'', TPtr), (''FirstDNSServerAddress'', TPtr),
      (''dnsSuffix'', TPtr), (''description'', TPtr), (''friendlyName'', TPtr),
      (''physicalAddress'', TArray 8 (TInt 1)), (''physicalAddressLength'', TInt 4),
      (''Flags'', TInt 4), (''MTU'', TInt 4), (''IfType'', TInt 4), (''OperStatus'', TInt 4),
      (''IPv6IfIndex'', TInt 4), (''ZoneIndices'', TArray 16 (TInt 4)),
      (''FirstPrefix'', TPtr), (''TransmitLinkSpeed'', TInt 8), (''ReceiveLinkSpeed'', TInt 8),
      (''FirstWINSServerAddress'', TPtr), (''FirstGatewayAddress'', TPtr),
      (''Ipv4Metric'', TInt 4), (''Ipv6Metric'', TInt 4), (''LUID'', TInt 8),
      (''DHCPv4Server'', SocketAddress_layout), (''CompartmentID'', TInt 4),
      (''NetworkGUID'', GUID_layout), (''ConnectionType'', TInt 4), (''TunnelType'', TInt 4),
      (''DHCPv6Server'', SocketAddress_layout),
      (''dhcpv6ClientDUID'', TArray maxDHCPv6DUIDLength (TInt 1)),
      (''dhcpv6ClientDUIDLength'', TInt 4), (''DHCPv6IAID'', TInt 4),
      (''FirstDNSSuffix'', TPtr), (''_'', TArray 4 (TInt 1))]"

definition MibIPInterfaceRow_32 :: goType where
  "MibIPInterfaceRow_32 = struct
     [(''Family'', TInt 2), (''_'', TArray 4 (TInt 1)), (''InterfaceLUID'', TInt 8),
      (''InterfaceIndex'', TInt 4), (''MaxReassemblySize'', TInt 4),
      (''InterfaceIdentifier'', TInt 8), (''MinRouterAdvertisementInterval'', TInt 4),
      (''MaxRouterAdvertisementInterval'', TInt 4), (''AdvertisingEnabled'', TInt 1),
      (''ForwardingEnabled'', TInt 1), (''WeakHostSend'', TInt 1),
      (''WeakHostReceive'', TInt 1), (''UseAutomaticMetric'', TInt 1),
      (''UseNeighborUnreachabilityDetection'', TInt 1),
      (''ManagedAddressConfigurationSupported'', TInt 1),
      (''OtherStatefulConfigurationSupported'', TInt 1), (''AdvertiseDefaultRoute'', TInt 1),
      (''RouterDiscoveryBehavior'', TInt 4), (''DadTransmits'', TInt 4),
      (''BaseReachableTime'', TInt 4), (''RetransmitTime'', TInt 4),
      (''PathMTUDiscoveryTimeout'', TInt 4), (''LinkLocalAddressBehavior'', TInt 4),
      (''LinkLocalAddressTimeout'', TInt 4), (''ZoneIndices'', TArray 16 (TInt 4)),
      (''SitePrefixLength'', TInt 4), (''Metric'', TInt 4), (''NLMTU'', TInt 4),
      (''Connected'', TInt 1), (''SupportsWakeUpPatterns'', TInt 1),
      (''SupportsNeighborDiscovery'', TInt 1), (''SupportsRouterDiscovery'', TInt 1),
      (''ReachableTime'', TInt 4), (''TransmitOffload'', TInt 1), (''ReceiveOffload'', TInt 1),
      (''DisableDefaultRoutes'', TInt 1)]"

definition mibIPInterfaceTable_32 :: goType where
  "mibIPInterfaceTable_32 = struct
     [(''numEntries'', TInt 4), (''_'', TArray 4 (TInt 1)),
      (''table'', TArray anySize (MibIPInterfaceRow_32))]"

definition MibIfRow2_32 :: goType where
  "MibIfRow2_32 = struct
     [(''InterfaceLUID'', TInt 8), (''InterfaceIndex'', TInt 4),
      (''InterfaceGUID'', GUID_layout), (''alias'', TArray (ifMaxStringSize + 1) (TInt 2)),
      (''description'', TArray (ifMaxStringSize + 1) (TInt 2)),
      (''physicalAddressLength'', TInt 4),
      (''physicalAddress'', TArray ifMaxPhysAddressLength (TInt 1)),
      (''permanentPhysicalAddress'', TArray ifMaxPhysAddressLength (TInt 1)),
      (''MTU'', TInt 4), (''Type'', TInt 4), (''TunnelType'', TInt 4), (''MediaType'', TInt 4),
      (''PhysicalMediumType'', TInt 4), (''AccessType'', TInt 4), (''DirectionType'', TInt 4),
      (''InterfaceAndOperStatusFlags'', TInt 1), (''OperStatus'', TInt 4),
      (''AdminStatus'', TInt 4), (''MediaConnectState'', TInt 4),
      (''NetworkGUID'', GUID_layout), (''ConnectionType'', TInt 4), (''_'', TArray 4 (TInt 1)),
      (''TransmitLinkSpeed'', TInt 8), (''ReceiveLinkSpeed'', TInt 8), (''InOctets'', TInt 8),
      (''InUcastPkts'', TInt 8), (''InNUcastPkts'', TInt 8), (''InDiscards'', TInt 8),
      (''InErrors'', TInt 8), (''InUnknownProtos'', TInt 8), (''InUcastOctets'', TInt 8),
      (''InMulticastOctets'', TInt 8), (''InBroadcastOctets'', TInt 8),
      (''OutOctets'', TInt 8), (''OutUcastPkts'', TInt 8), (''OutNUcastPkts'', TInt 8),
      (''OutDiscards'', TInt 8), (''OutErrors'', TInt 8), (''OutUcastOctets'', TInt 8),
      (''OutMulticastOctets'', TInt 8), (''OutBroadcastOctets'', TInt 8),
      (''OutQLen'', TInt 8)]"

definition mibIfTable2_32 :: goType where
  "mibIfTable2_32 = struct
     [(''numEntries'', TInt 4), (''_'', TArray 4 (TInt 1)),
      (''table'', TArray anySize (MibIfRow2_32))]"

definition MibUnicastIPAddressRow_32 :: goType where
  "MibUnicastIPAddressRow_32 = struct
     [(''Address'', RawSockaddrInet_layout), (''_'', TArray 4 (TInt 1)),
      (''InterfaceLUID'', TInt 8), (''InterfaceIndex'', TInt 4), (''PrefixOrigin'', TInt 4),
      (''SuffixOrigin'', TInt 4), (''ValidLifetime'', TInt 4), (''PreferredLifetime'', TInt 4),
      (''OnLinkPrefixLength'', TInt 1), (''SkipAsSource'', TInt 1), (''DadState'', TInt 4),
      (''ScopeID'', TInt 4), (''CreationTimeStamp'', TInt 8)]"

definition mibUnicastIPAddressTable_32 :: goType where
  "mibUnicastIPAddressTable_32 = struct
     [(''numEntries'', TInt 4), (''_'', TArray 4 (TInt 1)),
      (''table'', TArray anySize (MibUnicastIPAddressRow_32))]"

definition MibAnycastIPAddressRow_32 :: goType where
  "MibAnycastIPAddressRow_32 = struct
     [(''Address'', RawSockaddrInet_layout), (''_'', TArray 4 (TInt 1)),
      (''InterfaceLUID'', TInt 8), (''InterfaceIndex'', TInt 4), (''ScopeID'', TInt 4)]"

definition mibAnycastIPAddressTable_32 :: goType where
  "mibAnycastIPAddressTable_32 = struct
     [(''numEntries'', TInt 4), (''_'', TArray 4 (TInt 1)),
      (''table'', TArray anySize (MibAnycastIPAddressRow_32))]"

definition mibIPforwardTable2_32 :: goType where
  "mibIPforwardTable2_32 = struct
     [(''numEntries'', TInt 4), (''_'', TArray 4 (TInt 1)),
      (''table'', TArray anySize (MibIPforwardRow2_layout))]"

section \<open>Properties\<close>

text \<open>
  Natural alignment of everything in a value at an offset: an integer at a multiple of its size, a
  pointer at a multiple of the pointer size.  Two elements of an array determine its stride.
\<close>

primrec naturalAt :: "target \<Rightarrow> goType \<Rightarrow> int \<Rightarrow> bool"
  and naturalFields :: "target \<Rightarrow> goFields \<Rightarrow> int \<Rightarrow> int \<Rightarrow> bool" where
  "naturalAt tg (TInt n) b \<longleftrightarrow> b mod n = 0"
| "naturalAt tg TPtr b \<longleftrightarrow> b mod tgPtr tg = 0"
| "naturalAt tg (TArray k t) b \<longleftrightarrow> naturalAt tg t b \<and> (k \<le> 1 \<or> naturalAt tg t (b + sizeOf tg t))"
| "naturalAt tg (TStruct fs) b \<longleftrightarrow> naturalFields tg fs b 0"
| "naturalFields tg FNil b off \<longleftrightarrow> True"
| "naturalFields tg (FCons n t fs) b off \<longleftrightarrow>
     (let o' = alignUp off (alignOf tg t)
      in (n = ''_'' \<or> naturalAt tg t (b + o')) \<and> naturalFields tg fs b (o' + sizeOf tg t))"

definition systemLayout :: "target \<Rightarrow> goType \<Rightarrow> bool" where
  "systemLayout tg t \<longleftrightarrow> naturalAt tg t 0 \<and> sizeOf tg t mod 8 = 0"

definition sameLayout :: "goType \<Rightarrow> goType \<Rightarrow> bool" where
  "sameLayout t64 t32 \<longleftrightarrow> layoutOf go64 t64 = layoutOf go32 t32"

text \<open>
  The two declarations describe the same memory.  For every structure without pointers that
  crosses the system boundary, the 32-bit declaration with its padding has the same size and its
  fields the same names, offsets and sizes as the 64-bit one; the route row, declared once, has
  the same layout on both.
\<close>

lemma layouts_agree:
  "sameLayout MibIPInterfaceRow_64 MibIPInterfaceRow_32 \<and>
   sameLayout mibIPInterfaceTable_64 mibIPInterfaceTable_32 \<and>
   sameLayout MibIfRow2_64 MibIfRow2_32 \<and> sameLayout mibIfTable2_64 mibIfTable2_32 \<and>
   sameLayout MibUnicastIPAddressRow_64 MibUnicastIPAddressRow_32 \<and>
   sameLayout mibUnicastIPAddressTable_64 mibUnicastIPAddressTable_32 \<and>
   sameLayout MibAnycastIPAddressRow_64 MibAnycastIPAddressRow_32 \<and>
   sameLayout mibAnycastIPAddressTable_64 mibAnycastIPAddressTable_32 \<and>
   sameLayout MibIPforwardRow2_layout MibIPforwardRow2_layout \<and>
   sameLayout mibIPforwardTable2_64 mibIPforwardTable2_32"
  by code_simp

text \<open>
  The padding restores the system's alignment.  On the 32-bit targets, where the compiler
  aligns 64-bit integers to four bytes, every field of every structure lies at a multiple of its
  own size (eight for the 64-bit ones), and every structure is a multiple of eight bytes long, so
  that the rows of a table stay aligned.
\<close>

theorem natural_alignment_32:
  "list_all (systemLayout go32)
     [IPAdapterWINSServerAddress_32, IPAdapterGatewayAddress_32, IPAdapterAddresses_32, MibIPInterfaceRow_32,
      mibIPInterfaceTable_32, MibIfRow2_32, mibIfTable2_32, MibUnicastIPAddressRow_32, mibUnicastIPAddressTable_32,
      MibAnycastIPAddressRow_32, mibAnycastIPAddressTable_32, MibIPforwardRow2_layout, mibIPforwardTable2_32,
      DnsInterfaceSettings_layout]"
  by code_simp

end
