(* ===== verification/Veiltun.thy ===== *)
theory Veiltun
  imports Win_Api "HOL-Library.Sublist"
begin

text \<open>
  The TUN driver binding: loading the DLL (\<^verbatim>\<open>src/veiltun/veiltun.go\<close>), sessions
  (\<^verbatim>\<open>src/veiltun/session.go\<close>) and the batched device (\<^verbatim>\<open>src/veiltun/device.go\<close>).  The driver DLL, the
  loader and the kernel's event and clock functions are the parameter \<open>tunSys\<close>, over an
  arbitrary system state; a driver entry point is called through the address that was resolved
  for it.  Rings are memory: a packet is a pointer and a length, read and written through
  \<open>tsRead\<close> and \<open>tsWrite\<close>.  \<open>uintptr\<close> is 64 bits wide.
\<close>

section \<open>The system the binding calls\<close>

type_synonym uintptr = u64

datatype drvCall =
    DCreateAdapter "u16 list" "u16 list" "GUID option"
  | DCloseAdapter uintptr
  | DGetAdapterLUID uintptr
  | DRunningVersion
  | DStartSession uintptr uintptr
  | DEndSession uintptr
  | DGetReadWait uintptr
  | DReceivePacket uintptr
  | DReleasePacket uintptr uintptr
  | DAllocatePacket uintptr uintptr
  | DSendPacket uintptr uintptr

text \<open>
  \<open>tsCall addr call w\<close> is \<^verbatim>\<open>syscall.SyscallN(addr, ...)\<close>: the result register, the value the call
  leaves in its out parameter (zero before), the error number, and the state.  \<open>tsClosed\<close> and
  \<open>tsRunningAdd\<close> are the atomic flag and the wait group of a device, which other goroutines
  change and which therefore belong to the state; \<open>tsNewTun\<close> allocates the device they belong to.
\<close>

record 'w tunSys =
  tsLoadLibraryEx :: "string \<Rightarrow> u32 \<Rightarrow> 'w \<Rightarrow> (gerr + uintptr) \<times> 'w"
  tsGetProcAddress :: "uintptr \<Rightarrow> string \<Rightarrow> gerr + uintptr"
  tsUTF16PtrFromString :: "string \<Rightarrow> gerr + u16 list"
  tsCall :: "uintptr \<Rightarrow> drvCall \<Rightarrow> 'w \<Rightarrow> uintptr \<times> u64 \<times> u32 \<times> 'w"
  tsRead :: "uintptr \<Rightarrow> nat \<Rightarrow> 'w \<Rightarrow> u8 list"
  tsWrite :: "uintptr \<Rightarrow> u8 list \<Rightarrow> 'w \<Rightarrow> 'w"
  tsWaitForSingleObject :: "Handle \<Rightarrow> 'w \<Rightarrow> 'w"
  tsSetEvent :: "Handle \<Rightarrow> 'w \<Rightarrow> 'w"
  tsNow :: "'w \<Rightarrow> int \<times> 'w"
  tsGosched :: "'w \<Rightarrow> 'w"
  tsNumCPU :: nat
  tsNewTun :: "'w \<Rightarrow> nat \<times> 'w"
  tsClosed :: "nat \<Rightarrow> 'w \<Rightarrow> bool"
  tsSetClosed :: "nat \<Rightarrow> 'w \<Rightarrow> 'w"
  tsRunningAdd :: "nat \<Rightarrow> int \<Rightarrow> 'w \<Rightarrow> 'w"
  tsRunningWait :: "nat \<Rightarrow> 'w \<Rightarrow> 'w"

section \<open>Loading the driver\<close>

definition driverDLL :: string where "driverDLL = ''veiltun.dll''"
definition TunnelType :: string where "TunnelType = ''VEIL''"

record procTable =
  createAdapter :: uintptr
  openAdapter :: uintptr
  closeAdapter :: uintptr
  deleteDriver :: uintptr
  getAdapterLUID :: uintptr
  runningVersion :: uintptr
  startSession :: uintptr
  endSession :: uintptr
  getReadWait :: uintptr
  receivePacket :: uintptr
  releasePacket :: uintptr
  allocatePacket :: uintptr
  sendPacket :: uintptr

definition zeroProcs :: procTable where
  "zeroProcs = \<lparr>createAdapter = 0, openAdapter = 0, closeAdapter = 0, deleteDriver = 0,
     getAdapterLUID = 0, runningVersion = 0, startSession = 0, endSession = 0, getReadWait = 0,
     receivePacket = 0, releasePacket = 0, allocatePacket = 0, sendPacket = 0\<rparr>"

text \<open>The package variables \<^verbatim>\<open>loadOnce\<close>, \<^verbatim>\<open>loadErr\<close> and \<^verbatim>\<open>procs\<close>.\<close>

record tunGlobals =
  loadOnce :: bool
  loadErr :: "gerr option"
  procs :: procTable

definition initGlobals :: tunGlobals where
  "initGlobals = \<lparr>loadOnce = False, loadErr = None, procs = zeroProcs\<rparr>"

definition resolve ::
  "'w tunSys \<Rightarrow> uintptr \<Rightarrow> string \<Rightarrow> (uintptr \<Rightarrow> procTable \<Rightarrow> procTable) \<Rightarrow> tunGlobals \<Rightarrow> tunGlobals" where
  "resolve sys module name dst g =
     (if loadErr g \<noteq> None then g
      else case tsGetProcAddress sys module name of
             Inl err \<Rightarrow> g\<lparr>loadErr := Some (Wrapf (''veiltun: resolve '' @ name @ '': '') err)\<rparr>
           | Inr addr \<Rightarrow> g\<lparr>procs := dst addr (procs g)\<rparr>)"

text \<open>The symbols in the order of the calls, each with the field it fills.\<close>

definition symbols :: "(string \<times> (uintptr \<Rightarrow> procTable \<Rightarrow> procTable)) list" where
  "symbols =
     [(''WintunCreateAdapter'', \<lambda>a. createAdapter_update (\<lambda>_. a)),
      (''WintunOpenAdapter'', \<lambda>a. openAdapter_update (\<lambda>_. a)),
      (''WintunCloseAdapter'', \<lambda>a. closeAdapter_update (\<lambda>_. a)),
      (''WintunDeleteDriver'', \<lambda>a. deleteDriver_update (\<lambda>_. a)),
      (''WintunGetAdapterLUID'', \<lambda>a. getAdapterLUID_update (\<lambda>_. a)),
      (''WintunGetRunningDriverVersion'', \<lambda>a. runningVersion_update (\<lambda>_. a)),
      (''WintunStartSession'', \<lambda>a. startSession_update (\<lambda>_. a)),
      (''WintunEndSession'', \<lambda>a. endSession_update (\<lambda>_. a)),
      (''WintunGetReadWaitEvent'', \<lambda>a. getReadWait_update (\<lambda>_. a)),
      (''WintunReceivePacket'', \<lambda>a. receivePacket_update (\<lambda>_. a)),
      (''WintunReleaseReceivePacket'', \<lambda>a. releasePacket_update (\<lambda>_. a)),
      (''WintunAllocateSendPacket'', \<lambda>a. allocatePacket_update (\<lambda>_. a)),
      (''WintunSendPacket'', \<lambda>a. sendPacket_update (\<lambda>_. a))]"

definition safeSearchFlags :: u32 where "safeSearchFlags = or 0x00000200 0x00000800"

definition load :: "'w tunSys \<Rightarrow> tunGlobals \<Rightarrow> 'w \<Rightarrow> gerr option \<times> tunGlobals \<times> 'w" where
  "load sys g w =
     (if loadOnce g then (loadErr g, g, w)
      else
        let g = g\<lparr>loadOnce := True\<rparr> in
        case tsLoadLibraryEx sys driverDLL safeSearchFlags w of
          (Inl err, w) \<Rightarrow>
            let e = Some (Wrapf (''veiltun: load '' @ driverDLL @ '': '') err)
            in (e, g\<lparr>loadErr := e\<rparr>, w)
        | (Inr module, w) \<Rightarrow>
            let g = foldl (\<lambda>g (name, dst). resolve sys module name dst g) g symbols
            in (loadErr g, g, w))"

section \<open>Adapters\<close>

record Adapter =
  adHandle :: uintptr

text \<open>
  \<^verbatim>\<open>%q\<close> for text without unprintable Unicode: quotes around it, with escapes for the quote, the
  backslash and the control characters.
\<close>

definition hex2 :: "nat \<Rightarrow> string" where
  "hex2 n = [hexDigit (n div 16), hexDigit (n mod 16)]"

definition quoteChar :: "char \<Rightarrow> string" where
  "quoteChar c =
     (let n = of_char c :: nat in
      if n = 34 \<or> n = 92 then [CHR 0x5C, c]
      else if n = 7 then [CHR 0x5C, CHR ''a''] else if n = 8 then [CHR 0x5C, CHR ''b'']
      else if n = 12 then [CHR 0x5C, CHR ''f''] else if n = 10 then [CHR 0x5C, CHR ''n'']
      else if n = 13 then [CHR 0x5C, CHR ''r''] else if n = 9 then [CHR 0x5C, CHR ''t'']
      else if n = 11 then [CHR 0x5C, CHR ''v'']
      else if n < 32 \<or> n = 127 then [CHR 0x5C, CHR ''x''] @ hex2 n
      else [c])"

definition quoteGo :: "string \<Rightarrow> string" where
  "quoteGo s = [CHR 0x22] @ concat (map quoteChar s) @ [CHR 0x22]"

definition CreateAdapter ::
  "'w tunSys \<Rightarrow> string \<Rightarrow> GUID option \<Rightarrow> tunGlobals \<Rightarrow> 'w \<Rightarrow> (gerr + Adapter) \<times> tunGlobals \<times> 'w" where
  "CreateAdapter sys name requestedGUID g w =
     (case load sys g w of
        (Some err, g, w) \<Rightarrow> (Inl err, g, w)
      | (None, g, w) \<Rightarrow>
          (case tsUTF16PtrFromString sys name of
             Inl err \<Rightarrow> (Inl err, g, w)
           | Inr name16 \<Rightarrow>
               (case tsUTF16PtrFromString sys TunnelType of
                  Inl err \<Rightarrow> (Inl err, g, w)
                | Inr type16 \<Rightarrow>
                    let (r0, _, e1, w) = tsCall sys (createAdapter (procs g))
                                           (DCreateAdapter name16 type16 requestedGUID) w
                    in if r0 = 0
                       then (Inl (Wrapf (''veiltun: create adapter '' @ quoteGo name @ '': '') (Errno e1)), g, w)
                       else (Inr \<lparr>adHandle = r0\<rparr>, g, w))))"

definition adapterClose :: "'w tunSys \<Rightarrow> procTable \<Rightarrow> Adapter \<Rightarrow> 'w \<Rightarrow> Adapter \<times> 'w" where
  "adapterClose sys p a w =
     (if adHandle a = 0 then (a, w)
      else let (_, _, _, w) = tsCall sys (closeAdapter p) (DCloseAdapter (adHandle a)) w
           in (a\<lparr>adHandle := 0\<rparr>, w))"

definition adapterLUID :: "'w tunSys \<Rightarrow> procTable \<Rightarrow> Adapter \<Rightarrow> 'w \<Rightarrow> u64 \<times> 'w" where
  "adapterLUID sys p a w =
     (let (_, luid, _, w) = tsCall sys (getAdapterLUID p) (DGetAdapterLUID (adHandle a)) w in (luid, w))"

definition RunningVersion ::
  "'w tunSys \<Rightarrow> tunGlobals \<Rightarrow> 'w \<Rightarrow> (gerr + u32) \<times> tunGlobals \<times> 'w" where
  "RunningVersion sys g w =
     (case load sys g w of
        (Some err, g, w) \<Rightarrow> (Inl err, g, w)
      | (None, g, w) \<Rightarrow>
          let (r0, _, e1, w) = tsCall sys (runningVersion (procs g)) DRunningVersion w
          in (if r0 = 0 then Inl (Errno e1) else Inr (ucast r0), g, w))"

section \<open>Sessions\<close>

definition RingCapacityMin :: u32 where "RingCapacityMin = 0x20000"
definition RingCapacityMax :: u32 where "RingCapacityMax = 0x4000000"
definition MaxPacketSize :: int where "MaxPacketSize = 0xFFFF"

record Session =
  ssHandle :: uintptr

text \<open>A Go byte slice over ring memory.\<close>

record ringSlice =
  slPtr :: uintptr
  slLen :: nat

definition StartSession ::
  "'w tunSys \<Rightarrow> procTable \<Rightarrow> Adapter \<Rightarrow> u32 \<Rightarrow> 'w \<Rightarrow> (gerr + Session) \<times> 'w" where
  "StartSession sys p a capacity w =
     (let (r0, _, e1, w) = tsCall sys (startSession p) (DStartSession (adHandle a) (ucast capacity)) w
      in if r0 = 0 then (Inl (Errno e1), w) else (Inr \<lparr>ssHandle = r0\<rparr>, w))"

definition sessionEnd :: "'w tunSys \<Rightarrow> procTable \<Rightarrow> Session \<Rightarrow> 'w \<Rightarrow> Session \<times> 'w" where
  "sessionEnd sys p s w =
     (if ssHandle s = 0 then (s, w)
      else let (_, _, _, w) = tsCall sys (endSession p) (DEndSession (ssHandle s)) w
           in (s\<lparr>ssHandle := 0\<rparr>, w))"

definition ReadWaitEvent :: "'w tunSys \<Rightarrow> procTable \<Rightarrow> Session \<Rightarrow> 'w \<Rightarrow> Handle \<times> 'w" where
  "ReadWaitEvent sys p s w =
     (let (r0, _, _, w) = tsCall sys (getReadWait p) (DGetReadWait (ssHandle s)) w in (r0, w))"

definition ReceivePacket ::
  "'w tunSys \<Rightarrow> procTable \<Rightarrow> Session \<Rightarrow> 'w \<Rightarrow> (gerr + ringSlice) \<times> 'w" where
  "ReceivePacket sys p s w =
     (let (r0, sz, e1, w) = tsCall sys (receivePacket p) (DReceivePacket (ssHandle s)) w
      in if r0 = 0 then (Inl (Errno e1), w)
         else (Inr \<lparr>slPtr = r0, slLen = unat (ucast sz :: u32)\<rparr>, w))"

text \<open>\<^verbatim>\<open>&packet[0]\<close> panics for an empty packet.\<close>

definition ReleaseReceivePacket ::
  "'w tunSys \<Rightarrow> procTable \<Rightarrow> Session \<Rightarrow> ringSlice \<Rightarrow> 'w \<Rightarrow> 'w goResult" where
  "ReleaseReceivePacket sys p s packet w =
     (if slLen packet = 0 then Panic
      else let (_, _, _, w) = tsCall sys (releasePacket p) (DReleasePacket (ssHandle s) (slPtr packet)) w
           in Ret w)"

definition AllocateSendPacket ::
  "'w tunSys \<Rightarrow> procTable \<Rightarrow> Session \<Rightarrow> int \<Rightarrow> 'w \<Rightarrow> (gerr + ringSlice) \<times> 'w" where
  "AllocateSendPacket sys p s sz w =
     (let (r0, _, e1, w) = tsCall sys (allocatePacket p) (DAllocatePacket (ssHandle s) (of_int sz)) w
      in if r0 = 0 then (Inl (Errno e1), w) else (Inr \<lparr>slPtr = r0, slLen = nat sz\<rparr>, w))"

definition SendPacket ::
  "'w tunSys \<Rightarrow> procTable \<Rightarrow> Session \<Rightarrow> ringSlice \<Rightarrow> 'w \<Rightarrow> 'w goResult" where
  "SendPacket sys p s packet w =
     (if slLen packet = 0 then Panic
      else let (_, _, _, w) = tsCall sys (sendPacket p) (DSendPacket (ssHandle s) (slPtr packet)) w
           in Ret w)"

section \<open>The batched device\<close>

definition batchSize :: nat where "batchSize = 128"
definition ringCapacity :: u32 where "ringCapacity = 0x800000"
definition spinBudget :: int where "spinBudget = 500000"

definition canSpin :: "'w tunSys \<Rightarrow> bool" where "canSpin sys \<longleftrightarrow> tsNumCPU sys > 1"

record NativeTun =
  ntObj :: nat
  ntAdapter :: Adapter
  ntSession :: Session
  ntName :: string
  ntMtu :: int
  ntReadWait :: Handle
  ntCloseOnce :: bool

definition CreateTUN ::
  "'w tunSys \<Rightarrow> string \<Rightarrow> int \<Rightarrow> tunGlobals \<Rightarrow> 'w \<Rightarrow> (gerr + NativeTun) \<times> tunGlobals \<times> 'w" where
  "CreateTUN sys name mtu g w =
     (case CreateAdapter sys name None g w of
        (Inl err, g, w) \<Rightarrow> (Inl err, g, w)
      | (Inr adapter, g, w) \<Rightarrow>
          (case StartSession sys (procs g) adapter ringCapacity w of
             (Inl err, w) \<Rightarrow>
               let (_, w) = adapterClose sys (procs g) adapter w
               in (Inl (Wrapf ''veiltun: start session: '' err), g, w)
           | (Inr session, w) \<Rightarrow>
               let mtu = (if mtu \<le> 0 then 1420 else mtu);
                   (readWait, w) = ReadWaitEvent sys (procs g) session w;
                   (obj, w) = tsNewTun sys w
               in (Inr \<lparr>ntObj = obj, ntAdapter = adapter, ntSession = session, ntName = name, ntMtu = mtu,
                        ntReadWait = readWait, ntCloseOnce = False\<rparr>, g, w)))"

definition tunName :: "NativeTun \<Rightarrow> string" where "tunName t = ntName t"
definition tunMTU :: "NativeTun \<Rightarrow> int" where "tunMTU t = ntMtu t"
definition tunBatchSize :: "NativeTun \<Rightarrow> nat" where "tunBatchSize t = batchSize"

definition tunLUID :: "'w tunSys \<Rightarrow> procTable \<Rightarrow> NativeTun \<Rightarrow> 'w \<Rightarrow> u64 \<times> 'w" where
  "tunLUID sys p t w = (if tsClosed sys (ntObj t) w then (0, w) else adapterLUID sys p (ntAdapter t) w)"

text \<open>
  \<^verbatim>\<open>sizes[i] = copy(bufs[i][offset:], packet)\<close>: \<^const>\<open>None\<close> is a panic, an offset outside the buffer
  or an index outside \<^verbatim>\<open>sizes\<close>.
\<close>

definition storePacket ::
  "int \<Rightarrow> nat \<Rightarrow> u8 list \<Rightarrow> u8 list list \<Rightarrow> int list \<Rightarrow> (u8 list list \<times> int list) option" where
  "storePacket offset i packet bufs sizes =
     (if offset < 0 \<or> offset > int (length (bufs ! i)) then None
      else
        let b = bufs ! i; o' = nat offset; dst = drop o' b;
            bufs = bufs[i := take o' b @ goCopy dst packet]
        in if i \<ge> length sizes then None
           else Some (bufs, sizes[i := int (min (length dst) (length packet))]))"

type_synonym 'w readResult = "(nat \<times> gerr option) goResult \<times> u8 list list \<times> int list \<times> 'w"

text \<open>
  The loop of \<^verbatim>\<open>Read\<close> from the label \<^verbatim>\<open>retry\<close> on, entered with the loop variables; \<open>spin\<close> is the
  deadline once \<^verbatim>\<open>spinning\<close> is true.  A read that waits forever is \<^const>\<open>None\<close>.
\<close>

partial_function (option) readLoop ::
  "'w tunSys \<Rightarrow> procTable \<Rightarrow> NativeTun \<Rightarrow> int \<Rightarrow> nat \<Rightarrow> nat \<Rightarrow> int option \<Rightarrow> u8 list list \<Rightarrow> int list
     \<Rightarrow> 'w \<Rightarrow> 'w readResult option" where
  "readLoop sys p t offset i n spin bufs sizes w =
     (if i < length bufs then
        if tsClosed sys (ntObj t) w then Some (Ret (if n > 0 then (n, None) else (0, Some ErrClosed)), bufs, sizes, w)
        else case ReceivePacket sys p (ntSession t) w of
          (Inr packet, w) \<Rightarrow>
            (case storePacket offset i (tsRead sys (slPtr packet) (slLen packet) w) bufs sizes of
               None \<Rightarrow> Some (Panic, bufs, sizes, w)
             | Some (bufs, sizes) \<Rightarrow>
                 (case ReleaseReceivePacket sys p (ntSession t) packet w of
                    Panic \<Rightarrow> Some (Panic, bufs, sizes, w)
                  | Ret w \<Rightarrow> readLoop sys p t offset (i + 1) (n + 1) spin bufs sizes w))
        | (Inl err, w) \<Rightarrow>
            if err = ERROR_NO_MORE_ITEMS then
              if n > 0 then Some (Ret (n, None), bufs, sizes, w)
              else if canSpin sys \<and> spin = None then
                readLoop sys p t offset i n (Some (fst (tsNow sys w) + spinBudget)) bufs sizes
                  (tsGosched sys (snd (tsNow sys w)))
              else if canSpin sys \<and> \<not> fst (tsNow sys w) > the spin then
                readLoop sys p t offset i n spin bufs sizes (tsGosched sys (snd (tsNow sys w)))
              else
                (let w = tsWaitForSingleObject sys (ntReadWait t)
                           (if canSpin sys then snd (tsNow sys w) else w)
                 in if tsClosed sys (ntObj t) w then Some (Ret (0, Some ErrClosed), bufs, sizes, w)
                    else readLoop sys p t offset 0 0 None bufs sizes w)
            else if err = ERROR_HANDLE_EOF then
              Some (Ret (if n > 0 then (n, None) else (0, Some ErrClosed)), bufs, sizes, w)
            else
              Some (Ret (if n > 0 then (n, None) else (0, Some (Wrapf ''veiltun: read: '' err))),
                    bufs, sizes, w)
      else Some (Ret (n, None), bufs, sizes, w))"

definition tunRead ::
  "'w tunSys \<Rightarrow> procTable \<Rightarrow> NativeTun \<Rightarrow> u8 list list \<Rightarrow> int list \<Rightarrow> int \<Rightarrow> 'w \<Rightarrow> 'w readResult option" where
  "tunRead sys p t bufs sizes offset w =
     (let w = tsRunningAdd sys (ntObj t) 1 w in
      map_option (\<lambda>(r, bufs, sizes, w). (r, bufs, sizes, tsRunningAdd sys (ntObj t) (-1) w))
        (if tsClosed sys (ntObj t) w then Some (Ret (0, Some ErrClosed), bufs, sizes, w)
         else readLoop sys p t offset 0 0 None bufs sizes w))"

text \<open>The loop of \<^verbatim>\<open>Write\<close> over the remaining buffers, at index \<open>i\<close>.\<close>

fun writeLoop ::
  "'w tunSys \<Rightarrow> procTable \<Rightarrow> NativeTun \<Rightarrow> int \<Rightarrow> nat \<Rightarrow> u8 list list \<Rightarrow> 'w
     \<Rightarrow> (nat \<times> gerr option) goResult \<times> 'w" where
  "writeLoop sys p t offset i [] w = (Ret (i, None), w)"
| "writeLoop sys p t offset i (buf # bufs) w =
     (let sz = int (length buf) - offset in
      if sz \<le> 0 \<or> sz > MaxPacketSize then writeLoop sys p t offset (i + 1) bufs w
      else case AllocateSendPacket sys p (ntSession t) sz w of
        (Inr packet, w) \<Rightarrow>
          if offset < 0 then (Panic, w)
          else
            (case SendPacket sys p (ntSession t) packet
                    (tsWrite sys (slPtr packet) (take (slLen packet) (drop (nat offset) buf)) w) of
               Panic \<Rightarrow> (Panic, w)
             | Ret w \<Rightarrow> writeLoop sys p t offset (i + 1) bufs w)
      | (Inl err, w) \<Rightarrow>
          if err = ERROR_BUFFER_OVERFLOW then writeLoop sys p t offset (i + 1) bufs w
          else if err = ERROR_HANDLE_EOF then (Ret (i, Some ErrClosed), w)
          else (Ret (i, Some (Wrapf ''veiltun: write: '' err)), w))"

definition tunWrite ::
  "'w tunSys \<Rightarrow> procTable \<Rightarrow> NativeTun \<Rightarrow> u8 list list \<Rightarrow> int \<Rightarrow> 'w \<Rightarrow> (nat \<times> gerr option) goResult \<times> 'w" where
  "tunWrite sys p t bufs offset w =
     (let w = tsRunningAdd sys (ntObj t) 1 w;
          (r, w) = (if tsClosed sys (ntObj t) w then (Ret (0, Some ErrClosed), w)
                    else writeLoop sys p t offset 0 bufs w)
      in (r, tsRunningAdd sys (ntObj t) (-1) w))"

definition tunClose :: "'w tunSys \<Rightarrow> procTable \<Rightarrow> NativeTun \<Rightarrow> 'w \<Rightarrow> NativeTun \<times> 'w" where
  "tunClose sys p t w =
     (if ntCloseOnce t then (t, w)
      else
        let w = tsSetClosed sys (ntObj t) w;
            w = tsSetEvent sys (ntReadWait t) w;
            w = tsRunningWait sys (ntObj t) w;
            (s, w) = sessionEnd sys p (ntSession t) w;
            (a, w) = adapterClose sys p (ntAdapter t) w
        in (t\<lparr>ntCloseOnce := True, ntSession := s, ntAdapter := a\<rparr>, w))"

section \<open>Resolving the symbols\<close>

definition symbolAddr :: "'w tunSys \<Rightarrow> uintptr \<Rightarrow> string \<Rightarrow> uintptr" where
  "symbolAddr sys module name = (case tsGetProcAddress sys module name of Inr a \<Rightarrow> a | Inl _ \<Rightarrow> 0)"

definition missingSymbol :: "'w tunSys \<Rightarrow> uintptr \<Rightarrow> string list \<Rightarrow> string option" where
  "missingSymbol sys module names = find (\<lambda>n. isl (tsGetProcAddress sys module n)) names"

abbreviation resolveAll ::
  "'w tunSys \<Rightarrow> uintptr \<Rightarrow> (string \<times> (uintptr \<Rightarrow> procTable \<Rightarrow> procTable)) list \<Rightarrow> tunGlobals \<Rightarrow> tunGlobals" where
  "resolveAll sys module xs g \<equiv> foldl (\<lambda>g (name, dst). resolve sys module name dst g) g xs"

lemma resolveAll_sticky: "loadErr g = Some e \<Longrightarrow> resolveAll sys module xs g = g"
  by (induction xs) (auto simp: resolve_def)

lemma resolveAll_missing:
  assumes "loadErr g = None" "missingSymbol sys module (map fst xs) = Some n"
  shows "loadErr (resolveAll sys module xs g)
    = Some (Wrapf (''veiltun: resolve '' @ n @ '': '') (projl (tsGetProcAddress sys module n)))"
  using assms
proof (induction xs arbitrary: g)
  case (Cons x xs)
  obtain name dst where x: "x = (name, dst)"
    by fastforce
  show ?case
  proof (cases "tsGetProcAddress sys module name")
    case (Inl err)
    then have "n = name"
      using Cons.prems(2) by (simp add: missingSymbol_def x)
    moreover have "loadErr (resolve sys module name dst g)
        = Some (Wrapf (''veiltun: resolve '' @ name @ '': '') err)"
      using Inl Cons.prems(1) by (simp add: resolve_def)
    ultimately show ?thesis
      using Inl by (simp add: x resolveAll_sticky)
  next
    case (Inr a)
    then show ?thesis
      using Cons by (simp add: x resolve_def missingSymbol_def)
  qed
qed (simp add: missingSymbol_def)

lemma resolveAll_found:
  assumes "loadErr g = None" "missingSymbol sys module (map fst xs) = None"
  shows "resolveAll sys module xs g
    = g\<lparr>procs := foldl (\<lambda>p (name, dst). dst (symbolAddr sys module name) p) (procs g) xs\<rparr>"
  using assms
proof (induction xs arbitrary: g)
  case (Cons x xs)
  obtain name dst where x: "x = (name, dst)"
    by fastforce
  obtain a where "tsGetProcAddress sys module name = Inr a"
    using Cons.prems(2) by (cases "tsGetProcAddress sys module name") (auto simp: x missingSymbol_def)
  then show ?case
    using Cons by (simp add: x resolve_def missingSymbol_def symbolAddr_def)
qed simp

lemma resolveAll_loadOnce: "loadOnce (resolveAll sys m xs h) = loadOnce h"
proof -
  have "loadOnce (resolve sys m n dst h) = loadOnce h" for n dst h
    by (simp add: resolve_def split: sum.splits)
  then show ?thesis
    by (induction xs arbitrary: h) (simp_all add: split_def)
qed

lemma load_loaded: "loadOnce (fst (snd (load sys g w)))"
  by (auto simp: load_def Let_def resolveAll_loadOnce split: prod.splits sum.splits)

section \<open>Releasing exactly once\<close>

text \<open>
  The contract of a handle that is given back: closing makes it closed, and closing a closed one
  does nothing, so that a second close never reaches the driver.
\<close>

locale closable =
  fixes close :: "'a \<Rightarrow> 'w \<Rightarrow> 'a \<times> 'w"
    and closed :: "'a \<Rightarrow> bool"
  assumes closes: "closed (fst (close a w))"
    and closed_noop: "closed a \<Longrightarrow> close a w = (a, w)"
begin

lemma close_twice: "close (fst (close a w)) w' = (fst (close a w), w')"
  by (simp add: closes closed_noop)

text \<open>Any number of further closes, at any times, leaves the state alone.\<close>

lemma close_many: "closed a \<Longrightarrow> foldl (\<lambda>(a, w) f. close a (f w)) (a, w) fs = (a, foldl (\<lambda>w f. f w) w fs)"
  by (induction fs arbitrary: w) (simp_all add: closed_noop)

end

interpretation ad: closable "adapterClose sys p" "\<lambda>a. adHandle a = 0" for sys :: "'w tunSys" and p
  by unfold_locales (simp_all add: adapterClose_def split: prod.splits)

interpretation se: closable "sessionEnd sys p" "\<lambda>s. ssHandle s = 0" for sys :: "'w tunSys" and p
  by unfold_locales (simp_all add: sessionEnd_def split: prod.splits)

interpretation nt: closable "tunClose sys p" ntCloseOnce for sys :: "'w tunSys" and p
  by unfold_locales (simp_all add: tunClose_def Let_def split: prod.splits)

section \<open>What the driver documents\<close>

text \<open>
  \<open>adapters\<close> and \<open>sessions\<close> are the live handles.  Creating and starting return a new nonzero
  handle or zero and no change; closing and ending remove theirs; nothing else changes them.
\<close>

definition documented_handles ::
  "'w tunSys \<Rightarrow> procTable \<Rightarrow> ('w \<Rightarrow> uintptr set) \<Rightarrow> ('w \<Rightarrow> uintptr set) \<Rightarrow> bool" where
  "documented_handles sys p adapters sessions \<longleftrightarrow>
     (\<forall>n ty gd w r0 x e w'. tsCall sys (createAdapter p) (DCreateAdapter n ty gd) w = (r0, x, e, w') \<longrightarrow>
        sessions w' = sessions w \<and>
        (if r0 = 0 then adapters w' = adapters w
         else r0 \<notin> adapters w \<and> adapters w' = insert r0 (adapters w))) \<and>
     (\<forall>h w r0 x e w'. tsCall sys (closeAdapter p) (DCloseAdapter h) w = (r0, x, e, w') \<longrightarrow>
        sessions w' = sessions w \<and> adapters w' = adapters w - {h}) \<and>
     (\<forall>h c w r0 x e w'. tsCall sys (startSession p) (DStartSession h c) w = (r0, x, e, w') \<longrightarrow>
        adapters w' = adapters w \<and>
        (if r0 = 0 then sessions w' = sessions w
         else r0 \<notin> sessions w \<and> sessions w' = insert r0 (sessions w))) \<and>
     (\<forall>h w r0 x e w'. tsCall sys (endSession p) (DEndSession h) w = (r0, x, e, w') \<longrightarrow>
        adapters w' = adapters w \<and> sessions w' = sessions w - {h}) \<and>
     (\<forall>h w r0 x e w'. tsCall sys (getReadWait p) (DGetReadWait h) w = (r0, x, e, w') \<longrightarrow>
        adapters w' = adapters w \<and> sessions w' = sessions w) \<and>
     (\<forall>n f w r w'. tsLoadLibraryEx sys n f w = (r, w') \<longrightarrow>
        adapters w' = adapters w \<and> sessions w' = sessions w) \<and>
     (\<forall>w r w'. tsNewTun sys w = (r, w') \<longrightarrow> adapters w' = adapters w \<and> sessions w' = sessions w) \<and>
     (\<forall>o' w. adapters (tsSetClosed sys o' w) = adapters w \<and> sessions (tsSetClosed sys o' w) = sessions w) \<and>
     (\<forall>h w. adapters (tsSetEvent sys h w) = adapters w \<and> sessions (tsSetEvent sys h w) = sessions w) \<and>
     (\<forall>o' w. adapters (tsRunningWait sys o' w) = adapters w \<and>
        sessions (tsRunningWait sys o' w) = sessions w)"

lemma handles_create:
  assumes "documented_handles sys p adapters sessions"
  shows "tsCall sys (createAdapter p) (DCreateAdapter n ty gd) w = (r0, x, e, w') \<Longrightarrow>
      sessions w' = sessions w \<and>
      (if r0 = 0 then adapters w' = adapters w
       else r0 \<notin> adapters w \<and> adapters w' = insert r0 (adapters w))"
  using assms unfolding documented_handles_def by metis

lemma handles_close:
  assumes "documented_handles sys p adapters sessions"
  shows "tsCall sys (closeAdapter p) (DCloseAdapter h) w = (r0, x, e, w') \<Longrightarrow>
      sessions w' = sessions w \<and> adapters w' = adapters w - {h}"
  using assms unfolding documented_handles_def by metis

lemma handles_start:
  assumes "documented_handles sys p adapters sessions"
  shows "tsCall sys (startSession p) (DStartSession h c) w = (r0, x, e, w') \<Longrightarrow>
      adapters w' = adapters w \<and>
      (if r0 = 0 then sessions w' = sessions w
       else r0 \<notin> sessions w \<and> sessions w' = insert r0 (sessions w))"
  using assms unfolding documented_handles_def by metis

lemma handles_end:
  assumes "documented_handles sys p adapters sessions"
  shows "tsCall sys (endSession p) (DEndSession h) w = (r0, x, e, w') \<Longrightarrow>
      adapters w' = adapters w \<and> sessions w' = sessions w - {h}"
  using assms unfolding documented_handles_def by metis

lemma handles_event:
  assumes "documented_handles sys p adapters sessions"
  shows "tsCall sys (getReadWait p) (DGetReadWait h) w = (r0, x, e, w') \<Longrightarrow>
      adapters w' = adapters w \<and> sessions w' = sessions w"
  using assms unfolding documented_handles_def by metis

lemma handles_load:
  assumes "documented_handles sys p adapters sessions"
  shows "tsLoadLibraryEx sys nm f w = (r, w') \<Longrightarrow> adapters w' = adapters w \<and> sessions w' = sessions w"
  using assms unfolding documented_handles_def by metis

lemma handles_alloc:
  assumes "documented_handles sys p adapters sessions"
  shows "tsNewTun sys w = (r, w') \<Longrightarrow> adapters w' = adapters w \<and> sessions w' = sessions w"
  using assms unfolding documented_handles_def by metis

lemma documented_handles_sync:
  assumes "documented_handles sys p adapters sessions"
  shows "adapters (tsRunningWait sys o1 (tsSetEvent sys ev (tsSetClosed sys o2 w))) = adapters w"
    "sessions (tsRunningWait sys o1 (tsSetEvent sys ev (tsSetClosed sys o2 w))) = sessions w"
  using assms unfolding documented_handles_def by simp_all

lemma load_handles:
  assumes "documented_handles sys p adapters sessions" "load sys g w = (e, g', w')"
  shows "adapters w' = adapters w \<and> sessions w' = sessions w"
  using assms(2) handles_load [OF assms(1)]
  by (auto simp: load_def Let_def split: if_splits prod.splits sum.splits)

lemma CreateAdapter_handles:
  assumes "documented_handles sys (procs (fst (snd (load sys g w)))) adapters sessions"
    and "CreateAdapter sys name gd g w = (r, g', w')"
  shows "sessions w' = sessions w \<and> (\<forall>a. r = Inr a \<longrightarrow> g' = fst (snd (load sys g w))) \<and>
    (case r of Inl _ \<Rightarrow> adapters w' = adapters w
     | Inr a \<Rightarrow> adHandle a \<noteq> 0 \<and> adHandle a \<notin> adapters w \<and> adapters w' = insert (adHandle a) (adapters w))"
proof -
  obtain e g1 w1 where l: "load sys g w = (e, g1, w1)"
    by (metis prod.exhaust)
  have docs: "documented_handles sys (procs g1) adapters sessions"
    using assms(1) l by simp
  have same: "adapters w1 = adapters w" "sessions w1 = sessions w"
    using load_handles [OF docs l] by auto
  have g': "g' = g1"
    using assms(2) l
    by (auto simp: CreateAdapter_def Let_def split: option.splits sum.splits prod.splits if_splits)
  show ?thesis
    using assms(2) [unfolded g'] l same
    by (auto simp: g' CreateAdapter_def Let_def split: option.splits sum.splits prod.splits if_splits
        dest!: handles_create [OF docs])
qed

lemma adapterClose_handles:
  assumes "documented_handles sys p adapters sessions" "adapterClose sys p a w = (a', w')"
    and "adHandle a \<noteq> 0"
  shows "sessions w' = sessions w \<and> adapters w' = adapters w - {adHandle a}"
  using assms(2,3)
  by (auto simp: adapterClose_def split: prod.splits dest!: handles_close [OF assms(1)])

lemma sessionEnd_handles:
  assumes "documented_handles sys p adapters sessions" "sessionEnd sys p s w = (s', w')"
    and "ssHandle s \<noteq> 0"
  shows "adapters w' = adapters w \<and> sessions w' = sessions w - {ssHandle s}"
  using assms(2,3)
  by (auto simp: sessionEnd_def split: prod.splits dest!: handles_end [OF assms(1)])

lemma StartSession_handles:
  assumes "documented_handles sys p adapters sessions" "StartSession sys p a c w = (r, w')"
  shows "adapters w' = adapters w \<and>
    (case r of Inl _ \<Rightarrow> sessions w' = sessions w
     | Inr s \<Rightarrow> ssHandle s \<noteq> 0 \<and> ssHandle s \<notin> sessions w \<and> sessions w' = insert (ssHandle s) (sessions w))"
  using assms(2)
  by (auto simp: StartSession_def Let_def split: prod.splits if_splits dest!: handles_start [OF assms(1)])

lemma ReadWaitEvent_handles:
  assumes "documented_handles sys p adapters sessions" "ReadWaitEvent sys p s w = (h, w')"
  shows "adapters w' = adapters w \<and> sessions w' = sessions w"
  using assms(2)
  by (auto simp: ReadWaitEvent_def Let_def split: prod.splits dest!: handles_event [OF assms(1)])

lemma CreateTUN_handles:
  assumes "documented_handles sys (procs (fst (snd (load sys g w)))) adapters sessions"
    and "CreateTUN sys name mtu g w = (r, g', w')"
  shows "case r of Inl _ \<Rightarrow> adapters w' = adapters w \<and> sessions w' = sessions w
    | Inr t \<Rightarrow> procs g' = procs (fst (snd (load sys g w))) \<and> 0 < ntMtu t \<and> \<not> ntCloseOnce t \<and>
        adHandle (ntAdapter t) \<noteq> 0 \<and> adHandle (ntAdapter t) \<notin> adapters w \<and>
        adapters w' = insert (adHandle (ntAdapter t)) (adapters w) \<and>
        ssHandle (ntSession t) \<noteq> 0 \<and> ssHandle (ntSession t) \<notin> sessions w \<and>
        sessions w' = insert (ssHandle (ntSession t)) (sessions w)"
proof -
  obtain ra g1 w1 where ca: "CreateAdapter sys name None g w = (ra, g1, w1)"
    by (metis prod.exhaust)
  note A = CreateAdapter_handles [OF assms(1) ca]
  show ?thesis
  proof (cases ra)
    case (Inl err)
    then show ?thesis
      using assms(2) ca A by (auto simp: CreateTUN_def)
  next
    case (Inr a)
    then have docs: "documented_handles sys (procs g1) adapters sessions"
      using assms(1) A by auto
    obtain rs w2 where st: "StartSession sys (procs g1) a ringCapacity w1 = (rs, w2)"
      by fastforce
    note S = StartSession_handles [OF docs st]
    show ?thesis
    proof (cases rs)
      case (Inl err)
      obtain a' w3 where cl: "adapterClose sys (procs g1) a w2 = (a', w3)"
        by fastforce
      then have "r = Inl (Wrapf ''veiltun: start session: '' err)" "w' = w3"
        using assms(2) ca st Inr Inl by (auto simp: CreateTUN_def Let_def)
      then show ?thesis
        using adapterClose_handles [OF docs cl] A S Inr Inl by auto
    next
      case s: (Inr s)
      obtain h w3 where rw: "ReadWaitEvent sys (procs g1) s w2 = (h, w3)"
        by fastforce
      obtain obj w4 where al: "tsNewTun sys w3 = (obj, w4)"
        by fastforce
      have "r = Inr \<lparr>ntObj = obj, ntAdapter = a, ntSession = s, ntName = name,
          ntMtu = (if mtu \<le> 0 then 1420 else mtu), ntReadWait = h, ntCloseOnce = False\<rparr>" "w' = w4" "g' = g1"
        using assms(2) ca st Inr s rw al by (auto simp: CreateTUN_def Let_def)
      then show ?thesis
        using ReadWaitEvent_handles [OF docs rw] handles_alloc [OF docs al] A S Inr s by auto
    qed
  qed
qed

lemma tunClose_handles:
  assumes "documented_handles sys p adapters sessions" "tunClose sys p t w = (t', w')"
    and "\<not> ntCloseOnce t" "adHandle (ntAdapter t) \<noteq> 0" "ssHandle (ntSession t) \<noteq> 0"
  shows "adapters w' = adapters w - {adHandle (ntAdapter t)} \<and>
    sessions w' = sessions w - {ssHandle (ntSession t)}"
proof -
  let ?w = "tsRunningWait sys (ntObj t) (tsSetEvent sys (ntReadWait t) (tsSetClosed sys (ntObj t) w))"
  obtain s1 w1 where e: "sessionEnd sys p (ntSession t) ?w = (s1, w1)"
    by fastforce
  obtain a1 where c: "adapterClose sys p (ntAdapter t) w1 = (a1, w')"
    using assms(2,3) e by (auto simp: tunClose_def Let_def split: prod.splits)
  show ?thesis
    using sessionEnd_handles [OF assms(1) e assms(5)] adapterClose_handles [OF assms(1) c assms(4)]
      documented_handles_sync [OF assms(1)] by simp
qed

section \<open>Properties\<close>

text \<open>
  The driver is loaded once, from the trusted directories only.  The first call asks for
  the VEIL-named DLL with exactly the application-directory and System32 flags; a loader failure
  is the result; otherwise the result is the error of the first symbol, in order, that is
  missing, or every field of the table holds the address of its own symbol.
\<close>

theorem load_resolves:
  "case tsLoadLibraryEx sys ''veiltun.dll'' 0xA00 w of
     (Inl err, w') \<Rightarrow>
       load sys initGlobals w = (Some (Wrapf ''veiltun: load veiltun.dll: '' err),
         \<lparr>loadOnce = True, loadErr = Some (Wrapf ''veiltun: load veiltun.dll: '' err), procs = zeroProcs\<rparr>, w')
   | (Inr m, w') \<Rightarrow>
       (case missingSymbol sys m (map fst symbols) of
          Some n \<Rightarrow> (\<exists>g. load sys initGlobals w =
            (Some (Wrapf (''veiltun: resolve '' @ n @ '': '') (projl (tsGetProcAddress sys m n))), g, w'))
        | None \<Rightarrow> load sys initGlobals w = (None, \<lparr>loadOnce = True, loadErr = None, procs =
            \<lparr>createAdapter = symbolAddr sys m ''WintunCreateAdapter'',
             openAdapter = symbolAddr sys m ''WintunOpenAdapter'',
             closeAdapter = symbolAddr sys m ''WintunCloseAdapter'',
             deleteDriver = symbolAddr sys m ''WintunDeleteDriver'',
             getAdapterLUID = symbolAddr sys m ''WintunGetAdapterLUID'',
             runningVersion = symbolAddr sys m ''WintunGetRunningDriverVersion'',
             startSession = symbolAddr sys m ''WintunStartSession'',
             endSession = symbolAddr sys m ''WintunEndSession'',
             getReadWait = symbolAddr sys m ''WintunGetReadWaitEvent'',
             receivePacket = symbolAddr sys m ''WintunReceivePacket'',
             releasePacket = symbolAddr sys m ''WintunReleaseReceivePacket'',
             allocatePacket = symbolAddr sys m ''WintunAllocateSendPacket'',
             sendPacket = symbolAddr sys m ''WintunSendPacket''\<rparr>\<rparr>, w'))"
proof -
  let ?g = "initGlobals\<lparr>loadOnce := True\<rparr>"
  have flags: "safeSearchFlags = 0xA00"
    by (simp add: safeSearchFlags_def)
  have clean: "loadErr ?g = None"
    by (simp add: initGlobals_def)
  have first: "\<not> loadOnce initGlobals"
    by (simp add: initGlobals_def)
  obtain r w' where l: "tsLoadLibraryEx sys ''veiltun.dll'' 0xA00 w = (r, w')"
    by fastforce
  show ?thesis
  proof (cases r)
    case (Inl err)
    then show ?thesis
      using l by (simp add: load_def flags driverDLL_def initGlobals_def Let_def)
  next
    case (Inr m)
    have run: "load sys initGlobals w = (loadErr (resolveAll sys m symbols ?g), resolveAll sys m symbols ?g, w')"
      using l Inr first by (simp add: load_def flags driverDLL_def Let_def)
    show ?thesis
    proof (cases "missingSymbol sys m (map fst symbols)")
      case (Some n)
      show ?thesis
        using l Inr Some unfolding run resolveAll_missing [OF clean Some] by simp
    next
      case None
      show ?thesis
        using l Inr None unfolding run resolveAll_found [OF clean None]
        by (simp add: symbols_def initGlobals_def zeroProcs_def)
    qed
  qed
qed

text \<open>
  Loading happens at most once.  Whatever the first call returned, every later call returns
  the same result, changes nothing and asks the system nothing, in whatever state.
\<close>

theorem load_once:
  "case load sys g w of (e, g', w') \<Rightarrow> load sys g' w'' = (e, g', w'')"
proof -
  obtain e g' w' where l: "load sys g w = (e, g', w')"
    by (metis prod.exhaust)
  have "loadOnce g' \<and> loadErr g' = e"
  proof (cases "loadOnce g")
    case False
    obtain r w1 where "tsLoadLibraryEx sys driverDLL safeSearchFlags w = (r, w1)"
      by fastforce
    then show ?thesis
      using l False by (cases r) (auto simp: load_def Let_def resolveAll_loadOnce)
  qed (use l in \<open>auto simp: load_def\<close>)
  then have "load sys g' w'' = (e, g', w'')"
    by (simp add: load_def)
  then show ?thesis
    using l by simp
qed

text \<open>
  C26: creating and closing the device balances the driver's handles.  A failed \<^verbatim>\<open>CreateTUN\<close>
  leaves no adapter and no session behind, even when only the session failed to start.  A
  successful one adds one new adapter and one new session, with a positive MTU, and its \<^verbatim>\<open>Close\<close>, in
  any later state that still has exactly those handles, gives both back; closing again does
  nothing.
\<close>

theorem tun_lifecycle:
  assumes "p = procs (fst (snd (load sys g w)))" "documented_handles sys p adapters sessions"
  shows "case CreateTUN sys name mtu g w of
      (Inl err, g', w') \<Rightarrow> adapters w' = adapters w \<and> sessions w' = sessions w
    | (Inr t, g', w') \<Rightarrow> procs g' = p \<and> 0 < tunMTU t \<and>
        (\<forall>v. adapters v = adapters w' \<and> sessions v = sessions w' \<longrightarrow>
          (case tunClose sys p t v of (t', v') \<Rightarrow>
             adapters v' = adapters w \<and> sessions v' = sessions w \<and>
             (\<forall>v2. tunClose sys p t' v2 = (t', v2))))"
proof -
  obtain r g' w' where c: "CreateTUN sys name mtu g w = (r, g', w')"
    by (metis prod.exhaust)
  note T = CreateTUN_handles [OF assms(2) [unfolded assms(1)] c]
  show ?thesis
  proof (cases r)
    case (Inr t)
    have close: "case tunClose sys p t v of (t', v') \<Rightarrow> adapters v' = adapters w \<and>
        sessions v' = sessions w \<and> (\<forall>v2. tunClose sys p t' v2 = (t', v2))"
      if v: "adapters v = adapters w' \<and> sessions v = sessions w'" for v
    proof (cases "tunClose sys p t v")
      case (Pair t' v')
      have "tunClose sys p t' v2 = (t', v2)" for v2
        using nt.close_twice [of sys p t v v2] Pair by simp
      then show ?thesis
        using tunClose_handles [OF assms(2) Pair] T Inr v Pair by auto
    qed
    have "procs g' = p \<and> 0 < ntMtu t"
      using T Inr assms(1) by simp
    then show ?thesis
      unfolding c Inr prod.case sum.case tunMTU_def using close by blast
  qed (use c T in auto)
qed

section \<open>The data path\<close>

text \<open>
  \<open>rx\<close> is the queue of inbound packets, \<open>tx\<close> the packets sent so far.  Receiving hands out the
  head of the queue as ring memory, or, when there is none, fails with \<open>fin\<close>: nothing there yet, the
  end of the session, or a damaged ring; a reserved send slot that is
  filled and committed appends its content.  Neither the rings nor the wait group touch the
  closed flag.
\<close>

definition documented_rx ::
  "'w tunSys \<Rightarrow> procTable \<Rightarrow> NativeTun \<Rightarrow> ('w \<Rightarrow> u8 list list) \<Rightarrow> ('w \<Rightarrow> u32) \<Rightarrow> bool" where
  "documented_rx sys p t rx fin \<longleftrightarrow>
     (\<forall>w. case tsCall sys (receivePacket p) (DReceivePacket (ssHandle (ntSession t))) w of (r0, sz, e1, w') \<Rightarrow>
        tsClosed sys (ntObj t) w' = tsClosed sys (ntObj t) w \<and>
        (case rx w of [] \<Rightarrow> r0 = 0 \<and> e1 = fin w \<and> rx w' = []
         | pk # rest \<Rightarrow> r0 \<noteq> 0 \<and> pk \<noteq> [] \<and> unat (ucast sz :: u32) = length pk \<and>
             tsRead sys r0 (length pk) w' = pk \<and> rx w' = rest)) \<and>
     (\<forall>ptr w. case tsCall sys (releasePacket p) (DReleasePacket (ssHandle (ntSession t)) ptr) w of (r0, x, e1, w') \<Rightarrow>
        tsClosed sys (ntObj t) w' = tsClosed sys (ntObj t) w \<and> rx w' = rx w) \<and>
     (\<forall>k w. tsClosed sys (ntObj t) (tsRunningAdd sys (ntObj t) k w) = tsClosed sys (ntObj t) w \<and> rx (tsRunningAdd sys (ntObj t) k w) = rx w \<and> fin (tsRunningAdd sys (ntObj t) k w) = fin w)"

lemma ReceivePacket_rx:
  assumes "documented_rx sys p t rx fin"
  shows "rx w = [] \<Longrightarrow> \<exists>w'. ReceivePacket sys p (ntSession t) w = (Inl (Errno (fin w)), w') \<and> rx w' = [] \<and>
      tsClosed sys (ntObj t) w' = tsClosed sys (ntObj t) w"
    and "rx w = pk # rest \<Longrightarrow> \<exists>sl w'. ReceivePacket sys p (ntSession t) w = (Inr sl, w') \<and> slLen sl = length pk \<and>
      pk \<noteq> [] \<and> tsRead sys (slPtr sl) (slLen sl) w' = pk \<and> rx w' = rest \<and> tsClosed sys (ntObj t) w' = tsClosed sys (ntObj t) w"
proof -
  obtain r0 sz e1 w' where call: "tsCall sys (receivePacket p) (DReceivePacket (ssHandle (ntSession t))) w = (r0, sz, e1, w')"
    by (metis prod.exhaust)
  have doc: "tsClosed sys (ntObj t) w' = tsClosed sys (ntObj t) w \<and>
      (case rx w of [] \<Rightarrow> r0 = 0 \<and> e1 = fin w \<and> rx w' = []
       | pk # rest \<Rightarrow> r0 \<noteq> 0 \<and> pk \<noteq> [] \<and> unat (ucast sz :: u32) = length pk \<and>
           tsRead sys r0 (length pk) w' = pk \<and> rx w' = rest)"
    using assms call unfolding documented_rx_def by (auto dest: spec [of _ w])
  show "rx w = [] \<Longrightarrow> \<exists>w'. ReceivePacket sys p (ntSession t) w = (Inl (Errno (fin w)), w') \<and> rx w' = [] \<and>
      tsClosed sys (ntObj t) w' = tsClosed sys (ntObj t) w"
    using doc call by (simp add: ReceivePacket_def)
  show "rx w = pk # rest \<Longrightarrow> \<exists>sl w'. ReceivePacket sys p (ntSession t) w = (Inr sl, w') \<and> slLen sl = length pk \<and>
      pk \<noteq> [] \<and> tsRead sys (slPtr sl) (slLen sl) w' = pk \<and> rx w' = rest \<and> tsClosed sys (ntObj t) w' = tsClosed sys (ntObj t) w"
    using doc call by (simp add: ReceivePacket_def)
qed

lemma ReleaseReceivePacket_rx:
  assumes "documented_rx sys p t rx fin" "slLen sl \<noteq> 0"
  shows "\<exists>w'. ReleaseReceivePacket sys p (ntSession t) sl w = Ret w' \<and> rx w' = rx w \<and> tsClosed sys (ntObj t) w' = tsClosed sys (ntObj t) w"
proof -
  obtain r0 x e1 w' where call: "tsCall sys (releasePacket p) (DReleasePacket (ssHandle (ntSession t)) (slPtr sl)) w = (r0, x, e1, w')"
    by (metis prod.exhaust)
  have "tsClosed sys (ntObj t) w' = tsClosed sys (ntObj t) w \<and> rx w' = rx w"
    using assms(1) call unfolding documented_rx_def by (metis (mono_tags, lifting) case_prod_conv)
  then show ?thesis
    using call assms(2) by (simp add: ReleaseReceivePacket_def)
qed

text \<open>What a buffer and its size hold after a packet was stored in it.\<close>

definition filledBuf :: "nat \<Rightarrow> u8 list \<Rightarrow> u8 list \<Rightarrow> u8 list" where
  "filledBuf off b pk = take off b @ goCopy (drop off b) pk"

definition filledSize :: "nat \<Rightarrow> u8 list \<Rightarrow> u8 list \<Rightarrow> int" where
  "filledSize off b pk = int (min (length b - off) (length pk))"

lemma storePacket_ok:
  assumes "off \<le> length (bufs ! i)" "i < length sizes"
  shows "storePacket (int off) i pk bufs sizes
    = Some (bufs[i := filledBuf off (bufs ! i) pk], sizes[i := filledSize off (bufs ! i) pk])"
  using assms by (simp add: storePacket_def filledBuf_def filledSize_def Let_def)

lemma update_take_drop:
  "i < length xs \<Longrightarrow> take (Suc i) (xs[i := x]) = take i xs @ [x]"
  "i < k \<Longrightarrow> drop k (xs[i := x]) = drop k xs"
  by (simp_all add: take_Suc_conv_app_nth)

lemma readLoop_delivers:
  assumes "documented_rx sys p t rx fin"
  shows "rx w = ps \<Longrightarrow> \<not> tsClosed sys (ntObj t) w \<Longrightarrow> i \<le> length bufs \<Longrightarrow> length bufs \<le> length sizes \<Longrightarrow>
    \<forall>b\<in>set (drop i bufs). off \<le> length b \<Longrightarrow> n > 0 \<or> ps \<noteq> [] \<or> i = length bufs \<Longrightarrow>
    m = min (length bufs - i) (length ps) \<Longrightarrow>
    \<exists>w'. readLoop sys p t (int off) i n spin bufs sizes w =
        Some (Ret (n + m, None), take i bufs @ map2 (filledBuf off) (drop i bufs) ps @ drop (i + m) bufs,
              take i sizes @ map2 (filledSize off) (drop i bufs) ps @ drop (i + m) sizes, w') \<and>
      rx w' = drop m ps"
proof (induction ps arbitrary: i n m spin bufs sizes w)
  case Nil
  obtain w' where r: "ReceivePacket sys p (ntSession t) w = (Inl (Errno (fin w)), w')" "rx w' = []"
    using ReceivePacket_rx(1) [OF assms Nil.prems(1)] by blast
  show ?case
    using Nil.prems r by (subst readLoop.simps) (auto simp: Let_def)
next
  case (Cons pk ps)
  show ?case
  proof (cases "i < length bufs")
    case False
    then show ?thesis
      using Cons.prems by (subst readLoop.simps) simp
  next
    case True
    obtain sl w1 where r: "ReceivePacket sys p (ntSession t) w = (Inr sl, w1)" "slLen sl = length pk"
        "pk \<noteq> []" "tsRead sys (slPtr sl) (slLen sl) w1 = pk" "rx w1 = ps" "tsClosed sys (ntObj t) w1 = tsClosed sys (ntObj t) w"
      using ReceivePacket_rx(2) [OF assms Cons.prems(1)] by blast
    obtain w2 where rel: "ReleaseReceivePacket sys p (ntSession t) sl w1 = Ret w2" "rx w2 = ps"
        "tsClosed sys (ntObj t) w2 = tsClosed sys (ntObj t) w"
      using ReleaseReceivePacket_rx [OF assms, of sl w1] r by auto
    have drop_i: "drop i bufs = bufs ! i # drop (Suc i) bufs"
      using True by (simp add: Cons_nth_drop_Suc)
    let ?bufs = "bufs[i := filledBuf off (bufs ! i) pk]" and ?sizes = "sizes[i := filledSize off (bufs ! i) pk]"
    have "storePacket (int off) i pk bufs sizes = Some (?bufs, ?sizes)"
      using Cons.prems(4,5) True drop_i by (intro storePacket_ok) auto
    then have step: "readLoop sys p t (int off) i n spin bufs sizes w
        = readLoop sys p t (int off) (Suc i) (Suc n) spin ?bufs ?sizes w2"
      using True Cons.prems(2) r rel by (subst readLoop.simps) simp
    have m: "m = Suc (min (length ?bufs - Suc i) (length ps))"
      using Cons.prems(7) True by simp
    show ?thesis
      using Cons.IH [of w2 "Suc i" ?bufs ?sizes "Suc n" "min (length ?bufs - Suc i) (length ps)" spin]
        Cons.prems(2,4,5) True rel drop_i
      by (simp add: step update_take_drop m)
  qed
qed

text \<open>The error of a read that found nothing and cannot wait.\<close>

definition readError :: "u32 \<Rightarrow> gerr" where
  "readError e = (if Errno e = ERROR_HANDLE_EOF then ErrClosed else Wrapf ''veiltun: read: '' (Errno e))"

lemma readLoop_fails:
  assumes "documented_rx sys p t rx fin" "rx w = []" "\<not> tsClosed sys (ntObj t) w" "bufs \<noteq> []"
    and "Errno (fin w) \<noteq> ERROR_NO_MORE_ITEMS"
  shows "\<exists>w'. readLoop sys p t off 0 0 spin bufs sizes w = Some (Ret (0, Some (readError (fin w))), bufs, sizes, w') \<and> rx w' = []"
proof -
  obtain w' where "ReceivePacket sys p (ntSession t) w = (Inl (Errno (fin w)), w')" "rx w' = []"
    using ReceivePacket_rx(1) [OF assms(1,2)] by blast
  then show ?thesis
    using assms(3-5) by (subst readLoop.simps) (auto simp: readError_def)
qed

text \<open>
  C11: reading a batch.  On an open device with packets waiting, \<^verbatim>\<open>Read\<close> returns without
  blocking, taking as many packets as there are buffers for: packet i is at the offset of buffer
  i, truncated to the room there, its size is reported, later buffers are untouched, and the
  packets are taken in order from the front of the queue.  A failure of the driver behind them is not
  reported with them; with no packet before it, it is the result: \<^verbatim>\<open>os.ErrClosed\<close> at the end of the session,
  otherwise the driver's error, with all buffers as they were.
\<close>

theorem Read_delivers_batch:
  assumes "documented_rx sys p t rx fin"
    and "\<not> tsClosed sys (ntObj t) w" "length bufs \<le> length sizes" "\<forall>b\<in>set bufs. off \<le> length b"
    and "rx w \<noteq> [] \<or> bufs = [] \<or> Errno (fin w) \<noteq> ERROR_NO_MORE_ITEMS"
    and "n = min (length bufs) (length (rx w))"
  shows "\<exists>w'. tunRead sys p t bufs sizes (int off) w =
      Some (Ret (n, if n > 0 \<or> bufs = [] then None else Some (readError (fin w))),
            map2 (filledBuf off) bufs (rx w) @ drop n bufs,
            map2 (filledSize off) bufs (rx w) @ drop n sizes, w') \<and>
    rx w' = drop n (rx w)"
proof -
  let ?w = "tsRunningAdd sys (ntObj t) 1 w"
  have run: "rx (tsRunningAdd sys (ntObj t) k v) = rx v" "fin (tsRunningAdd sys (ntObj t) k v) = fin v"
    "tsClosed sys (ntObj t) (tsRunningAdd sys (ntObj t) k v) = tsClosed sys (ntObj t) v" for k v
    using assms(1) by (simp_all add: documented_rx_def)
  show ?thesis
  proof (cases "rx w \<noteq> [] \<or> bufs = []")
    case True
    then show ?thesis
      using readLoop_delivers [OF assms(1), of ?w "rx w" 0 bufs sizes off 0 n None] assms run
      by (auto simp: tunRead_def)
  next
    case False
    then show ?thesis
      using readLoop_fails [OF assms(1), of ?w bufs "int off" None sizes] assms run
      by (auto simp: tunRead_def)
  qed
qed

definition documented_tx :: "'w tunSys \<Rightarrow> procTable \<Rightarrow> Session \<Rightarrow> ('w \<Rightarrow> u8 list list) \<Rightarrow> bool" where
  "documented_tx sys p s tx \<longleftrightarrow>
     (\<forall>sz w. case tsCall sys (allocatePacket p) (DAllocatePacket (ssHandle s) sz) w of (r0, x, e1, w') \<Rightarrow>
        tx w' = tx w \<and>
        (r0 \<noteq> 0 \<longrightarrow> (\<forall>d. length d = unat sz \<longrightarrow>
           tx (snd (snd (snd (tsCall sys (sendPacket p) (DSendPacket (ssHandle s) r0) (tsWrite sys r0 d w')))))
             = tx w @ [d]))) \<and>
     (\<forall>o' k w. tx (tsRunningAdd sys o' k w) = tx w)"

definition sendable :: "nat \<Rightarrow> u8 list \<Rightarrow> bool" where
  "sendable off b \<longleftrightarrow> off < length b \<and> length b - off \<le> 65535"

lemma sendable_size:
  "(int (length b) - int off \<le> 0 \<or> int (length b) - int off > MaxPacketSize) \<longleftrightarrow> \<not> sendable off b"
  by (auto simp: sendable_def MaxPacketSize_def)

lemma writeLoop_skip:
  "\<not> sendable off b \<Longrightarrow>
     writeLoop sys p t (int off) i (b # bs) w = writeLoop sys p t (int off) (Suc i) bs w"
  using sendable_size [of b off] by (simp add: Let_def)

lemma writeLoop_sendable:
  assumes "sendable off b"
  shows "writeLoop sys p t (int off) i (b # bs) w =
    (case tsCall sys (allocatePacket p) (DAllocatePacket (ssHandle (ntSession t)) (of_nat (length b - off))) w of
       (r0, _, e1, w) \<Rightarrow>
         if r0 \<noteq> 0
         then writeLoop sys p t (int off) (Suc i) bs
                (snd (snd (snd (tsCall sys (sendPacket p) (DSendPacket (ssHandle (ntSession t)) r0)
                   (tsWrite sys r0 (drop off b) w)))))
         else if Errno e1 = ERROR_BUFFER_OVERFLOW then writeLoop sys p t (int off) (Suc i) bs w
         else if Errno e1 = ERROR_HANDLE_EOF then (Ret (i, Some ErrClosed), w)
         else (Ret (i, Some (Wrapf ''veiltun: write: '' (Errno e1))), w))"
proof -
  have "int (length b) - int off = int (length b - off)" "length b - off \<noteq> 0"
    "\<not> (int (length b - off) \<le> 0 \<or> int (length b - off) > MaxPacketSize)"
    using assms by (auto simp: sendable_def MaxPacketSize_def)
  then show ?thesis
    unfolding writeLoop.simps AllocateSendPacket_def SendPacket_def Let_def
    by (auto split: prod.splits)
qed

text \<open>One sendable buffer: committed, dropped on a full ring, or the end of the write.\<close>

lemma writeLoop_step:
  assumes "documented_tx sys p (ntSession t) tx" "sendable off b"
  obtains (sent) w' where "tx w' = tx w @ [drop off b]"
      "writeLoop sys p t (int off) i (b # bs) w = writeLoop sys p t (int off) (Suc i) bs w'"
    | (full) w' where "tx w' = tx w"
      "writeLoop sys p t (int off) i (b # bs) w = writeLoop sys p t (int off) (Suc i) bs w'"
      "fst (tsCall sys (allocatePacket p)
         (DAllocatePacket (ssHandle (ntSession t)) (of_nat (length b - off))) w) = 0"
    | (fail) e w' where "tx w' = tx w" "writeLoop sys p t (int off) i (b # bs) w = (Ret (i, Some e), w')"
      "fst (tsCall sys (allocatePacket p)
         (DAllocatePacket (ssHandle (ntSession t)) (of_nat (length b - off))) w) = 0"
proof -
  let ?s = "ntSession t" and ?n = "length b - off"
  obtain r0 x e1 w1 where alloc: "tsCall sys (allocatePacket p) (DAllocatePacket (ssHandle ?s) (of_nat ?n)) w
      = (r0, x, e1, w1)"
    by (metis prod.exhaust)
  have sz: "?n < 2 ^ LENGTH(64)"
    using assms(2) by (auto simp: sendable_def)
  have "case (r0, x, e1, w1) of (r0, x, e1, w') \<Rightarrow> tx w' = tx w \<and>
      (r0 \<noteq> 0 \<longrightarrow> (\<forall>d. length d = unat (of_nat ?n :: u64) \<longrightarrow>
         tx (snd (snd (snd (tsCall sys (sendPacket p) (DSendPacket (ssHandle ?s) r0) (tsWrite sys r0 d w')))))
           = tx w @ [d]))"
    unfolding alloc [symmetric] using assms(1) unfolding documented_tx_def
    by (elim conjE allE [of _ "of_nat ?n :: u64"] allE [of _ w])
  note body = this [unfolded prod.case unat_of_nat_small [OF sz]]
  have doc: "tx w1 = tx w" "r0 \<noteq> 0 \<Longrightarrow> length d = ?n \<Longrightarrow>
      tx (snd (snd (snd (tsCall sys (sendPacket p) (DSendPacket (ssHandle ?s) r0) (tsWrite sys r0 d w1)))))
        = tx w @ [d]" for d
    by (rule body [THEN conjunct1], rule body [THEN conjunct2, rule_format])
  show thesis
  proof (cases "r0 = 0")
    case True
    show thesis
    proof (cases "Errno e1 = ERROR_BUFFER_OVERFLOW")
      case ovf: True
      show thesis
        by (rule full [OF doc(1)]) (simp_all add: writeLoop_sendable [OF assms(2)] alloc True ovf
            del: writeLoop.simps)
    next
      case False
      have "\<exists>e. writeLoop sys p t (int off) i (b # bs) w = (Ret (i, Some e), w1)"
        using True False by (simp add: writeLoop_sendable [OF assms(2)] alloc del: writeLoop.simps)
      then show thesis
        using fail [OF doc(1)] alloc True by auto
    qed
  next
    case False
    show thesis
      by (rule sent [OF doc(2) [OF False]])
         (simp_all add: writeLoop_sendable [OF assms(2)] alloc False del: writeLoop.simps)
  qed
qed

lemma writeLoop_sends:
  assumes "documented_tx sys p (ntSession t) tx"
  shows "\<exists>k err w' sent. writeLoop sys p t (int off) i bufs w = (Ret (i + k, err), w') \<and>
    k \<le> length bufs \<and> (err = None \<longrightarrow> k = length bufs) \<and> tx w' = tx w @ sent \<and>
    subseq sent (map (drop off) (filter (sendable off) (take k bufs))) \<and>
    ((\<forall>sz v. fst (tsCall sys (allocatePacket p) (DAllocatePacket (ssHandle (ntSession t)) sz) v) \<noteq> 0) \<longrightarrow>
       err = None \<and> sent = map (drop off) (filter (sendable off) bufs))"
    (is "\<exists>k err w' sent. ?P i bufs w k err w' sent")
proof (induction bufs arbitrary: i w)
  case Nil
  have "?P i [] w 0 None w []"
    by simp
  then show ?case by (intro exI)
next
  case (Cons b bs)
  show ?case
  proof (cases "sendable off b")
    case False
    obtain k err w' sent where IH: "?P (Suc i) bs w k err w' sent"
      using Cons.IH [of "Suc i" w] by (elim exE)
    then have "?P i (b # bs) w (Suc k) err w' sent"
      using False by (simp add: writeLoop_skip del: writeLoop.simps)
    then show ?thesis by (intro exI)
  next
    case True
    show ?thesis
    proof (rule writeLoop_step [OF assms True, of w i bs])
      fix w1 assume w1: "tx w1 = tx w @ [drop off b]"
        "writeLoop sys p t (int off) i (b # bs) w = writeLoop sys p t (int off) (Suc i) bs w1"
      obtain k err w' sent where "?P (Suc i) bs w1 k err w' sent"
        using Cons.IH [of "Suc i" w1] by (elim exE)
      then have "?P i (b # bs) w (Suc k) err w' (drop off b # sent)"
        using w1 True by simp
      then show ?thesis by (intro exI)
    next
      fix w1 assume w1: "tx w1 = tx w"
        "writeLoop sys p t (int off) i (b # bs) w = writeLoop sys p t (int off) (Suc i) bs w1"
        "fst (tsCall sys (allocatePacket p)
          (DAllocatePacket (ssHandle (ntSession t)) (of_nat (length b - off))) w) = 0"
      obtain k err w' sent where "?P (Suc i) bs w1 k err w' sent"
        using Cons.IH [of "Suc i" w1] by (elim exE)
      then have "?P i (b # bs) w (Suc k) err w' sent"
        using w1 True by (auto intro: list_emb_Cons)
      then show ?thesis by (intro exI)
    next
      fix e w1 assume "tx w1 = tx w" "writeLoop sys p t (int off) i (b # bs) w = (Ret (i, Some e), w1)"
        "fst (tsCall sys (allocatePacket p)
          (DAllocatePacket (ssHandle (ntSession t)) (of_nat (length b - off))) w) = 0"
      then have "?P i (b # bs) w 0 (Some e) w1 []"
        by auto
      then show ?thesis by (intro exI)
    qed
  qed
qed

text \<open>
  C29: writing a batch.  On an open device \<^verbatim>\<open>Write\<close> never panics; it sends, in order and
  unaltered from the offset on, packets of the handled prefix whose size is acceptable, and
  nothing else; without an error the whole batch was handled.  When the ring always has room,
  exactly the acceptable packets are sent and there is no error.
\<close>

theorem Write_sends_batch:
  assumes "documented_tx sys p (ntSession t) tx" "\<not> tsClosed sys (ntObj t) (tsRunningAdd sys (ntObj t) 1 w)"
  shows "\<exists>k err w' sent. tunWrite sys p t bufs (int off) w = (Ret (k, err), w') \<and>
    k \<le> length bufs \<and> (err = None \<longrightarrow> k = length bufs) \<and> tx w' = tx w @ sent \<and>
    subseq sent (map (drop off) (filter (sendable off) (take k bufs))) \<and>
    ((\<forall>sz v. fst (tsCall sys (allocatePacket p) (DAllocatePacket (ssHandle (ntSession t)) sz) v) \<noteq> 0) \<longrightarrow>
       err = None \<and> sent = map (drop off) (filter (sendable off) bufs))"
proof -
  have run: "tx (tsRunningAdd sys o' k v) = tx v" for o' k v
    using assms(1) by (simp add: documented_tx_def)
  show ?thesis
    using writeLoop_sends [OF assms(1), of off 0 bufs "tsRunningAdd sys (ntObj t) 1 w"] assms(2)
    by (auto simp: tunWrite_def Let_def run)
qed

section \<open>Concrete instances\<close>

text \<open>A reference driver held in memory, with rings of unbounded room.\<close>

record tunWorld =
  twRx :: "u8 list list"
  twTx :: "u8 list list"
  twIn :: "u8 list"
  twOut :: "u8 list"
  twNext :: nat
  twClosed :: "nat list"
  twRunning :: int
  twAdapters :: "uintptr list"
  twSessions :: "uintptr list"

definition emptyTun :: tunWorld where
  "emptyTun = \<lparr>twRx = [], twTx = [], twIn = [], twOut = [], twNext = 0, twClosed = [], twRunning = 0,
     twAdapters = [], twSessions = []\<rparr>"

definition freshHandle :: "uintptr list \<Rightarrow> uintptr" where
  "freshHandle hs =
     (case find (\<lambda>h. h \<noteq> 0 \<and> h \<notin> set hs) (map of_nat [1 ..< length hs + 2]) of Some h \<Rightarrow> h | None \<Rightarrow> 0)"

lemma freshHandle_fresh: "freshHandle hs \<noteq> 0 \<Longrightarrow> freshHandle hs \<notin> set hs"
proof -
  have "find P xs = Some h \<Longrightarrow> P h" for P and xs :: "uintptr list" and h
    by (auto simp: find_Some_iff)
  then show "freshHandle hs \<noteq> 0 \<Longrightarrow> freshHandle hs \<notin> set hs"
    unfolding freshHandle_def by (fastforce split: option.splits)
qed

definition ringPacket :: "u8 list \<Rightarrow> u8 list" where
  "ringPacket pk = (if pk = [] then [0] else take 65535 pk)"

fun memDriver :: "drvCall \<Rightarrow> tunWorld \<Rightarrow> uintptr \<times> u64 \<times> u32 \<times> tunWorld" where
  "memDriver (DCreateAdapter n ty gd) w =
     (let h = freshHandle (twAdapters w)
      in if h = 0 then (0, 0, 8, w) else (h, 0, 0, w\<lparr>twAdapters := h # twAdapters w\<rparr>))"
| "memDriver (DCloseAdapter h) w = (0, 0, 0, w\<lparr>twAdapters := removeAll h (twAdapters w)\<rparr>)"
| "memDriver (DGetAdapterLUID h) w = (0, h, 0, w)"
| "memDriver DRunningVersion w = (14, 0, 0, w)"
| "memDriver (DStartSession h c) w =
     (let h = freshHandle (twSessions w)
      in if h = 0 then (0, 0, 8, w) else (h, 0, 0, w\<lparr>twSessions := h # twSessions w\<rparr>))"
| "memDriver (DEndSession h) w = (0, 0, 0, w\<lparr>twSessions := removeAll h (twSessions w)\<rparr>)"
| "memDriver (DGetReadWait h) w = (99, 0, 0, w)"
| "memDriver (DReceivePacket h) w =
     (case twRx w of [] \<Rightarrow> (0, 0, 259, w)
      | pk # rest \<Rightarrow> (1, of_nat (length (ringPacket pk)), 0, w\<lparr>twIn := ringPacket pk, twRx := rest\<rparr>))"
| "memDriver (DReleasePacket h q) w = (0, 0, 0, w)"
| "memDriver (DAllocatePacket h n) w = (2, 0, 0, w)"
| "memDriver (DSendPacket h q) w = (0, 0, 0, w\<lparr>twTx := twTx w @ [twOut w]\<rparr>)"

definition memTun :: "tunWorld tunSys" where
  "memTun =
     \<lparr>tsLoadLibraryEx = (\<lambda>n f w. (Inr 1, w)), tsGetProcAddress = (\<lambda>m n. Inr 7),
      tsUTF16PtrFromString = (\<lambda>s. Inr (map (\<lambda>c. of_nat (of_char c)) s @ [0])),
      tsCall = (\<lambda>a c w. memDriver c w), tsRead = (\<lambda>q n w. take n (twIn w)),
      tsWrite = (\<lambda>q d w. w\<lparr>twOut := d\<rparr>), tsWaitForSingleObject = (\<lambda>h w. w),
      tsSetEvent = (\<lambda>h w. w), tsNow = (\<lambda>w. (0, w)), tsGosched = (\<lambda>w. w), tsNumCPU = 1,
      tsNewTun = (\<lambda>w. (twNext w, w\<lparr>twNext := Suc (twNext w)\<rparr>)),
      tsClosed = (\<lambda>o' w. o' \<in> set (twClosed w)), tsSetClosed = (\<lambda>o' w. w\<lparr>twClosed := o' # twClosed w\<rparr>),
      tsRunningAdd = (\<lambda>o' k w. w\<lparr>twRunning := twRunning w + k\<rparr>), tsRunningWait = (\<lambda>o' w. w)\<rparr>"

lemma memTun_handles:
  "documented_handles memTun p (\<lambda>w. set (twAdapters w)) (\<lambda>w. set (twSessions w))"
  unfolding documented_handles_def
  by (intro conjI allI impI)
     (auto simp: memTun_def Let_def split: if_splits dest: freshHandle_fresh)

lemma memTun_rx: "documented_rx memTun p t (\<lambda>w. map ringPacket (twRx w)) (\<lambda>w. 259)"
proof -
  have len: "unat (ucast (of_nat (length (ringPacket pk)) :: u64) :: u32) = length (ringPacket pk)" for pk
  proof -
    have small: "length (ringPacket pk) \<le> 65535"
      by (simp add: ringPacket_def)
    then have "unat (of_nat (length (ringPacket pk)) :: u64) = length (ringPacket pk)"
      by (intro unat_of_nat_small) simp
    then show ?thesis
      using small by (simp add: unsigned_ucast_eq take_bit_nat_eq_self)
  qed
  show ?thesis
    by (auto simp: documented_rx_def memTun_def len split: list.splits)
       (simp add: ringPacket_def split: if_splits)
qed

lemma memTun_tx: "documented_tx memTun p s twTx"
  by (simp add: documented_tx_def memTun_def)

lemma demo_create:
  "case CreateTUN memTun ''veil0'' 0 initGlobals emptyTun of (Inl err, g, w) \<Rightarrow> False
   | (Inr t, g, w) \<Rightarrow> twAdapters w = [1] \<and> twSessions w = [1]"
  by code_simp

theorem tun_lifecycle_witness:
  "\<exists>t g w. CreateTUN memTun ''veil0'' 0 initGlobals emptyTun = (Inr t, g, w) \<and> 0 < tunMTU t \<and>
     set (twAdapters (snd (tunClose memTun (procs g) t w))) = {}"
proof -
  obtain t g w where run: "CreateTUN memTun ''veil0'' 0 initGlobals emptyTun = (Inr t, g, w)"
    using demo_create by (auto split: prod.splits sum.splits)
  define p where "p = procs (fst (snd (load memTun initGlobals emptyTun)))"
  note L = tun_lifecycle [OF p_def memTun_handles, where name = "''veil0''" and mtu = 0,
      unfolded run prod.case sum.case]
  obtain t' w' where "tunClose memTun p t w = (t', w')"
    by fastforce
  then have "set (twAdapters (snd (tunClose memTun p t w))) = set (twAdapters emptyTun)"
    using L [THEN conjunct2, THEN conjunct2, rule_format, of w] by simp
  then show ?thesis
    using run L by (simp add: emptyTun_def)
qed

definition demoTun :: NativeTun where
  "demoTun = \<lparr>ntObj = 0, ntAdapter = \<lparr>adHandle = 1\<rparr>, ntSession = \<lparr>ssHandle = 1\<rparr>, ntName = ''veil0'', ntMtu = 1420,
     ntReadWait = 99, ntCloseOnce = False\<rparr>"

theorem Read_delivers_batch_witness:
  "\<exists>w'. tunRead memTun zeroProcs demoTun [[9, 9, 9, 9], [9, 9]] [0, 0] 1 (emptyTun\<lparr>twRx := [[1, 2, 3, 4, 5]]\<rparr>)
     = Some (Ret (1, None), [[9, 1, 2, 3], [9, 9]], [3, 0], w')"
  using Read_delivers_batch [OF memTun_rx, where w = "emptyTun\<lparr>twRx := [[1, 2, 3, 4, 5]]\<rparr>" and
      bufs = "[[9, 9, 9, 9], [9, 9]]" and sizes = "[0, 0]" and off = 1 and n = 1 and p = zeroProcs and
      t = demoTun]
  by (auto simp: memTun_def emptyTun_def filledBuf_def filledSize_def goCopy_def ringPacket_def)

theorem Write_sends_batch_witness:
  "\<exists>err w'. tunWrite memTun zeroProcs demoTun [[0, 1], [0], [0, 2, 3]] 1 emptyTun = (Ret (3, err), w') \<and>
     twTx w' = [[1], [2, 3]]"
  using Write_sends_batch [OF memTun_tx, where w = emptyTun and p = zeroProcs and t = demoTun and
      bufs = "[[0, 1], [0], [0, 2, 3]]" and off = 1]
  by (auto simp: memTun_def emptyTun_def sendable_def)

end
