(* ===== verification/Veiltun_Sync.thy ===== *)
theory Veiltun_Sync
  imports Veiltun
begin

text \<open>
  The synchronisation of \<^verbatim>\<open>src/veiltun/device.go\<close>: one reader, one writer, one closer (\<^verbatim>\<open>closeOnce\<close>
  lets only one \<^verbatim>\<open>Close\<close> run its body) and one caller of \<^verbatim>\<open>LUID\<close>, interleaved at every access to
  the shared flag, wait group, event, session and adapter.  A program point names what the
  thread does next.  What the data does is in the theory \<open>Veiltun\<close>; here a poll of the ring may
  have any outcome the code distinguishes.
\<close>

section \<open>Program points and state\<close>

datatype readerPc =
    RIdle      \<comment> \<open>not in \<^verbatim>\<open>Read\<close>\<close>
  | RCheck     \<comment> \<open>after \<^verbatim>\<open>running.Add(1)\<close>, at the label \<^verbatim>\<open>retry\<close>\<close>
  | RLoop      \<comment> \<open>at the top of the loop body\<close>
  | RReceive   \<comment> \<open>about to call \<^verbatim>\<open>ReceivePacket\<close>\<close>
  | RRelease   \<comment> \<open>a packet was copied, about to release it\<close>
  | RWait      \<comment> \<open>in \<^verbatim>\<open>WaitForSingleObject\<close>\<close>
  | RDone      \<comment> \<open>returning, before \<^verbatim>\<open>running.Done()\<close>\<close>

datatype writerPc =
    WIdle | WCheck
  | WAllocate nat  \<comment> \<open>about to call \<^verbatim>\<open>AllocateSendPacket\<close>, with that many buffers after this one\<close>
  | WSend nat      \<comment> \<open>about to call \<^verbatim>\<open>SendPacket\<close>\<close>
  | WDone

datatype closerPc =
    CIdle
  | CSignal    \<comment> \<open>\<^verbatim>\<open>closed\<close> stored, about to set the event\<close>
  | CWait      \<comment> \<open>in \<^verbatim>\<open>running.Wait()\<close>\<close>
  | CEnd       \<comment> \<open>about to end the session\<close>
  | CClose     \<comment> \<open>about to close the adapter\<close>
  | CDone

datatype luidPc = LIdle | LCall \<comment> \<open>saw the device open, about to call the driver\<close>

record tunSync =
  syClosed :: bool
  syRunning :: nat
  syEvent :: bool
  sySession :: bool
  syAdapter :: bool
  syReader :: readerPc
  syWriter :: writerPc
  syCloser :: closerPc
  syLuid :: luidPc

definition initSync :: tunSync where
  "initSync = \<lparr>syClosed = False, syRunning = 0, syEvent = False, sySession = True, syAdapter = True,
     syReader = RIdle, syWriter = WIdle, syCloser = CIdle, syLuid = LIdle\<rparr>"

section \<open>The steps\<close>

inductive readerStep :: "tunSync \<Rightarrow> tunSync \<Rightarrow> bool" where
  enter: "syReader s = RIdle \<Longrightarrow>
    readerStep s (s\<lparr>syReader := RCheck, syRunning := syRunning s + 1\<rparr>)"
| check: "syReader s = RCheck \<Longrightarrow> readerStep s (s\<lparr>syReader := if syClosed s then RDone else RLoop\<rparr>)"
| full: "syReader s = RLoop \<Longrightarrow> readerStep s (s\<lparr>syReader := RDone\<rparr>)"
| poll: "syReader s = RLoop \<Longrightarrow> readerStep s (s\<lparr>syReader := if syClosed s then RDone else RReceive\<rparr>)"
| received: "syReader s = RReceive \<Longrightarrow> pc \<in> {RRelease, RLoop, RWait, RDone} \<Longrightarrow>
    readerStep s (s\<lparr>syReader := pc\<rparr>)"
| released: "syReader s = RRelease \<Longrightarrow> readerStep s (s\<lparr>syReader := RLoop\<rparr>)"
| woken: "syReader s = RWait \<Longrightarrow> syEvent s \<Longrightarrow> readerStep s (s\<lparr>syReader := RCheck, syEvent := e\<rparr>)"
| leave: "syReader s = RDone \<Longrightarrow> readerStep s (s\<lparr>syReader := RIdle, syRunning := syRunning s - 1\<rparr>)"

text \<open>The next round of the loop over the buffers, or its end.\<close>

fun nextBuf :: "nat \<Rightarrow> writerPc" where
  "nextBuf 0 = WDone" | "nextBuf (Suc k) = WAllocate k"

inductive writerStep :: "tunSync \<Rightarrow> tunSync \<Rightarrow> bool" where
  enter: "syWriter s = WIdle \<Longrightarrow>
    writerStep s (s\<lparr>syWriter := WCheck, syRunning := syRunning s + 1\<rparr>)"
| check: "syWriter s = WCheck \<Longrightarrow>
    writerStep s (s\<lparr>syWriter := if syClosed s then WDone else nextBuf k\<rparr>)"
| allocated: "syWriter s = WAllocate k \<Longrightarrow> pc \<in> {WSend k, nextBuf k, WDone} \<Longrightarrow>
    writerStep s (s\<lparr>syWriter := pc\<rparr>)"
| sent: "syWriter s = WSend k \<Longrightarrow> writerStep s (s\<lparr>syWriter := nextBuf k\<rparr>)"
| leave: "syWriter s = WDone \<Longrightarrow> writerStep s (s\<lparr>syWriter := WIdle, syRunning := syRunning s - 1\<rparr>)"

inductive closerStep :: "tunSync \<Rightarrow> tunSync \<Rightarrow> bool" where
  store: "syCloser s = CIdle \<Longrightarrow> closerStep s (s\<lparr>syCloser := CSignal, syClosed := True\<rparr>)"
| signal: "syCloser s = CSignal \<Longrightarrow> closerStep s (s\<lparr>syCloser := CWait, syEvent := True\<rparr>)"
| waited: "syCloser s = CWait \<Longrightarrow> syRunning s = 0 \<Longrightarrow> closerStep s (s\<lparr>syCloser := CEnd\<rparr>)"
| ended: "syCloser s = CEnd \<Longrightarrow> closerStep s (s\<lparr>syCloser := CClose, sySession := False\<rparr>)"
| closed: "syCloser s = CClose \<Longrightarrow> closerStep s (s\<lparr>syCloser := CDone, syAdapter := False\<rparr>)"

inductive luidStep :: "tunSync \<Rightarrow> tunSync \<Rightarrow> bool" where
  check: "syLuid s = LIdle \<Longrightarrow> luidStep s (s\<lparr>syLuid := if syClosed s then LIdle else LCall\<rparr>)"
| called: "syLuid s = LCall \<Longrightarrow> luidStep s (s\<lparr>syLuid := LIdle\<rparr>)"

text \<open>The driver sets the event when packets arrive; only a completed wait resets it.\<close>

inductive syncStep :: "tunSync \<Rightarrow> tunSync \<Rightarrow> bool" where
  reader: "readerStep s s' \<Longrightarrow> syncStep s s'"
| writer: "writerStep s s' \<Longrightarrow> syncStep s s'"
| closer: "closerStep s s' \<Longrightarrow> syncStep s s'"
| luid: "luidStep s s' \<Longrightarrow> syncStep s s'"
| packet: "syncStep s (s\<lparr>syEvent := True\<rparr>)"

inductive_simps readerStep_iff: "readerStep s s'"
inductive_simps writerStep_iff: "writerStep s s'"
inductive_simps closerStep_iff: "closerStep s s'"
inductive_simps luidStep_iff: "luidStep s s'"
inductive_cases syncStepE: "syncStep s s'"

section \<open>The invariant\<close>

text \<open>
  Threads inside the wait group; threads that use the session or may come to use it without
  another look at the flag; the stages of the closer.
\<close>

fun readerIn :: "readerPc \<Rightarrow> nat" where "readerIn RIdle = 0" | "readerIn pc = 1"
fun writerIn :: "writerPc \<Rightarrow> nat" where "writerIn WIdle = 0" | "writerIn pc = 1"

fun readerBusy :: "readerPc \<Rightarrow> bool" where
  "readerBusy RIdle = False" | "readerBusy RCheck = False" | "readerBusy RDone = False"
| "readerBusy pc = True"

fun writerBusy :: "writerPc \<Rightarrow> bool" where
  "writerBusy (WAllocate k) = True" | "writerBusy (WSend k) = True" | "writerBusy pc = False"

fun signalled :: "closerPc \<Rightarrow> bool" where
  "signalled CIdle = False" | "signalled CSignal = False" | "signalled pc = True"

fun waitOver :: "closerPc \<Rightarrow> bool" where
  "waitOver CEnd = True" | "waitOver CClose = True" | "waitOver CDone = True" | "waitOver pc = False"

fun sessionLive :: "closerPc \<Rightarrow> bool" where
  "sessionLive CClose = False" | "sessionLive CDone = False" | "sessionLive pc = True"

definition sync_inv :: "tunSync \<Rightarrow> bool" where
  "sync_inv s \<longleftrightarrow>
     syRunning s = readerIn (syReader s) + writerIn (syWriter s) \<and>
     syClosed s = (syCloser s \<noteq> CIdle) \<and>
     (waitOver (syCloser s) \<longrightarrow> \<not> readerBusy (syReader s) \<and> \<not> writerBusy (syWriter s)) \<and>
     sySession s = sessionLive (syCloser s) \<and>
     syAdapter s = (syCloser s \<noteq> CDone) \<and>
     (signalled (syCloser s) \<and> readerBusy (syReader s) \<longrightarrow> syEvent s)"

lemma stages: "waitOver c \<Longrightarrow> c \<noteq> CIdle" "signalled c \<Longrightarrow> c \<noteq> CIdle"
  by (cases c; simp)+

lemma notIn: "readerIn r = 0 \<Longrightarrow> \<not> readerBusy r" "writerIn v = 0 \<Longrightarrow> \<not> writerBusy v"
  by (cases r; simp) (cases v; simp)

lemma sync_inv_init: "sync_inv initSync"
  by (simp add: sync_inv_def initSync_def)

lemma sync_inv_reader: "readerStep s s' \<Longrightarrow> sync_inv s \<Longrightarrow> sync_inv s'"
  by (induction rule: readerStep.induct) (auto simp: sync_inv_def dest: stages)

lemma nextBuf_in [simp]: "writerIn (nextBuf k) = 1"
  by (cases k) simp_all

lemma sync_inv_writer: "writerStep s s' \<Longrightarrow> sync_inv s \<Longrightarrow> sync_inv s'"
  by (induction rule: writerStep.induct) (auto simp: sync_inv_def dest: stages)

lemma sync_inv_closer: "closerStep s s' \<Longrightarrow> sync_inv s \<Longrightarrow> sync_inv s'"
  by (induction rule: closerStep.induct) (simp_all add: sync_inv_def notIn)

lemma sync_inv_luid: "luidStep s s' \<Longrightarrow> sync_inv s \<Longrightarrow> sync_inv s'"
  by (induction rule: luidStep.induct) (simp_all add: sync_inv_def)

lemma sync_inv_step: "syncStep s s' \<Longrightarrow> sync_inv s \<Longrightarrow> sync_inv s'"
proof (induction rule: syncStep.induct)
  case (packet s)
  then show ?case by (simp add: sync_inv_def)
qed (auto intro: sync_inv_reader sync_inv_writer sync_inv_closer sync_inv_luid)

lemma sync_inv_reachable: "syncStep\<^sup>*\<^sup>* initSync s \<Longrightarrow> sync_inv s"
  by (induction rule: rtranclp_induct) (auto intro: sync_inv_init sync_inv_step)

section \<open>Shutting down\<close>

text \<open>
  A call of \<^verbatim>\<open>Read\<close> or \<^verbatim>\<open>Write\<close> begins, or one that is in flight goes on.  The rank bounds how many
  steps of calls in flight and of the close are left once the flag is set, as long as no call begins.
\<close>

definition readGoesOn :: "tunSync \<Rightarrow> tunSync \<Rightarrow> bool" where
  "readGoesOn s s' \<longleftrightarrow> readerStep s s' \<and> syReader s \<noteq> RIdle"

definition writeGoesOn :: "tunSync \<Rightarrow> tunSync \<Rightarrow> bool" where
  "writeGoesOn s s' \<longleftrightarrow> writerStep s s' \<and> syWriter s \<noteq> WIdle"

definition callBegins :: "tunSync \<Rightarrow> tunSync \<Rightarrow> bool" where
  "callBegins s s' \<longleftrightarrow> readerStep s s' \<and> syReader s = RIdle \<or> writerStep s s' \<and> syWriter s = WIdle"

definition closingStep :: "tunSync \<Rightarrow> tunSync \<Rightarrow> bool" where
  "closingStep s s' \<longleftrightarrow> readGoesOn s s' \<or> writeGoesOn s s' \<or> closerStep s s'"

fun readerRank :: "readerPc \<Rightarrow> nat" where
  "readerRank RIdle = 0" | "readerRank RDone = 1" | "readerRank RCheck = 2" | "readerRank RLoop = 2"
| "readerRank RWait = 3" | "readerRank RRelease = 3" | "readerRank RReceive = 4"

fun writerRank :: "writerPc \<Rightarrow> nat" where
  "writerRank WIdle = 0" | "writerRank WDone = 1" | "writerRank WCheck = 2"
| "writerRank (WSend k) = 2 * k + 2" | "writerRank (WAllocate k) = 2 * k + 3"

fun closerRank :: "closerPc \<Rightarrow> nat" where
  "closerRank CIdle = 5" | "closerRank CSignal = 4" | "closerRank CWait = 3" | "closerRank CEnd = 2"
| "closerRank CClose = 1" | "closerRank CDone = 0"

definition syncRank :: "tunSync \<Rightarrow> nat" where
  "syncRank s = readerRank (syReader s) + writerRank (syWriter s) + closerRank (syCloser s)"

lemma nextBuf_rank: "writerRank (nextBuf k) < 2 * k + 2"
  by (cases k) simp_all

lemma reader_rank:
  "readerStep s s' \<Longrightarrow> syClosed s \<Longrightarrow> syReader s \<noteq> RIdle \<Longrightarrow> syncRank s' < syncRank s"
  by (induction rule: readerStep.induct) (auto simp: syncRank_def)

lemma writer_rank:
  "writerStep s s' \<Longrightarrow> syClosed s \<Longrightarrow> syWriter s \<noteq> WIdle \<Longrightarrow> syncRank s' < syncRank s"
proof (induction rule: writerStep.induct)
  case (allocated s k pc)
  then show ?case
    using nextBuf_rank [of k] by (auto simp: syncRank_def)
next
  case (sent s k)
  then show ?case
    using nextBuf_rank [of k] by (simp add: syncRank_def)
qed (simp_all add: syncRank_def)

lemma closer_rank: "closerStep s s' \<Longrightarrow> syncRank s' < syncRank s"
  by (induction rule: closerStep.induct) (simp_all add: syncRank_def)

lemmas closing_defs = closingStep_def readGoesOn_def writeGoesOn_def

lemma closing_rank: "closingStep s s' \<Longrightarrow> syClosed s \<Longrightarrow> syncRank s' < syncRank s"
  by (auto simp: closing_defs dest: reader_rank writer_rank closer_rank)

lemma reader_moves:
  "syReader s \<noteq> RIdle \<Longrightarrow> syReader s = RWait \<longrightarrow> syEvent s \<Longrightarrow> \<exists>s'. readerStep s s'"
  by (cases "syReader s") (auto simp: readerStep_iff)

lemma writer_moves: "syWriter s \<noteq> WIdle \<Longrightarrow> \<exists>s'. writerStep s s'"
  by (cases "syWriter s") (auto simp: writerStep_iff)

lemma closer_moves:
  "syCloser s \<noteq> CDone \<Longrightarrow> syCloser s = CWait \<longrightarrow> syRunning s = 0 \<Longrightarrow> \<exists>s'. closerStep s s'"
  by (cases "syCloser s") (auto simp: closerStep_iff)

lemma closing_moves:
  assumes "sync_inv s" "syClosed s" "\<not> (syCloser s = CDone \<and> syReader s = RIdle \<and> syWriter s = WIdle)"
  shows "\<exists>s'. closingStep s s'"
proof (cases "syCloser s = CDone \<or> syCloser s = CWait \<and> syRunning s \<noteq> 0")
  case False
  then show ?thesis
    using closer_moves [of s] by (auto simp: closing_defs)
next
  case True
  then have sig: "signalled (syCloser s)"
    by auto
  show ?thesis
  proof (cases "syReader s = RIdle")
    case False
    moreover have "syReader s = RWait \<longrightarrow> syEvent s"
      using assms(1) sig by (auto simp: sync_inv_def)
    ultimately show ?thesis
      using reader_moves by (auto simp: closing_defs)
  next
    case idle: True
    then have "syWriter s \<noteq> WIdle"
      using assms(1,3) True by (auto simp: sync_inv_def)
    then show ?thesis
      using writer_moves by (auto simp: closing_defs)
  qed
qed

section \<open>Schedules\<close>

text \<open>
  A schedule is an infinite sequence of steps of the whole system; it is fair to a thread when the thread
  does not stay able to move for ever without moving.
\<close>

definition schedule :: "(nat \<Rightarrow> tunSync) \<Rightarrow> bool" where
  "schedule f \<longleftrightarrow> f 0 = initSync \<and> (\<forall>i. syncStep (f i) (f (Suc i)))"

definition fairTo :: "(tunSync \<Rightarrow> tunSync \<Rightarrow> bool) \<Rightarrow> (nat \<Rightarrow> tunSync) \<Rightarrow> bool" where
  "fairTo step f \<longleftrightarrow> (\<forall>i. (\<forall>j\<ge>i. \<exists>s'. step (f j) s') \<longrightarrow> (\<exists>j\<ge>i. step (f j) (f (Suc j))))"

lemma schedule_inv: "schedule f \<Longrightarrow> sync_inv (f i)"
  by (induction i) (auto simp: schedule_def intro: sync_inv_init sync_inv_step)

text \<open>Packets and \<^verbatim>\<open>LUID\<close> calls leave the threads where they are and the event set.\<close>

lemma other_steps:
  assumes "syncStep s s'" "\<not> closingStep s s'" "\<not> callBegins s s'"
  shows "syReader s' = syReader s \<and> syWriter s' = syWriter s \<and> syCloser s' = syCloser s \<and>
    syRunning s' = syRunning s \<and> (syEvent s \<longrightarrow> syEvent s')"
  using assms by (auto elim!: syncStepE simp: closing_defs callBegins_def luidStep_iff)

lemma closed_stays:
  assumes "schedule f" "syClosed (f n)" "n \<le> i"
  shows "syClosed (f i)"
  using assms(3)
proof (induction i rule: dec_induct)
  case (step i)
  then have "syClosed (f i)" "syncStep (f i) (f (Suc i))"
    using assms(1) by (simp_all add: schedule_def)
  then show ?case
    by (auto elim!: syncStepE simp: readerStep_iff writerStep_iff closerStep_iff luidStep_iff)
qed (rule assms(2))

text \<open>With the flag set and no more calls beginning, only finitely many closing steps are left.\<close>

lemma closing_ends:
  assumes "schedule f" "syClosed (f n)" "\<forall>i\<ge>n. \<not> callBegins (f i) (f (Suc i))"
  shows "\<exists>m\<ge>n. \<forall>i\<ge>m. \<not> closingStep (f i) (f (Suc i))"
  using assms(2,3)
proof (induction "syncRank (f n)" arbitrary: n rule: less_induct)
  case less
  show ?case
  proof (cases "\<exists>i\<ge>n. closingStep (f i) (f (Suc i))")
    case True
    then obtain i where i: "n \<le> i" "closingStep (f i) (f (Suc i))" "\<forall>j. n \<le> j \<and> j < i \<longrightarrow> \<not> closingStep (f j) (f (Suc j))"
      using exists_least_iff [of "\<lambda>i. n \<le> i \<and> closingStep (f i) (f (Suc i))"] by blast
    have "syncRank (f j) = syncRank (f n)" if "n \<le> j" "j \<le> i" for j
      using that
    proof (induction j rule: dec_induct)
      case (step j)
      then show ?case
        using other_steps [of "f j" "f (Suc j)"] i(3) less.prems(2) assms(1)
        by (simp add: syncRank_def schedule_def)
    qed simp
    from this [OF i(1) order_refl] have "syncRank (f (Suc i)) < syncRank (f n)"
      using closing_rank [OF i(2)] closed_stays [OF assms(1) less.prems(1) i(1)] i(1) by simp
    moreover have "syClosed (f (Suc i))"
      using closed_stays [OF assms(1) less.prems(1)] i(1) by simp
    moreover have "\<forall>j\<ge>Suc i. \<not> callBegins (f j) (f (Suc j))"
      using less.prems(2) i(1) by simp
    ultimately obtain m where "m \<ge> Suc i" "\<forall>i\<ge>m. \<not> closingStep (f i) (f (Suc i))"
      using less.hyps [of "Suc i"] by blast
    then show ?thesis
      using i(1) by (intro exI [of _ m]) auto
  qed auto
qed

text \<open>A thread that can move and is not run stays able to move.\<close>

lemma stuck_contradiction:
  assumes "schedule f" "\<forall>i\<ge>m. \<not> closingStep (f i) (f (Suc i)) \<and> \<not> callBegins (f i) (f (Suc i))"
    and "fairTo readGoesOn f" "fairTo writeGoesOn f" "fairTo closerStep f"
  shows "\<not> closingStep (f m) s'"
proof
  assume can: "closingStep (f m) s'"
  have same: "syReader (f j) = syReader (f m) \<and> syWriter (f j) = syWriter (f m) \<and> syCloser (f j) = syCloser (f m) \<and>
      syRunning (f j) = syRunning (f m) \<and> (syEvent (f m) \<longrightarrow> syEvent (f j))" if "m \<le> j" for j
    using that
  proof (induction j rule: dec_induct)
    case (step j)
    then show ?case
      using other_steps [of "f j" "f (Suc j)"] assms(1,2) by (simp add: schedule_def)
  qed simp
  have never: "\<not> readGoesOn (f j) (f (Suc j))" "\<not> writeGoesOn (f j) (f (Suc j))" "\<not> closerStep (f j) (f (Suc j))"
    if "m \<le> j" for j
    using assms(2) that by (auto simp: closingStep_def)
  consider "readGoesOn (f m) s'" | "writeGoesOn (f m) s'" | "closerStep (f m) s'"
    using can by (auto simp: closingStep_def)
  then show False
  proof cases
    case 1
    then have "syReader (f m) \<noteq> RIdle" "syReader (f m) = RWait \<longrightarrow> syEvent (f m)"
      by (auto simp: readGoesOn_def readerStep_iff)
    then have "\<exists>s'. readGoesOn (f j) s'" if "m \<le> j" for j
      using reader_moves [of "f j"] same [OF that] by (auto simp: readGoesOn_def)
    then show False
      using assms(3) never(1) unfolding fairTo_def by blast
  next
    case 2
    then have "syWriter (f m) \<noteq> WIdle"
      by (simp add: writeGoesOn_def)
    then have "\<exists>s'. writeGoesOn (f j) s'" if "m \<le> j" for j
      using writer_moves [of "f j"] same [OF that] by (auto simp: writeGoesOn_def)
    then show False
      using assms(4) never(2) unfolding fairTo_def by blast
  next
    case 3
    then have "syCloser (f m) \<noteq> CDone" "syCloser (f m) = CWait \<longrightarrow> syRunning (f m) = 0"
      by (auto simp: closerStep_iff)
    then have "\<exists>s'. closerStep (f j) s'" if "m \<le> j" for j
      using closer_moves [of "f j"] same [OF that] by auto
    then show False
      using assms(5) never(3) unfolding fairTo_def by blast
  qed
qed

section \<open>Properties\<close>

text \<open>
  C7: no use after end.  In every reachable interleaving, when the reader is about to receive
  or release a packet, or the writer to allocate or send one, the session has not been ended and
  the adapter not been closed; the counter is the number of calls in flight.
\<close>

theorem no_session_use_after_end:
  assumes "syncStep\<^sup>*\<^sup>* initSync s"
  shows "(syReader s \<in> {RReceive, RRelease} \<or> (\<exists>k. syWriter s \<in> {WAllocate k, WSend k}) \<longrightarrow>
      sySession s \<and> syAdapter s) \<and>
    syRunning s = readerIn (syReader s) + writerIn (syWriter s)"
proof -
  have inv: "sync_inv s"
    using assms by (rule sync_inv_reachable)
  have "sessionLive c \<and> c \<noteq> CDone" if "\<not> waitOver c" for c
    using that by (cases c) simp_all
  then show ?thesis
    using inv by (auto simp: sync_inv_def)
qed

text \<open>
  C8: closing terminates.  Take any schedule of the whole system, with packets arriving, \<^verbatim>\<open>LUID\<close> calls and
  new calls of \<^verbatim>\<open>Read\<close> and \<^verbatim>\<open>Write\<close> at any time, that lets every goroutine that can go on do so.  If \<^verbatim>\<open>Close\<close>
  was called and the callers of \<^verbatim>\<open>Read\<close> and \<^verbatim>\<open>Write\<close> at some point stop making new calls, then from some
  point on the close is complete: every call has returned, a reader parked on the event included, the
  session is ended and the adapter is closed.
\<close>

theorem close_terminates:
  assumes "schedule f" "fairTo readGoesOn f" "fairTo writeGoesOn f" "fairTo closerStep f"
    and "finite {i. callBegins (f i) (f (Suc i))}" "syClosed (f n)"
  shows "\<exists>m. \<forall>i\<ge>m. syCloser (f i) = CDone \<and> syReader (f i) = RIdle \<and> syWriter (f i) = WIdle \<and>
    syRunning (f i) = 0 \<and> \<not> sySession (f i) \<and> \<not> syAdapter (f i)"
proof -
  obtain b where b: "\<forall>i. callBegins (f i) (f (Suc i)) \<longrightarrow> i < b"
    using assms(5) by (auto simp: finite_nat_set_iff_bounded)
  let ?n = "max n b"
  have closed: "syClosed (f i)" if "n \<le> i" for i
    using closed_stays [OF assms(1,6) that] .
  obtain m where m: "m \<ge> ?n" "\<forall>i\<ge>m. \<not> closingStep (f i) (f (Suc i))"
    using closing_ends [OF assms(1) closed [of ?n]] b by (meson linorder_not_less max.cobounded1 max.boundedE)
  have complete: "syCloser (f i) = CDone \<and> syReader (f i) = RIdle \<and> syWriter (f i) = WIdle" if "m \<le> i" for i
  proof -
    have "\<not> closingStep (f i) s'" for s'
      using stuck_contradiction [OF assms(1) _ assms(2-4), of i] m b that by (meson le_trans linorder_not_less max.boundedE)
    then show ?thesis
      using closing_moves [OF schedule_inv [OF assms(1)] closed, of i] m(1) that by auto
  qed
  show ?thesis
    using complete schedule_inv [OF assms(1)] by (intro exI [of _ m]) (auto simp: sync_inv_def)
qed

text \<open>
  C39: \<^verbatim>\<open>LUID\<close> is not covered by the wait group.  There is an interleaving in which \<^verbatim>\<open>LUID\<close> has seen
  the device open and calls the driver after the adapter was closed.
\<close>

theorem LUID_races_Close:
  "\<exists>s. syncStep\<^sup>*\<^sup>* initSync s \<and> syLuid s = LCall \<and> \<not> syAdapter s"
proof -
  let ?s1 = "initSync\<lparr>syLuid := LCall\<rparr>"
  let ?s2 = "?s1\<lparr>syCloser := CSignal, syClosed := True\<rparr>"
  let ?s3 = "?s2\<lparr>syCloser := CWait, syEvent := True\<rparr>"
  let ?s4 = "?s3\<lparr>syCloser := CEnd\<rparr>"
  let ?s5 = "?s4\<lparr>syCloser := CClose, sySession := False\<rparr>"
  let ?s6 = "?s5\<lparr>syCloser := CDone, syAdapter := False\<rparr>"
  have "luidStep initSync ?s1"
    by (simp add: luidStep_iff initSync_def)
  moreover have "closerStep ?s1 ?s2" "closerStep ?s2 ?s3" "closerStep ?s3 ?s4" "closerStep ?s4 ?s5"
      "closerStep ?s5 ?s6"
    by (simp_all add: closerStep_iff initSync_def)
  ultimately have "syncStep\<^sup>*\<^sup>* initSync ?s6"
    by (meson rtranclp.rtrancl_into_rtrancl rtranclp.rtrancl_refl syncStep.intros(3,4))
  then show ?thesis
    by (intro exI [of _ ?s6]) simp
qed

section \<open>Concrete instances\<close>

text \<open>A reader polling while the device is being closed.\<close>

definition demoClosing :: tunSync where
  "demoClosing = initSync\<lparr>syReader := RReceive, syRunning := 1, syCloser := CSignal, syClosed := True\<rparr>"

lemma demoClosing_reachable: "syncStep\<^sup>*\<^sup>* initSync demoClosing"
proof -
  let ?s1 = "initSync\<lparr>syReader := RCheck, syRunning := 1\<rparr>"
  let ?s2 = "?s1\<lparr>syReader := RLoop\<rparr>"
  let ?s3 = "?s2\<lparr>syReader := RReceive\<rparr>"
  have "readerStep initSync ?s1" "readerStep ?s1 ?s2" "readerStep ?s2 ?s3"
    by (simp_all add: readerStep_iff initSync_def)
  moreover have "closerStep ?s3 demoClosing"
    by (simp add: closerStep_iff initSync_def demoClosing_def)
  ultimately show ?thesis
    by (meson rtranclp.rtrancl_into_rtrancl rtranclp.rtrancl_refl syncStep.intros(1,3))
qed

theorem no_session_use_after_end_witness: "sySession demoClosing"
  using no_session_use_after_end [OF demoClosing_reachable] by (simp add: demoClosing_def)

text \<open>A schedule in which a parked reader is woken by the close.\<close>

definition demoStates :: "tunSync list" where
  "demoStates =
    (let parked = initSync\<lparr>syReader := RWait, syRunning := 1\<rparr>;
         signalled = parked\<lparr>syClosed := True, syEvent := True, syCloser := CWait\<rparr>;
         idle = signalled\<lparr>syReader := RIdle, syRunning := 0\<rparr>
     in [initSync, initSync\<lparr>syReader := RCheck, syRunning := 1\<rparr>, initSync\<lparr>syReader := RLoop, syRunning := 1\<rparr>,
         initSync\<lparr>syReader := RReceive, syRunning := 1\<rparr>, parked, parked\<lparr>syClosed := True, syCloser := CSignal\<rparr>,
         signalled, signalled\<lparr>syReader := RCheck\<rparr>, signalled\<lparr>syReader := RDone\<rparr>, idle,
         idle\<lparr>syCloser := CEnd\<rparr>, idle\<lparr>syCloser := CClose, sySession := False\<rparr>,
         idle\<lparr>syCloser := CDone, sySession := False, syAdapter := False\<rparr>])"

definition demoRun :: "nat \<Rightarrow> tunSync" where
  "demoRun i = demoStates ! min i 12"

lemma demoStates_step: "successively syncStep demoStates"
  by (simp add: demoStates_def initSync_def Let_def syncStep.simps readerStep_iff closerStep_iff ex_bool_eq)

lemma demoRun_schedule: "schedule demoRun"
proof -
  have len: "length demoStates = 13"
    by (simp add: demoStates_def Let_def)
  have "syncStep (demoStates ! i) (demoStates ! Suc i)" if "i < 12" for i
    using demoStates_step that len by (simp add: successively_conv_nth)
  moreover have "syncStep (demoStates ! 12) (demoStates ! 12)"
    using syncStep.packet [of "demoStates ! 12"] by (simp add: demoStates_def initSync_def Let_def)
  ultimately have "syncStep (demoRun i) (demoRun (Suc i))" for i
    by (cases "i < 12") (auto simp: demoRun_def min_def)
  then show ?thesis
    by (simp add: schedule_def demoRun_def demoStates_def Let_def)
qed

lemma demoRun_end: "12 \<le> i \<Longrightarrow> demoRun i = demoStates ! 12"
  by (simp add: demoRun_def)

lemma demoRun_fair: "fairTo readGoesOn demoRun" "fairTo writeGoesOn demoRun" "fairTo closerStep demoRun"
proof -
  have "\<not> readGoesOn (demoRun (max i 12)) s'" "\<not> writeGoesOn (demoRun (max i 12)) s'" "\<not> closerStep (demoRun (max i 12)) s'" for i s'
    by (simp_all add: demoRun_end readGoesOn_def writeGoesOn_def closerStep_iff demoStates_def initSync_def)
  then show "fairTo readGoesOn demoRun" "fairTo writeGoesOn demoRun" "fairTo closerStep demoRun"
    unfolding fairTo_def by (meson max.cobounded1)+
qed

lemma demoRun_calls: "finite {i. callBegins (demoRun i) (demoRun (Suc i))}"
proof (rule finite_subset)
  have "\<not> callBegins (demoRun i) (demoRun (Suc i))" if "12 \<le> i" for i
    using that by (simp add: demoRun_end callBegins_def readerStep_iff writerStep_iff demoStates_def initSync_def)
  then show "{i. callBegins (demoRun i) (demoRun (Suc i))} \<subseteq> {..< 12}"
    by (auto simp: not_less [symmetric])
qed simp

theorem close_terminates_witness:
  "syReader (demoRun 4) = RWait \<and> (\<exists>m. \<forall>i\<ge>m. syCloser (demoRun i) = CDone \<and> \<not> syAdapter (demoRun i))"
proof -
  have "syClosed (demoRun 5)" "syReader (demoRun 4) = RWait"
    by (simp_all add: demoRun_def demoStates_def initSync_def Let_def)
  then show ?thesis
    using close_terminates [OF demoRun_schedule demoRun_fair demoRun_calls, of 5] by blast
qed

end
