(* ===== verification/Veiltun_Read.thy ===== *)
theory Veiltun_Read
  imports Veiltun
begin

text \<open>
  That \<^verbatim>\<open>Read\<close> of \<^verbatim>\<open>src/veiltun/device.go\<close> returns.  With nothing in the ring it polls until its spin budget is
  used up, waits for the driver's event, and starts over; packets, the end of the session and
  \<^verbatim>\<open>Close\<close> may come at any moment in between.  The wait may come back with nothing to read (the event may
  be left over from packets already taken, or the wait may have failed, which the code does not look
  at); the loop then starts over.  What is needed of the outside is that the clock does not stop and
  that not every wake-up is for nothing.
\<close>

section \<open>What a read may return\<close>

text \<open>
  No panic; a count within the buffers; packets without an error, or an error without packets, or
  nothing at all when there was no buffer.
\<close>

definition readResult_ok :: "nat \<Rightarrow> (nat \<times> gerr option) goResult \<Rightarrow> bool" where
  "readResult_ok k r \<longleftrightarrow>
     (case r of Panic \<Rightarrow> False
      | Ret (n, err) \<Rightarrow> n \<le> k \<and> (if n = 0 then k = 0 \<or> err \<noteq> None else err = None))"

lemma readResult_ok_error: "readResult_ok k (Ret (0, Some err))"
  by (simp add: readResult_ok_def)

definition roomFor :: "nat \<Rightarrow> u8 list list \<Rightarrow> int list \<Rightarrow> bool" where
  "roomFor off bufs sizes \<longleftrightarrow> length bufs \<le> length sizes \<and> (\<forall>b\<in>set bufs. off \<le> length b)"

lemma length_filledBuf [simp]: "off \<le> length b \<Longrightarrow> length (filledBuf off b pk) = length b"
  by (simp add: filledBuf_def goCopy_def)

lemma roomFor_store:
  assumes "roomFor off bufs sizes" "i < length bufs"
  shows "\<exists>bufs' sizes'. storePacket (int off) i pk bufs sizes = Some (bufs', sizes') \<and>
    roomFor off bufs' sizes' \<and> length bufs' = length bufs"
proof -
  have "off \<le> length (bufs ! i)" "i < length sizes"
    using assms by (auto simp: roomFor_def)
  then show ?thesis
    using assms storePacket_ok [of off bufs i sizes pk]
    by (auto simp: roomFor_def dest!: set_update_subset_insert [THEN subsetD])
qed

section \<open>The loop\<close>

text \<open>What one poll can bring: a packet that is stored and released, or an error.\<close>

lemma ReceivePacket_cases:
  assumes "documented_rx sys p t rx fin"
  obtains (packet) sl w1 w2 where "ReceivePacket sys p (ntSession t) w = (Inr sl, w1)"
      "ReleaseReceivePacket sys p (ntSession t) sl w1 = Ret w2"
  | (failed) w1 where "rx w = []" "ReceivePacket sys p (ntSession t) w = (Inl (Errno (fin w)), w1)"
proof (cases "rx w")
  case Nil
  then show ?thesis
    using ReceivePacket_rx(1) [OF assms] failed by blast
next
  case (Cons pk rest)
  then obtain sl w1 where "ReceivePacket sys p (ntSession t) w = (Inr sl, w1)" "slLen sl = length pk" "pk \<noteq> []"
    using ReceivePacket_rx(2) [OF assms] by blast
  then show ?thesis
    using ReleaseReceivePacket_rx [OF assms, of sl w1] packet by auto
qed

text \<open>With a packet in hand the loop only goes forward.\<close>

lemma readLoop_forward:
  assumes "documented_rx sys p t rx fin"
  shows "0 < n \<Longrightarrow> n \<le> i \<Longrightarrow> i \<le> length bufs \<Longrightarrow> roomFor off bufs sizes \<Longrightarrow>
    \<exists>r. readLoop sys p t (int off) i n spin bufs sizes w = Some r \<and> readResult_ok (length bufs) (fst r)"
proof (induction "length bufs - i" arbitrary: i n bufs sizes w)
  case 0
  then show ?case
    by (subst readLoop.simps) (simp add: readResult_ok_def)
next
  case (Suc k)
  then have i: "i < length bufs"
    by simp
  from assms show ?case
  proof (cases rule: ReceivePacket_cases [of sys p t rx fin w])
    case (packet sl w1 w2)
    obtain bufs' sizes' where st: "storePacket (int off) i (tsRead sys (slPtr sl) (slLen sl) w1) bufs sizes = Some (bufs', sizes')"
      "roomFor off bufs' sizes'" "length bufs' = length bufs"
      using roomFor_store [OF Suc.prems(4) i] by blast
    then show ?thesis
      using Suc.hyps(1) [of bufs' "Suc i" "Suc n" sizes' w2] Suc.hyps(2) Suc.prems i packet
      by (subst readLoop.simps) (simp add: readResult_ok_def)
  next
    case (failed w1)
    then show ?thesis
      using Suc.prems i by (subst readLoop.simps) (simp add: readResult_ok_def)
  qed
qed

text \<open>A poll that ends the waiting.\<close>

definition readable :: "'w tunSys \<Rightarrow> NativeTun \<Rightarrow> ('w \<Rightarrow> u8 list list) \<Rightarrow> ('w \<Rightarrow> u32) \<Rightarrow> 'w \<Rightarrow> bool" where
  "readable sys t rx fin w \<longleftrightarrow> tsClosed sys (ntObj t) w \<or> rx w \<noteq> [] \<or> Errno (fin w) \<noteq> ERROR_NO_MORE_ITEMS"

lemma readLoop_readable:
  assumes "documented_rx sys p t rx fin" "readable sys t rx fin w \<or> bufs = []" "roomFor off bufs sizes"
  shows "\<exists>r. readLoop sys p t (int off) 0 0 spin bufs sizes w = Some r \<and> readResult_ok (length bufs) (fst r)"
proof (cases "bufs = [] \<or> tsClosed sys (ntObj t) w")
  case True
  then show ?thesis
    by (subst readLoop.simps) (auto simp: readResult_ok_def)
next
  case False
  then have i: "0 < length bufs"
    by simp
  from assms(1) show ?thesis
  proof (cases rule: ReceivePacket_cases [of sys p t rx fin w])
    case (packet sl w1 w2)
    obtain bufs' sizes' where st: "storePacket (int off) 0 (tsRead sys (slPtr sl) (slLen sl) w1) bufs sizes = Some (bufs', sizes')"
      "roomFor off bufs' sizes'" "length bufs' = length bufs"
      using roomFor_store [OF assms(3) i] by blast
    then show ?thesis
      using readLoop_forward [OF assms(1), of 1 1 bufs' off sizes' spin w2] False i packet
      by (subst readLoop.simps) (simp add: Suc_le_eq)
  next
    case (failed w1)
    then show ?thesis
      using assms(2) False by (subst readLoop.simps) (auto simp: readable_def readResult_ok_def)
  qed
qed

section \<open>Spinning and waiting\<close>

text \<open>One round of the spin: a poll that brings nothing, a look at the clock, \<^verbatim>\<open>runtime.Gosched()\<close>.\<close>

definition spinRound :: "'w tunSys \<Rightarrow> procTable \<Rightarrow> NativeTun \<Rightarrow> 'w \<Rightarrow> 'w" where
  "spinRound sys p t w = tsGosched sys (snd (tsNow sys (snd (ReceivePacket sys p (ntSession t) w))))"

text \<open>The time that round \<open>k\<close> of the spin reads.\<close>

definition spinTime :: "'w tunSys \<Rightarrow> procTable \<Rightarrow> NativeTun \<Rightarrow> nat \<Rightarrow> 'w \<Rightarrow> int" where
  "spinTime sys p t k w = fst (tsNow sys (snd (ReceivePacket sys p (ntSession t) ((spinRound sys p t ^^ k) w))))"

definition clockRuns :: "'w tunSys \<Rightarrow> procTable \<Rightarrow> NativeTun \<Rightarrow> bool" where
  "clockRuns sys p t \<longleftrightarrow> (\<forall>w d. \<exists>k. spinTime sys p t k w > d)"

text \<open>
  \<open>due\<close> bounds how many more wake-ups come for nothing before there is a packet, the end of the
  session or a close: polling, looking at the clock and yielding do not raise it, and each wait that
  comes back with nothing to read lowers it.
\<close>

definition wakesUp ::
  "'w tunSys \<Rightarrow> procTable \<Rightarrow> NativeTun \<Rightarrow> ('w \<Rightarrow> u8 list list) \<Rightarrow> ('w \<Rightarrow> u32) \<Rightarrow> ('w \<Rightarrow> nat) \<Rightarrow> bool" where
  "wakesUp sys p t rx fin due \<longleftrightarrow>
     (\<forall>w. \<not> readable sys t rx fin w \<longrightarrow> due (snd (ReceivePacket sys p (ntSession t) w)) \<le> due w) \<and>
     (\<forall>w. due (snd (tsNow sys w)) \<le> due w) \<and> (\<forall>w. due (tsGosched sys w) \<le> due w) \<and>
     (\<forall>w. let w' = tsWaitForSingleObject sys (ntReadWait t) w in readable sys t rx fin w' \<or> due w' < due w)"

text \<open>A read from the label \<^verbatim>\<open>retry\<close> on that returns properly.\<close>

definition loopReturns ::
  "'w tunSys \<Rightarrow> procTable \<Rightarrow> NativeTun \<Rightarrow> nat \<Rightarrow> u8 list list \<Rightarrow> int list \<Rightarrow> int option \<Rightarrow> 'w \<Rightarrow> bool" where
  "loopReturns sys p t off bufs sizes spin w \<longleftrightarrow>
     (\<exists>r. readLoop sys p t (int off) 0 0 spin bufs sizes w = Some r \<and> readResult_ok (length bufs) (fst r))"

lemma readLoop_idle:
  assumes "documented_rx sys p t rx fin" "\<not> readable sys t rx fin w"
  obtains w1 where "ReceivePacket sys p (ntSession t) w = (Inl ERROR_NO_MORE_ITEMS, w1)" "\<not> tsClosed sys (ntObj t) w"
  using assms(2) ReceivePacket_rx(1) [OF assms(1), of w] by (auto simp: readable_def)

lemma loopReturns_readable:
  "documented_rx sys p t rx fin \<Longrightarrow> roomFor off bufs sizes \<Longrightarrow> readable sys t rx fin w \<or> bufs = [] \<Longrightarrow>
   loopReturns sys p t off bufs sizes spin w"
  unfolding loopReturns_def by (rule readLoop_readable)

text \<open>One round with nothing to read: on to the next round, or to the wait and the next try.\<close>

lemma loopReturns_round:
  assumes "documented_rx sys p t rx fin" "\<not> readable sys t rx fin w" "bufs \<noteq> []"
    and "w1 = snd (ReceivePacket sys p (ntSession t) w)" "w2 = snd (tsNow sys w1)"
    and "v = tsWaitForSingleObject sys (ntReadWait t) (if canSpin sys then w2 else w1)"
    and "tsClosed sys (ntObj t) v \<or> loopReturns sys p t off bufs sizes None v"
    and "spin = None \<longrightarrow> canSpin sys \<longrightarrow>
      loopReturns sys p t off bufs sizes (Some (fst (tsNow sys w1) + spinBudget)) (tsGosched sys w2)"
    and "spin \<noteq> None \<longrightarrow> canSpin sys \<longrightarrow> fst (tsNow sys w1) \<le> the spin \<longrightarrow>
      loopReturns sys p t off bufs sizes spin (tsGosched sys w2)"
  shows "loopReturns sys p t off bufs sizes spin w"
proof -
  have idle: "ReceivePacket sys p (ntSession t) w = (Inl ERROR_NO_MORE_ITEMS, w1)" "\<not> tsClosed sys (ntObj t) w"
    using readLoop_idle [OF assms(1,2)] assms(4) by (metis snd_conv)+
  have "readLoop sys p t (int off) 0 0 spin bufs sizes w =
     (if canSpin sys \<and> spin = None then
        readLoop sys p t (int off) 0 0 (Some (fst (tsNow sys w1) + spinBudget)) bufs sizes (tsGosched sys w2)
      else if canSpin sys \<and> fst (tsNow sys w1) \<le> the spin then
        readLoop sys p t (int off) 0 0 spin bufs sizes (tsGosched sys w2)
      else if tsClosed sys (ntObj t) v then Some (Ret (0, Some ErrClosed), bufs, sizes, v)
      else readLoop sys p t (int off) 0 0 None bufs sizes v)"
    using idle assms(3,5,6) by (subst readLoop.simps) (simp add: not_less)
  then show ?thesis
    using assms(7-9) unfolding loopReturns_def by (auto simp: readResult_ok_error)
qed

lemma wakesUpD:
  assumes "wakesUp sys p t rx fin due" "\<not> readable sys t rx fin w"
    and "w1 = snd (ReceivePacket sys p (ntSession t) w)" "w2 = snd (tsNow sys w1)"
  shows "due w1 \<le> due w" "due w2 \<le> due w" "due (tsGosched sys w2) \<le> due w"
  using assms unfolding wakesUp_def by (meson order_trans)+

lemma wakesUp_wait:
  assumes "documented_rx sys p t rx fin" "wakesUp sys p t rx fin due" "roomFor off bufs sizes"
    and "\<And>v. due v < m \<Longrightarrow> loopReturns sys p t off bufs sizes None v" "due u \<le> m"
  shows "loopReturns sys p t off bufs sizes None (tsWaitForSingleObject sys (ntReadWait t) u)"
  using assms(2,5) loopReturns_readable [OF assms(1,3)] assms(4) unfolding wakesUp_def Let_def
  by (meson order_less_le_trans)

lemma loopReturns_spinning:
  assumes "documented_rx sys p t rx fin" "wakesUp sys p t rx fin due" "roomFor off bufs sizes"
    and "\<And>v. due v < m \<Longrightarrow> loopReturns sys p t off bufs sizes None v"
  shows "spinTime sys p t k w > d \<Longrightarrow> due w \<le> m \<Longrightarrow> loopReturns sys p t off bufs sizes (Some d) w"
proof (induction k arbitrary: w)
  case (0 w)
  show ?case
  proof (cases "readable sys t rx fin w \<or> bufs = []")
    case False
    then have idle: "\<not> readable sys t rx fin w" "bufs \<noteq> []"
      by simp_all
    note due = wakesUpD [OF assms(2) idle(1) refl refl]
    show ?thesis
      using wakesUp_wait [OF assms] due 0
      by (intro loopReturns_round [OF assms(1) idle refl refl refl]) (auto simp: spinTime_def)
  qed (rule loopReturns_readable [OF assms(1,3)])
next
  case (Suc k w)
  show ?case
  proof (cases "readable sys t rx fin w \<or> bufs = []")
    case False
    then have idle: "\<not> readable sys t rx fin w" "bufs \<noteq> []"
      by simp_all
    note due = wakesUpD [OF assms(2) idle(1) refl refl]
    have "loopReturns sys p t off bufs sizes (Some d) (spinRound sys p t w)"
      using Suc due(3) by (simp add: spinTime_def funpow_swap1 spinRound_def)
    then show ?thesis
      using wakesUp_wait [OF assms] due Suc.prems
      by (intro loopReturns_round [OF assms(1) idle refl refl refl]) (auto simp: spinRound_def)
  qed (rule loopReturns_readable [OF assms(1,3)])
qed

lemma loopReturns_always:
  assumes "documented_rx sys p t rx fin" "clockRuns sys p t" "wakesUp sys p t rx fin due" "roomFor off bufs sizes"
  shows "loopReturns sys p t off bufs sizes None w"
proof (induction "due w" arbitrary: w rule: less_induct)
  case less
  show ?case
  proof (cases "readable sys t rx fin w \<or> bufs = []")
    case False
    then have idle: "\<not> readable sys t rx fin w" "bufs \<noteq> []"
      by simp_all
    note due = wakesUpD [OF assms(3) idle(1) refl refl]
    let ?w1 = "snd (ReceivePacket sys p (ntSession t) w)"
    let ?d = "fst (tsNow sys ?w1) + spinBudget" and ?v = "tsGosched sys (snd (tsNow sys ?w1))"
    obtain k where "spinTime sys p t k ?v > ?d"
      using assms(2) unfolding clockRuns_def by blast
    from loopReturns_spinning [OF assms(1,3,4) less this due(3)]
    have "loopReturns sys p t off bufs sizes (Some ?d) ?v" .
    then show ?thesis
      using wakesUp_wait [OF assms(1,3,4) less] due
      by (intro loopReturns_round [OF assms(1) idle refl refl refl]) auto
  qed (rule loopReturns_readable [OF assms(1,4)])
qed

section \<open>Read returns\<close>

text \<open>
  C12: \<^verbatim>\<open>Read\<close> returns, whatever arrives while it spins and waits and however often it is woken for
  nothing in between, as long as the clock runs and not every wake-up is for nothing: on one processor
  and on several, it comes back with at least one packet and no error, or with no packet and an
  error, or empty-handed when it was given no buffer; it never panics when the sizes have a place for
  every buffer and the offset is within every buffer.  On a closed device it returns \<^verbatim>\<open>os.ErrClosed\<close> at once.
\<close>

theorem Read_returns:
  assumes "documented_rx sys p t rx fin" "clockRuns sys p t" "wakesUp sys p t rx fin due"
    and "length bufs \<le> length sizes" "\<forall>b\<in>set bufs. off \<le> length b"
  shows "\<exists>r. tunRead sys p t bufs sizes (int off) w = Some r \<and> readResult_ok (length bufs) (fst r) \<and>
    (tsClosed sys (ntObj t) w \<longrightarrow> fst r = Ret (0, Some ErrClosed) \<and> fst (snd r) = bufs)"
proof -
  let ?w = "tsRunningAdd sys (ntObj t) 1 w"
  have run: "tsClosed sys (ntObj t) ?w = tsClosed sys (ntObj t) w"
    using assms(1) by (simp add: documented_rx_def)
  obtain r where "readLoop sys p t (int off) 0 0 None bufs sizes ?w = Some r" "readResult_ok (length bufs) (fst r)"
    using loopReturns_always [OF assms(1-3), of off bufs sizes ?w] assms(4,5)
    by (auto simp: roomFor_def loopReturns_def)
  then show ?thesis
    using run by (cases r; cases "tsClosed sys (ntObj t) w") (simp_all add: tunRead_def readResult_ok_error)
qed

text \<open>
  The reference driver on two processors, with a clock that advances by a tenth of a millisecond at each
  reading.  The wait comes back for nothing as often as \<open>twTx\<close> has entries, then with a packet.
\<close>

definition lateTun :: "tunWorld tunSys" where
  "lateTun = memTun\<lparr>tsNumCPU := 2, tsNow := (\<lambda>w. (int (twNext w), w\<lparr>twNext := twNext w + 100000\<rparr>)),
     tsWaitForSingleObject := (\<lambda>h w. if twTx w = [] then w\<lparr>twRx := [[7, 8]]\<rparr> else w\<lparr>twTx := tl (twTx w)\<rparr>)\<rparr>"

lemma lateTun_rx: "documented_rx lateTun p t (\<lambda>w. map ringPacket (twRx w)) (\<lambda>w. 259)"
  using memTun_rx [of p t] by (simp add: documented_rx_def lateTun_def cong: prod.case_cong list.case_cong)

lemma lateTun_time: "twNext ((spinRound lateTun p t ^^ k) w) = twNext w + 100000 * k"
proof (induction k)
  case (Suc k)
  have "twNext (spinRound lateTun p t v) = twNext v + 100000" for v
    by (simp add: spinRound_def ReceivePacket_def lateTun_def memTun_def split: list.splits)
  then show ?case
    using Suc by simp
qed simp

lemma lateTun_clock: "clockRuns lateTun p t"
proof -
  have "spinTime lateTun p t k w = int (twNext w + 100000 * k)" for k w
    using lateTun_time [where p = p and t = t and k = k and w = w]
    by (simp add: spinTime_def ReceivePacket_def lateTun_def memTun_def split: list.splits)
  then have "spinTime lateTun p t (nat d + 1) w > d" for d w
    by simp
  then show ?thesis
    unfolding clockRuns_def by blast
qed

lemma lateTun_wakes: "wakesUp lateTun p t (\<lambda>w. map ringPacket (twRx w)) (\<lambda>w. 259) (\<lambda>w. length (twTx w))"
  by (auto simp: wakesUp_def readable_def ReceivePacket_def lateTun_def memTun_def Let_def split: list.splits)

theorem Read_returns_witness:
  "\<exists>r. tunRead lateTun zeroProcs demoTun [[9, 9, 9], [9, 9]] [0, 0] 1 (emptyTun\<lparr>twTx := [[], []]\<rparr>) = Some r \<and>
     readResult_ok 2 (fst r)"
  using Read_returns [OF lateTun_rx lateTun_clock lateTun_wakes, where bufs = "[[9, 9, 9], [9, 9]]" and sizes = "[0, 0]"
      and off = 1 and p = zeroProcs and t = demoTun and w = "emptyTun\<lparr>twTx := [[], []]\<rparr>"]
  by (auto simp: numeral_2_eq_2)

end
