(* ===== verification/Windev_Device.thy ===== *)
theory Windev_Device
  imports Veiltun
begin

text \<open>
  The TUN device handed to the engine, \<^verbatim>\<open>src/windev/device.go\<close>: a name and the native device it
  delegates to.  \<^verbatim>\<open>engine.DefaultTunMTU\<close> belongs to another module and is an argument.
\<close>

record TunDevice =
  tdDev :: NativeTun
  tdName :: string

definition NewTunDevice ::
  "'w tunSys \<Rightarrow> int \<Rightarrow> string \<Rightarrow> tunGlobals \<Rightarrow> 'w \<Rightarrow> (gerr + TunDevice) \<times> tunGlobals \<times> 'w" where
  "NewTunDevice sys mtu name g w =
     (let name = (if name = [] then ''veil0'' else name) in
      case CreateTUN sys name mtu g w of
        (Inl err, g, w) \<Rightarrow> (Inl (Wrapf ''failed to create VEIL tun adapter: '' err), g, w)
      | (Inr dev, g, w) \<Rightarrow> (Inr \<lparr>tdDev = dev, tdName = name\<rparr>, g, w))"

definition deviceBatchSize :: "TunDevice \<Rightarrow> nat" where
  "deviceBatchSize t = tunBatchSize (tdDev t)"

definition ReadBatch ::
  "'w tunSys \<Rightarrow> procTable \<Rightarrow> TunDevice \<Rightarrow> u8 list list \<Rightarrow> int list \<Rightarrow> int \<Rightarrow> 'w \<Rightarrow> 'w readResult option" where
  "ReadBatch sys p t bufs sizes offset w = tunRead sys p (tdDev t) bufs sizes offset w"

definition WriteBatch ::
  "'w tunSys \<Rightarrow> procTable \<Rightarrow> TunDevice \<Rightarrow> u8 list list \<Rightarrow> int \<Rightarrow> 'w
     \<Rightarrow> (nat \<times> gerr option) goResult \<times> 'w" where
  "WriteBatch sys p t bufs offset w = tunWrite sys p (tdDev t) bufs offset w"

definition deviceClose :: "'w tunSys \<Rightarrow> procTable \<Rightarrow> TunDevice \<Rightarrow> 'w \<Rightarrow> TunDevice \<times> 'w" where
  "deviceClose sys p t w = (let (d, w) = tunClose sys p (tdDev t) w in (t\<lparr>tdDev := d\<rparr>, w))"

definition deviceName :: "TunDevice \<Rightarrow> string" where
  "deviceName t = tdName t"

definition deviceLUID :: "'w tunSys \<Rightarrow> procTable \<Rightarrow> TunDevice \<Rightarrow> 'w \<Rightarrow> u64 \<times> 'w" where
  "deviceLUID sys p t w = tunLUID sys p (tdDev t) w"

section \<open>Handles\<close>

interpretation td: closable "deviceClose sys p" "\<lambda>t. ntCloseOnce (tdDev t)" for sys :: "'w tunSys" and p
  by unfold_locales (simp_all add: deviceClose_def split_def Let_def nt.closed_noop nt.closes)

definition deviceHandles :: "TunDevice \<Rightarrow> uintptr \<times> uintptr" where
  "deviceHandles t = (adHandle (ntAdapter (tdDev t)), ssHandle (ntSession (tdDev t)))"

text \<open>An open device holds a live adapter and a live session.\<close>

definition deviceOpen :: "TunDevice \<Rightarrow> bool" where
  "deviceOpen t \<longleftrightarrow> \<not> ntCloseOnce (tdDev t) \<and> adHandle (ntAdapter (tdDev t)) \<noteq> 0 \<and>
     ssHandle (ntSession (tdDev t)) \<noteq> 0"

lemma NewTunDevice_handles:
  assumes "documented_handles sys (procs (fst (snd (load sys g w)))) adapters sessions"
    and "NewTunDevice sys mtu name g w = (r, g', w')"
  shows "case r of Inl _ \<Rightarrow> adapters w' = adapters w \<and> sessions w' = sessions w
    | Inr t \<Rightarrow> procs g' = procs (fst (snd (load sys g w))) \<and> deviceOpen t \<and>
        fst (deviceHandles t) \<notin> adapters w \<and> adapters w' = insert (fst (deviceHandles t)) (adapters w) \<and>
        snd (deviceHandles t) \<notin> sessions w \<and> sessions w' = insert (snd (deviceHandles t)) (sessions w) \<and>
        tdName t = (if name = [] then ''veil0'' else name)"
proof -
  obtain rc g1 w1 where c: "CreateTUN sys (if name = [] then ''veil0'' else name) mtu g w = (rc, g1, w1)"
    by (metis prod.exhaust)
  note H = CreateTUN_handles [OF assms(1) c]
  show ?thesis
    using assms(2) c H by (cases rc) (auto simp: NewTunDevice_def Let_def deviceOpen_def deviceHandles_def)
qed

lemma deviceClose_handles:
  assumes "documented_handles sys p adapters sessions" "deviceClose sys p t w = (t', w')" "deviceOpen t"
  shows "adapters w' = adapters w - {fst (deviceHandles t)} \<and>
    sessions w' = sessions w - {snd (deviceHandles t)}"
  using assms(2,3) tunClose_handles [OF assms(1), of "tdDev t" w]
  by (auto simp: deviceClose_def deviceOpen_def deviceHandles_def split: prod.splits)

end
