(* ===== verification/Windev_Routing.thy ===== *)
theory Windev_Routing
  imports Win_Luid
begin

text \<open>
  Interface configuration of the tunnel, \<^verbatim>\<open>src/windev/routing.go\<close>: address, MTU, the endpoint
  exception route, the AllowedIPs routes and DNS, and the cleanup closure.  The closure is the
  record \<open>RoutingCleanup\<close> of the variables it captures.  The configuration type, the tunnel MTU
  and name resolution belong to other packages and are parameters; of the configuration only the
  fields the code reads appear.  What the code prints is a list of \<open>route_log\<close> entries.
\<close>

section \<open>Configuration and log output\<close>

record PeerConfig =
  peerEndpoint :: string
  peerAllowedIPs :: "string list"

record Config =
  cfgAddress :: string
  cfgListenPort :: int
  cfgDNS :: string
  cfgPeers :: "PeerConfig list"

datatype route_log =
    MtuFailed gerr | MtuSet int | ExceptionFailed gerr | ExceptionAdded Prefix Addr
  | NoDefaultRoute | TableFailed gerr | AddRouteFailed Prefix gerr | DnsFailed gerr

section \<open>Endpoint and default route\<close>

fun firstV4 :: "u8 list list \<Rightarrow> Addr option" where
  "firstV4 [] = None"
| "firstV4 (ip # ips) =
     (case ipTo4 ip of
        Some v4 \<Rightarrow> Some (case AddrFromSlice v4 of Some a \<Rightarrow> a | None \<Rightarrow> NoAddr)
      | None \<Rightarrow> firstV4 ips)"

text \<open>\<open>lookup\<close> is \<^verbatim>\<open>net.LookupIP\<close>: the addresses of a host name, or an error.\<close>

fun resolveEndpoint :: "(string \<Rightarrow> u8 list list option) \<Rightarrow> PeerConfig list \<Rightarrow> Addr" where
  "resolveEndpoint lookup [] = NoAddr"
| "resolveEndpoint lookup (p # ps) =
     (if peerEndpoint p = [] then resolveEndpoint lookup ps
      else let host = (case SplitHostPort (peerEndpoint p) of
                         Some (h, _) \<Rightarrow> h | None \<Rightarrow> peerEndpoint p)
           in case lookup host of
                None \<Rightarrow> resolveEndpoint lookup ps
              | Some ips \<Rightarrow>
                  (case firstV4 ips of
                     Some a \<Rightarrow> a
                   | None \<Rightarrow> resolveEndpoint lookup ps))"

definition eligible :: "LUID \<Rightarrow> MibIPforwardRow2 \<Rightarrow> bool" where
  "eligible exclude r \<longleftrightarrow>
     (let p = prefixOf (frDestinationPrefix r)
      in \<not> (\<not> addrIs4 (pfxAddr p) \<or> pfxBits p \<noteq> 0 \<or> frInterfaceLUID r = exclude))"

text \<open>The scan of the table; \<^const>\<open>None\<close> while \<^verbatim>\<open>found\<close> is false.\<close>

fun bestRoute :: "LUID \<Rightarrow> MibIPforwardRow2 list \<Rightarrow> MibIPforwardRow2 option \<Rightarrow> MibIPforwardRow2 option" where
  "bestRoute exclude [] best = best"
| "bestRoute exclude (r # rs) best =
     (if \<not> eligible exclude r then bestRoute exclude rs best
      else if best = None \<or> frMetric r < frMetric (the best) then bestRoute exclude rs (Some r)
      else bestRoute exclude rs best)"

definition defaultRoute ::
  "'w iphlpapi \<Rightarrow> LUID \<Rightarrow> 'w \<Rightarrow> (LUID \<times> Addr) option \<times> route_log list" where
  "defaultRoute api exclude w =
     (case GetIPForwardTable2 api AF_INET w of
        Inl err \<Rightarrow> (None, [TableFailed err])
      | Inr rows \<Rightarrow>
          (case bestRoute exclude rows None of
             None \<Rightarrow> (None, [])
           | Some best \<Rightarrow> (Some (frInterfaceLUID best, sockAddr (frNextHop best)), [])))"

section \<open>Tunnel routes\<close>

text \<open>The prefixes one AllowedIPs entry stands for: the IPv4 default is split in two halves.\<close>

definition tunnelPrefixes :: "string \<Rightarrow> Prefix list" where
  "tunnelPrefixes a =
     (case ParsePrefix (trimSpace a) of
        None \<Rightarrow> []
      | Some pfx \<Rightarrow>
          if pfxBits pfx = 0 \<and> addrIs4 (pfxAddr pfx)
          then [PrefixFrom IPv4Unspecified 1, PrefixFrom (Addr4 128 0 0 0) 1]
          else [pfx])"

fun addRouteLogged ::
  "'w iphlpapi \<Rightarrow> LUID \<Rightarrow> Prefix list \<Rightarrow> 'w \<Rightarrow> route_log list \<times> 'w" where
  "addRouteLogged api luid [] w = ([], w)"
| "addRouteLogged api luid (p # ps) w =
     (let (e, w) = AddRoute api luid p IPv4Unspecified 0 w;
          (ls, w) = addRouteLogged api luid ps w
      in ((case e of Some err \<Rightarrow> [AddRouteFailed p err] | None \<Rightarrow> []) @ ls, w))"

definition addTunnelRoutes ::
  "'w iphlpapi \<Rightarrow> LUID \<Rightarrow> PeerConfig list \<Rightarrow> 'w \<Rightarrow> route_log list \<times> 'w" where
  "addTunnelRoutes api luid peers w =
     addRouteLogged api luid
       (concat (map (\<lambda>p. concat (map tunnelPrefixes (peerAllowedIPs p))) peers)) w"

section \<open>ConfigureRouting and its cleanup\<close>

record RoutingCleanup =
  rcTunLUID :: LUID
  rcExceptionLUID :: LUID
  rcExceptionPrefix :: Prefix
  rcExceptionHop :: Addr

definition setInterfaceMtu ::
  "'w iphlpapi \<Rightarrow> LUID \<Rightarrow> int \<Rightarrow> 'w \<Rightarrow> route_log list \<times> 'w" where
  "setInterfaceMtu api luid mtu w =
     (case IPInterface api luid AF_INET w of
        Inl _ \<Rightarrow> ([], w)
      | Inr ipif \<Rightarrow>
          (case interfaceRowSet api (ipif\<lparr>ifNLMTU := of_int mtu\<rparr>) w of
             (Some err, w) \<Rightarrow> ([MtuFailed err], w)
           | (None, w) \<Rightarrow> ([MtuSet mtu], w)))"

definition addException ::
  "'w iphlpapi \<Rightarrow> (string \<Rightarrow> u8 list list option) \<Rightarrow> LUID \<Rightarrow> PeerConfig list \<Rightarrow> 'w
     \<Rightarrow> RoutingCleanup \<times> route_log list \<times> 'w" where
  "addException api lookup tunLUID peers w =
     (let none = \<lparr>rcTunLUID = tunLUID, rcExceptionLUID = 0, rcExceptionPrefix = zeroPrefix,
                  rcExceptionHop = NoAddr\<rparr>;
          serverIP = resolveEndpoint lookup peers
      in if \<not> addrIsValid serverIP then (none, [], w)
         else case defaultRoute api tunLUID w of
           (None, ls) \<Rightarrow> (none, ls @ [NoDefaultRoute], w)
         | (Some (pluid, hop), ls) \<Rightarrow>
             let pfx = PrefixFrom serverIP (addrBitLen serverIP) in
             (case AddRoute api pluid pfx hop 0 w of
                (Some err, w) \<Rightarrow> (none\<lparr>rcExceptionPrefix := pfx\<rparr>, ls @ [ExceptionFailed err], w)
              | (None, w) \<Rightarrow>
                  (none\<lparr>rcExceptionLUID := pluid, rcExceptionPrefix := pfx, rcExceptionHop := hop\<rparr>,
                   ls @ [ExceptionAdded pfx hop], w)))"

definition dnsServers :: "string \<Rightarrow> Addr list" where
  "dnsServers dns = List.map_filter (\<lambda>s. ParseAddr (trimSpace s)) (splitOn (CHR '','') dns)"

definition configureDns ::
  "goarch \<Rightarrow> 'w iphlpapi \<Rightarrow> 'w winsys \<Rightarrow> LUID \<Rightarrow> string \<Rightarrow> 'w \<Rightarrow> route_log list \<times> 'w" where
  "configureDns arch api sys luid dns w =
     (if dns = [] then ([], w)
      else let servers = dnsServers dns in
        if servers = [] then ([], w)
        else case SetDNS arch api sys luid AF_INET servers [] w of
               (Some err, w) \<Rightarrow> ([DnsFailed err], w)
             | (None, w) \<Rightarrow> ([], w))"

definition ConfigureRouting ::
  "goarch \<Rightarrow> 'w iphlpapi \<Rightarrow> 'w winsys \<Rightarrow> (string \<Rightarrow> u8 list list option) \<Rightarrow> int \<Rightarrow> LUID \<Rightarrow> Config
     \<Rightarrow> 'w \<Rightarrow> (gerr + RoutingCleanup) \<times> route_log list \<times> 'w" where
  "ConfigureRouting arch api sys lookup mtu tunLUID cfg w =
     (case (case ParsePrefix (cfgAddress cfg) of
              None \<Rightarrow> (None, w)
            | Some addr \<Rightarrow> SetIPAddresses api tunLUID [addr] w) of
        (Some err, w) \<Rightarrow> (Inl err, [], w)
      | (None, w) \<Rightarrow>
          (let (l1, w) = setInterfaceMtu api tunLUID mtu w;
               (c, l2, w) = addException api lookup tunLUID (cfgPeers cfg) w;
               (l3, w) = addTunnelRoutes api tunLUID (cfgPeers cfg) w;
               (l4, w) = configureDns arch api sys tunLUID (cfgDNS cfg) w
           in (Inr c, l1 @ l2 @ l3 @ l4, w)))"

definition runCleanup ::
  "goarch \<Rightarrow> 'w iphlpapi \<Rightarrow> 'w winsys \<Rightarrow> RoutingCleanup \<Rightarrow> 'w \<Rightarrow> 'w" where
  "runCleanup arch api sys c w =
     (let w = snd (FlushRoutes api (rcTunLUID c) AF_INET w);
          w = snd (FlushDNS arch api sys (rcTunLUID c) AF_INET w)
      in if rcExceptionLUID c \<noteq> 0 \<and> prefixIsValid (rcExceptionPrefix c)
         then snd (DeleteRoute api (rcExceptionLUID c) (rcExceptionPrefix c) (rcExceptionHop c) w)
         else w)"

section \<open>Choosing the physical default route\<close>

lemma bestRoute_minimal:
  assumes "bestRoute ex rs best = Some r"
  shows "(Some r = best \<or> r \<in> set rs \<and> eligible ex r) \<and>
    (\<forall>b. best = Some b \<longrightarrow> frMetric r \<le> frMetric b) \<and>
    (\<forall>x\<in>set rs. eligible ex x \<longrightarrow> frMetric r \<le> frMetric x)"
  using assms
proof (induction rs arbitrary: best)
  case (Cons x rs)
  show ?case
  proof (cases "eligible ex x \<and> (best = None \<or> frMetric x < frMetric (the best))")
    case True
    then have "bestRoute ex rs (Some x) = Some r"
      using Cons.prems by simp
    with Cons.IH [of "Some x"] True show ?thesis
      by (cases best) auto
  next
    case False
    then have "bestRoute ex rs best = Some r"
      using Cons.prems by (auto split: if_splits)
    with Cons.IH [of best] False show ?thesis
      by (cases best) auto
  qed
qed simp

lemma bestRoute_None: "bestRoute ex rs best = None \<longleftrightarrow> best = None \<and> (\<forall>x\<in>set rs. \<not> eligible ex x)"
  by (induction rs arbitrary: best) auto

section \<open>What the system documents about the other calls\<close>

text \<open>
  Routes that do not belong to an interface.  Assigning or removing an address only affects the
  routes of the interface of the row; interface entries, DNS settings, the registry and the
  service manager do not touch the routing table.
\<close>

definition offLink :: "LUID \<Rightarrow> route_key set \<Rightarrow> route_key set" where
  "offLink luid S = {k \<in> S. fst k \<noteq> luid}"

text \<open>The calls of the interface, DNS, registry and service parts keep a view \<open>f\<close> of the state.\<close>

definition settings_keep :: "'w iphlpapi \<Rightarrow> 'w winsys \<Rightarrow> ('w \<Rightarrow> 'v) \<Rightarrow> bool" where
  "settings_keep api sys f \<longleftrightarrow>
     (\<forall>row w. f (snd (procSetIpInterfaceEntry api row w)) = f w) \<and>
     (\<forall>g s w. f (snd (procSetInterfaceDnsSettings api g s w)) = f w) \<and>
     (\<forall>p w. f (snd (regOpenKey sys p w)) = f w) \<and>
     (\<forall>p n v w. f (snd (regSetStringValue sys p n v w)) = f w) \<and>
     (\<forall>p w. f (regCloseKey sys p w) = f w) \<and>
     (\<forall>w. f (snd (scmConnect sys w)) = f w) \<and>
     (\<forall>n w. f (snd (scmOpenService sys n w)) = f w) \<and>
     (\<forall>n w. f (svcControlParamChange sys n w) = f w) \<and>
     (\<forall>n w. f (svcClose sys n w) = f w) \<and>
     (\<forall>w. f (scmDisconnect sys w) = f w)"

definition documented_frames :: "'w iphlpapi \<Rightarrow> 'w winsys \<Rightarrow> ('w \<Rightarrow> route_key set) \<Rightarrow> bool" where
  "documented_frames api sys routes \<longleftrightarrow>
     (\<forall>row w. offLink (uaInterfaceLUID row) (routes (snd (procCreateUnicastIpAddressEntry api row w)))
        = offLink (uaInterfaceLUID row) (routes w)) \<and>
     (\<forall>row w. offLink (uaInterfaceLUID row) (routes (snd (procDeleteUnicastIpAddressEntry api row w)))
        = offLink (uaInterfaceLUID row) (routes w)) \<and>
     settings_keep api sys routes"

lemma settings_keepD:
  assumes "settings_keep api sys f"
  shows "procSetIpInterfaceEntry api ifrow w = (r, w') \<Longrightarrow> f w' = f w"
    "procSetInterfaceDnsSettings api g s w = (r, w') \<Longrightarrow> f w' = f w"
    "regOpenKey sys p w = (e, w') \<Longrightarrow> f w' = f w"
    "regSetStringValue sys p n v w = (e, w') \<Longrightarrow> f w' = f w"
    "scmConnect sys w = (e, w') \<Longrightarrow> f w' = f w"
    "scmOpenService sys n w = (e, w') \<Longrightarrow> f w' = f w"
    "f (regCloseKey sys p w) = f w"
    "f (svcControlParamChange sys n w) = f w"
    "f (svcClose sys n w) = f w"
    "f (scmDisconnect sys w) = f w"
  using assms unfolding settings_keep_def by (metis snd_conv)+

lemma documented_framesD:
  assumes "documented_frames api sys routes"
  shows "procCreateUnicastIpAddressEntry api row w = (r, w') \<Longrightarrow>
      offLink (uaInterfaceLUID row) (routes w') = offLink (uaInterfaceLUID row) (routes w)"
    "procDeleteUnicastIpAddressEntry api row w = (r, w') \<Longrightarrow>
      offLink (uaInterfaceLUID row) (routes w') = offLink (uaInterfaceLUID row) (routes w)"
    "settings_keep api sys routes"
  using assms unfolding documented_frames_def by (metis snd_conv)+

lemma memApi_documented_frames: "documented_frames memApi plainSys memRoutes"
  by (simp add: documented_frames_def settings_keep_def memApi_def plainSys_def memRoutes_def wfRoutes_def
      split: prod.splits)

section \<open>Which routes each step can change\<close>

lemma AddIPAddress_off:
  assumes "documented_frames api sys routes" "AddIPAddress api luid a w = (e, w')"
  shows "offLink luid (routes w') = offLink luid (routes w)"
  using assms(2)
  by (auto simp: AddIPAddress_def createUnicastIPAddressEntry_def Let_def
      split: prod.splits option.splits dest: documented_framesD(1) [OF assms(1)])

lemma AddIPAddresses_off:
  assumes "documented_frames api sys routes" "AddIPAddresses api luid as w = (e, w')"
  shows "offLink luid (routes w') = offLink luid (routes w)"
  using assms(2)
  by (induction as arbitrary: w)
     (auto split: prod.splits option.splits dest!: AddIPAddress_off [OF assms(1)])

lemma flushAddressRows_off:
  assumes "documented_frames api sys routes"
  shows "offLink luid (routes (flushAddressRows api luid rs w)) = offLink luid (routes w)"
  by (induction rs arbitrary: w)
     (auto simp: deleteUnicastIPAddressEntry_def split: prod.splits
       dest: documented_framesD(2) [OF assms(1)])

lemma SetIPAddresses_off:
  assumes "documented_frames api sys routes" "SetIPAddresses api luid as w = (e, w')"
  shows "offLink luid (routes w') = offLink luid (routes w)"
  using assms(2)
  by (auto simp: SetIPAddresses_def FlushIPAddresses_def flushAddressRows_off [OF assms(1)]
      split: prod.splits option.splits dest: AddIPAddresses_off [OF assms(1)])

lemma setInterfaceMtu_keeps:
  assumes "settings_keep api sys f" "setInterfaceMtu api luid mtu w = (ls, w')"
  shows "f w' = f w"
  using assms(2)
  by (auto simp: setInterfaceMtu_def setIPInterfaceEntry_def Let_def
      split: sum.splits prod.splits option.splits dest: settings_keepD(1) [OF assms(1)])

lemma nudgeDnscache_keeps:
  assumes "settings_keep api sys f"
  shows "f (nudgeDnscache sys w) = f w"
  by (auto simp: nudgeDnscache_def settings_keepD(7-) [OF assms]
      split: prod.splits option.splits dest!: settings_keepD(5,6) [OF assms])

lemma setDnsRegistry_keeps:
  assumes "settings_keep api sys f" "setDnsRegistry sys fam g s d w = (e, w')"
  shows "f w' = f w"
  using assms(2)
  by (auto simp: setDnsRegistry_def Let_def settings_keepD(7-) [OF assms(1)]
      nudgeDnscache_keeps [OF assms(1)]
      split: prod.splits option.splits dest!: settings_keepD(3,4) [OF assms(1)])

lemma SetInterfaceDnsSettings_keeps:
  assumes "settings_keep api sys f" "SetInterfaceDnsSettings arch api g s w = (e, w')"
  shows "f w' = f w"
  using assms(2)
  by (cases arch) (auto simp: SetInterfaceDnsSettings_def setInterfaceDnsSettingsByPtr_def
      setInterfaceDnsSettingsByQwords_def setInterfaceDnsSettingsByDwords_def Let_def
      split: prod.splits option.splits dest: settings_keepD(2) [OF assms(1)])

lemma SetDNS_keeps:
  assumes "settings_keep api sys f" "SetDNS arch api sys luid fam ss ds w = (e, w')"
  shows "f w' = f w"
  using assms(2)
  by (auto simp: SetDNS_def Let_def split: if_splits prod.splits option.splits sum.splits
      dest!: SetInterfaceDnsSettings_keeps [OF assms(1)] setDnsRegistry_keeps [OF assms(1)])

lemma configureDns_keeps:
  assumes "settings_keep api sys f" "configureDns arch api sys luid dns w = (ls, w')"
  shows "f w' = f w"
  using assms(2)
  by (auto simp: configureDns_def Let_def split: if_splits prod.splits option.splits
      dest!: SetDNS_keeps [OF assms(1)])

lemma AddRoute_off:
  assumes "documented_routes api routes" "AddRoute api luid d h m w = (e, w')"
  shows "offLink luid (routes w') = offLink luid (routes w) \<and> routes w \<subseteq> routes w'"
proof (cases "routeRow api luid d h")
  case (Inr row)
  have luid: "frInterfaceLUID row = luid"
    using Inr by (auto simp: routeRow_def Let_def split: prod.splits option.splits)
  obtain r where r: "procCreateIpForwardEntry2 api (row\<lparr>frMetric := m\<rparr>) w = (r, w')"
    using assms(2) Inr by (auto simp: AddRoute_def createIPForwardEntry2_def split: prod.splits)
  have "if r = 0 then routes w' = insert (routeKey (row\<lparr>frMetric := m\<rparr>)) (routes w)
    else routes w' = routes w"
    using assms(1) r unfolding documented_routes_def by metis
  then show ?thesis
    using luid by (auto simp: offLink_def routeKey_def split: if_splits)
qed (use assms(2) in \<open>simp add: AddRoute_def\<close>)

lemma addRouteLogged_off:
  assumes "documented_routes api routes" "addRouteLogged api luid ps w = (ls, w')"
  shows "offLink luid (routes w') = offLink luid (routes w) \<and> routes w \<subseteq> routes w'"
  using assms(2)
  by (induction ps arbitrary: w ls)
     (fastforce simp: Let_def split: prod.splits dest!: AddRoute_off [OF assms(1)])+

lemma addRouteLogged_routes:
  assumes "documented_routes api routes" "\<forall>p\<in>set ps. storablePrefix p"
    and "addRouteLogged api luid ps w = (ls, w')"
  shows "routes w' \<subseteq> routes w \<union> (\<lambda>p. (luid, p, IPv4Unspecified)) ` set ps \<and>
    (\<forall>p\<in>set ps. (luid, p, IPv4Unspecified) \<in> routes w' \<or> (\<exists>err. AddRouteFailed p err \<in> set ls))"
  using assms(2,3)
proof (induction ps arbitrary: w ls)
  case (Cons p ps)
  obtain e w1 ls1 where a: "AddRoute api luid p IPv4Unspecified 0 w = (e, w1)"
      and rest: "addRouteLogged api luid ps w1 = (ls1, w')"
      and ls: "ls = (case e of Some err \<Rightarrow> [AddRouteFailed p err] | None \<Rightarrow> []) @ ls1"
    using Cons.prems(2) by (auto simp: Let_def split: prod.splits)
  have step: "if e = None then routes w1 = insert (luid, p, IPv4Unspecified) (routes w)
      else routes w1 = routes w"
    using AddRoute_routes [OF assms(1) _ _ a] Cons.prems(1)
    by (auto simp: IPv4Unspecified_def split: if_splits)
  show ?case
    using Cons.IH [OF _ rest] Cons.prems(1) step ls addRouteLogged_off [OF assms(1) rest]
    by (cases e) auto
qed simp

lemma tunnelPrefixes_storable: "p \<in> set (tunnelPrefixes a) \<Longrightarrow> storablePrefix p \<and> 0 \<le> pfxBits p"
  using ParsePrefix_wf
  by (auto simp: tunnelPrefixes_def storablePrefix_def split: option.splits if_splits)
     (auto simp: PrefixFrom_def IPv4Unspecified_def addrIsValid_def prefix_wf_def)

section \<open>The endpoint exception\<close>

lemma ipTo4_length: "ipTo4 ip = Some v \<Longrightarrow> length v = 4"
  by (auto simp: ipTo4_def split: if_splits)

lemma firstV4_v4: "firstV4 ips = Some a \<Longrightarrow> addrIs4 a"
proof (induction ips)
  case (Cons ip ips)
  show ?case
  proof (cases "ipTo4 ip")
    case (Some v)
    then have "length v = 4"
      by (rule ipTo4_length)
    then obtain b0 b1 b2 b3 where "v = [b0, b1, b2, b3]"
      by (auto simp: length_Suc_conv numeral_eq_Suc)
    then show ?thesis
      using Cons.prems Some by (auto simp: AddrFromSlice_def)
  qed (use Cons in simp)
qed simp

lemma resolveEndpoint_v4: "addrIsValid (resolveEndpoint lookup ps) \<Longrightarrow> addrIs4 (resolveEndpoint lookup ps)"
  by (induction ps) (auto simp: Let_def addrIsValid_def dest: firstV4_v4 split: option.splits if_splits)

lemma sockAddr_storable:
  assumes "sockaddr_wf s" "sockAddr s \<noteq> NoAddr"
  shows "storableAddr (sockAddr s)"
proof (cases "rsFamily s = AF_INET")
  case False
  then have fam: "rsFamily s = AF_INET6"
    using assms(2) by (auto simp: sockAddr_def split: if_splits)
  define scope where "scope = of_le32 (getAt 22 4 (rsData s))"
  have "int (unat scope) < 2 ^ 32"
    using unat_u32_bound [of scope] of_nat_less_iff [of "unat scope" 4294967296, where ?'a = int]
    by (simp only: of_nat_numeral) simp
  then have zone: "zoneScope (formatUint (unat scope)) = scope"
    by (simp only: zoneScope_def parseUint_formatUint) simp
  have "length (getAt 6 16 (rsData s)) = 16"
    using assms(1) by (simp add: sockaddr_wf_def getAt_def)
  then show ?thesis
    using fam False zone
    by (simp add: sockAddr_def storableAddr_def scopedAddr_def addrIsValid_def Let_def
        flip: scope_def) (simp add: zoneScope_def)
qed (simp add: sockAddr_def Let_def)

lemma defaultRoute_row:
  assumes "documented_routes api routes" "defaultRoute api tun w = (Some (pluid, hop), ls)"
  shows "pluid \<noteq> tun \<and> (hop = NoAddr \<or> storableAddr hop) \<and>
    (\<exists>p. (pluid, p, hop) \<in> routes w \<and> addrIs4 (pfxAddr p) \<and> pfxBits p = 0)"
proof -
  obtain t where t: "procGetIpForwardTable2 api AF_INET w = (0, t)"
    and "case bestRoute tun t None of None \<Rightarrow> False
      | Some b \<Rightarrow> pluid = frInterfaceLUID b \<and> hop = sockAddr (frNextHop b)"
    using assms(2)
    by (auto simp: defaultRoute_def GetIPForwardTable2_def getIPForwardTable2_def retErr_def Let_def
        split: sum.splits option.splits prod.splits if_splits)
  then obtain b where b: "bestRoute tun t None = Some b" "pluid = frInterfaceLUID b"
      "hop = sockAddr (frNextHop b)"
    by (auto split: option.splits)
  then have "b \<in> set t" "eligible tun b"
    using bestRoute_minimal [OF b(1)] by auto
  moreover from this t have "routeKey b \<in> routes w" "row_wf b"
    using assms(1) unfolding documented_routes_def by blast+
  ultimately show ?thesis
    using b sockAddr_storable by (auto simp: eligible_def routeKey_def row_wf_def Let_def)
qed

text \<open>
  The exception step: either the cleanup has nothing to delete and the routes are as before, or
  exactly the captured key, new and on another interface, was added.
\<close>

lemma addException_cases:
  assumes "documented_routes api routes" "addException api lookup tun peers w = (c, ls, w')"
    and "\<forall>k\<in>offLink tun (routes w). fst k \<noteq> 0"
  shows "rcTunLUID c = tun \<and>
    (rcExceptionLUID c = 0 \<and> routes w' = routes w \<or>
     rcExceptionLUID c \<noteq> 0 \<and> rcExceptionLUID c \<noteq> tun \<and>
     rcExceptionPrefix c = PrefixFrom (resolveEndpoint lookup peers) 32 \<and>
     addrIs4 (resolveEndpoint lookup peers) \<and> storableAddr (rcExceptionHop c) \<and>
     (rcExceptionLUID c, rcExceptionPrefix c, rcExceptionHop c) \<notin> routes w \<and>
     routes w' = insert (rcExceptionLUID c, rcExceptionPrefix c, rcExceptionHop c) (routes w))"
proof (cases "addrIsValid (resolveEndpoint lookup peers) \<and> fst (defaultRoute api tun w) \<noteq> None")
  case True
  let ?ip = "resolveEndpoint lookup peers"
  obtain pluid hop dl where dr: "defaultRoute api tun w = (Some (pluid, hop), dl)"
    using True by (cases "defaultRoute api tun w") auto
  note row = defaultRoute_row [OF assms(1) dr]
  have v4: "addrIs4 ?ip" "addrBitLen ?ip = 32"
    using True resolveEndpoint_v4 [of lookup peers] by (cases ?ip; simp)+
  obtain e w1 where add: "AddRoute api pluid (PrefixFrom ?ip 32) hop 0 w = (e, w1)"
    by fastforce
  have c: "c = (if e = None
      then \<lparr>rcTunLUID = tun, rcExceptionLUID = pluid, rcExceptionPrefix = PrefixFrom ?ip 32,
            rcExceptionHop = hop\<rparr>
      else \<lparr>rcTunLUID = tun, rcExceptionLUID = 0, rcExceptionPrefix = PrefixFrom ?ip 32,
            rcExceptionHop = NoAddr\<rparr>)" "w' = w1"
    using assms(2) True dr add v4 by (auto simp: addException_def Let_def split: option.splits)
  have pfx: "storablePrefix (PrefixFrom ?ip 32)"
    using v4 by (cases ?ip) (auto simp: storablePrefix_def PrefixFrom_def addrIsValid_def prefix_wf_def)
  show ?thesis
  proof (cases "hop = NoAddr")
    case True
    then have "e \<noteq> None \<and> w1 = w"
      using add by (auto simp: AddRoute_def routeRow_def SetAddr_def SetAddrPort_def Let_def
          split: prod.splits option.splits)
    then show ?thesis
      using c by auto
  next
    case False
    have "pluid \<noteq> 0"
      using row assms(3) by (auto simp: offLink_def)
    then show ?thesis
      using AddRoute_routes [OF assms(1) pfx _ add] row False c v4(1) by (auto split: if_splits)
  qed
next
  case False
  then show ?thesis
    using assms(2) by (auto simp: addException_def Let_def split: prod.splits option.splits if_splits)
qed

lemma addRouteLogged_logs: "x \<in> set (fst (addRouteLogged api luid ps w)) \<Longrightarrow> \<exists>p err. x = AddRouteFailed p err"
  by (induction ps arbitrary: w) (auto simp: Let_def split: prod.splits option.splits, metis fst_conv)

lemma addException_logged:
  assumes "documented_routes api routes" "addException api lookup tun peers w = (c, ls, w')"
    and "\<forall>k\<in>offLink tun (routes w). fst k \<noteq> 0" "ExceptionAdded pfx hop \<in> set ls"
  shows "rcExceptionLUID c \<noteq> 0 \<and> rcExceptionPrefix c = pfx \<and> rcExceptionHop c = hop"
proof -
  obtain d dl where dr: "defaultRoute api tun w = (d, dl)"
    by fastforce
  have "ExceptionAdded pfx hop \<notin> set dl"
    using dr by (auto simp: defaultRoute_def split: sum.splits option.splits)
  then obtain pluid h where d: "d = Some (pluid, h)" "rcExceptionLUID c = pluid" "rcExceptionPrefix c = pfx" "rcExceptionHop c = hop"
    using assms(2,4) dr by (auto simp: addException_def Let_def split: if_splits option.splits prod.splits)
  then have "pluid \<noteq> 0"
    using defaultRoute_row [OF assms(1) dr [unfolded d(1)]] assms(3) by (auto simp: offLink_def)
  then show ?thesis
    using d by simp
qed

text \<open>The whole configuration, step by step.\<close>

lemma ConfigureRouting_steps:
  assumes "documented_routes api routes" "documented_frames api sys routes"
    and "ConfigureRouting arch api sys lookup mtu tun cfg w = (Inr c, ls, w')"
  obtains w1 l2 w2 l3 w3 where
    "offLink tun (routes w1) = offLink tun (routes w)"
    "addException api lookup tun (cfgPeers cfg) w1 = (c, l2, w2)"
    "addTunnelRoutes api tun (cfgPeers cfg) w2 = (l3, w3)" "routes w' = routes w3"
    "set l3 \<subseteq> set ls" "\<forall>p h. ExceptionAdded p h \<in> set ls \<longrightarrow> ExceptionAdded p h \<in> set l2"
proof -
  obtain w0 where w0: "(case ParsePrefix (cfgAddress cfg) of None \<Rightarrow> (None, w)
      | Some addr \<Rightarrow> SetIPAddresses api tun [addr] w) = (None, w0)"
    and rest: "(let (l1, w) = setInterfaceMtu api tun mtu w0;
               (c, l2, w) = addException api lookup tun (cfgPeers cfg) w;
               (l3, w) = addTunnelRoutes api tun (cfgPeers cfg) w;
               (l4, w) = configureDns arch api sys tun (cfgDNS cfg) w
           in (Inr c :: gerr + RoutingCleanup, l1 @ l2 @ l3 @ l4, w)) = (Inr c, ls, w')"
    using assms(3) unfolding ConfigureRouting_def
    by (auto split: prod.splits option.splits)
  obtain l1 w1 l2 w2 l3 w3 l4 where s: "setInterfaceMtu api tun mtu w0 = (l1, w1)"
      "addException api lookup tun (cfgPeers cfg) w1 = (c, l2, w2)"
      "addTunnelRoutes api tun (cfgPeers cfg) w2 = (l3, w3)"
      "configureDns arch api sys tun (cfgDNS cfg) w3 = (l4, w')" "ls = l1 @ l2 @ l3 @ l4"
    using rest by (auto simp: Let_def split: prod.splits)
  have "ExceptionAdded p h \<notin> set l1" "ExceptionAdded p h \<notin> set l4" for p h
    using s(1,4) by (auto simp: setInterfaceMtu_def configureDns_def Let_def
        split: sum.splits prod.splits option.splits if_splits)
  moreover have "ExceptionAdded p h \<notin> set l3" for p h
    using s(3) addRouteLogged_logs [of "ExceptionAdded p h" api tun _ w2] unfolding addTunnelRoutes_def
    by (metis fst_conv route_log.distinct)
  ultimately have "\<forall>p h. ExceptionAdded p h \<in> set ls \<longrightarrow> ExceptionAdded p h \<in> set l2"
    using s(5) by simp
  moreover have "offLink tun (routes w0) = offLink tun (routes w)"
    using w0 SetIPAddresses_off [OF assms(2)] by (auto split: option.splits)
  ultimately show thesis
    using that [OF _ s(2,3)] setInterfaceMtu_keeps [OF documented_framesD(3) [OF assms(2)] s(1)]
      configureDns_keeps [OF documented_framesD(3) [OF assms(2)] s(4)] s(5) by auto
qed

section \<open>Forwarding\<close>

text \<open>
  Longest-prefix forwarding over the table: the routes whose prefix contains an address, and of
  those the ones with the most bits.
\<close>

definition byteBits :: "u8 \<Rightarrow> bool list" where
  "byteBits x = map (bit x) (rev [0 ..< 8])"

fun addrBits :: "Addr \<Rightarrow> bool list" where
  "addrBits NoAddr = []"
| "addrBits (Addr4 a b c d) = concat (map byteBits [a, b, c, d])"
| "addrBits (Addr6 bs z) = concat (map byteBits bs)"

definition prefixContains :: "Prefix \<Rightarrow> Addr \<Rightarrow> bool" where
  "prefixContains p a \<longleftrightarrow>
     addrBitLen (pfxAddr p) = addrBitLen a \<and> 0 \<le> pfxBits p \<and>
     take (nat (pfxBits p)) (addrBits (pfxAddr p)) = take (nat (pfxBits p)) (addrBits a)"

definition bestMatches :: "route_key set \<Rightarrow> Addr \<Rightarrow> route_key set" where
  "bestMatches S a =
     {k \<in> S. prefixContains (fst (snd k)) a \<and>
        (\<forall>k'\<in>S. prefixContains (fst (snd k')) a \<longrightarrow> pfxBits (fst (snd k')) \<le> pfxBits (fst (snd k)))}"

lemma length_byteBits [simp]: "length (byteBits x) = 8"
  by (simp add: byteBits_def)

lemma byteBits_inj: "byteBits x = byteBits y \<longleftrightarrow> x = y"
  by (auto simp: byteBits_def intro: bit_word_eqI)

lemma hostPrefix_contains:
  assumes "addrIs4 ip" "prefix_wf p" "prefixContains p ip" "32 \<le> pfxBits p"
  shows "p = PrefixFrom ip 32"
proof -
  obtain a b c d where ip: "ip = Addr4 a b c d"
    using assms(1) by (cases ip) auto
  have "addrBitLen (pfxAddr p) = 32"
    using assms(3) ip by (simp add: prefixContains_def)
  moreover from this obtain a' b' c' d' where pa: "pfxAddr p = Addr4 a' b' c' d'"
    by (cases "pfxAddr p") auto
  ultimately have bits: "pfxBits p = 32"
    using assms(2,4) by (auto simp: prefix_wf_def)
  then have "byteBits a' @ byteBits b' @ byteBits c' @ byteBits d'
      = byteBits a @ byteBits b @ byteBits c @ byteBits d"
    using assms(3) pa ip by (simp add: prefixContains_def)
  then show ?thesis
    using pa bits ip by (cases p) (simp add: byteBits_inj PrefixFrom_def addrIsValid_def)
qed

lemma PrefixFrom_host: "addrIs4 ip \<Longrightarrow> prefixContains (PrefixFrom ip 32) ip \<and> pfxBits (PrefixFrom ip 32) = 32"
  by (cases ip) (auto simp: PrefixFrom_def prefixContains_def addrIsValid_def)

lemma prefixContains_bits: "prefix_wf p \<Longrightarrow> addrIs4 ip \<Longrightarrow> prefixContains p ip \<Longrightarrow> pfxBits p \<le> 32"
  by (cases ip) (auto simp: prefixContains_def prefix_wf_def)

lemma half_contains:
  assumes "addrIs4 ip"
  shows "prefixContains (PrefixFrom IPv4Unspecified 1) ip \<or>
    prefixContains (PrefixFrom (Addr4 128 0 0 0) 1) ip"
proof -
  obtain a b c d where ip: "ip = Addr4 a b c d"
    using assms by (cases ip) auto
  have "bit (128 :: u8) 7"
    by simp
  then have "take 1 (byteBits a) = take 1 (byteBits 0) \<or> take 1 (byteBits a) = take 1 (byteBits 128)"
    by (auto simp: byteBits_def upt_rec)
  then show ?thesis
    by (auto simp: ip prefixContains_def PrefixFrom_def IPv4Unspecified_def addrIsValid_def)
qed

section \<open>Views the whole configuration keeps\<close>

text \<open>A view that no call of the IP helper or of the system libraries changes.\<close>

definition api_keeps :: "'w iphlpapi \<Rightarrow> 'w winsys \<Rightarrow> ('w \<Rightarrow> 'v) \<Rightarrow> bool" where
  "api_keeps api sys f \<longleftrightarrow>
     settings_keep api sys f \<and>
     (\<forall>row w. f (snd (procCreateUnicastIpAddressEntry api row w)) = f w) \<and>
     (\<forall>row w. f (snd (procDeleteUnicastIpAddressEntry api row w)) = f w) \<and>
     (\<forall>row w. f (snd (procCreateIpForwardEntry2 api row w)) = f w) \<and>
     (\<forall>row w. f (snd (procDeleteIpForwardEntry2 api row w)) = f w)"

lemma api_keepsD:
  assumes "api_keeps api sys f"
  shows "settings_keep api sys f"
    "procCreateUnicastIpAddressEntry api urow w = (r, w') \<Longrightarrow> f w' = f w"
    "procDeleteUnicastIpAddressEntry api urow w = (r, w') \<Longrightarrow> f w' = f w"
    "procCreateIpForwardEntry2 api row w = (r, w') \<Longrightarrow> f w' = f w"
    "procDeleteIpForwardEntry2 api row w = (r, w') \<Longrightarrow> f w' = f w"
  using assms unfolding api_keeps_def by (metis snd_conv)+

lemma AddRoute_keeps:
  assumes keep: "api_keeps api sys f"
  shows "AddRoute api luid d h m w = (e, w') \<Longrightarrow> f w' = f w"
  by (auto simp: AddRoute_def createIPForwardEntry2_def split: sum.splits prod.splits
      dest: api_keepsD(4) [OF keep])

lemma DeleteRoute_keeps:
  assumes keep: "api_keeps api sys f"
  shows "DeleteRoute api luid d h w = (e, w') \<Longrightarrow> f w' = f w"
  by (auto simp: DeleteRoute_def deleteIPForwardEntry2_def split: sum.splits prod.splits option.splits
      dest: api_keepsD(5) [OF keep])

lemma flushRouteRows_keeps:
  assumes keep: "api_keeps api sys f"
  shows "flushRouteRows api luid rs err w = (e, w') \<Longrightarrow> f w' = f w"
  by (induction rs arbitrary: err w)
     (auto simp: deleteIPForwardEntry2_def Let_def split: if_splits prod.splits
       dest!: api_keepsD(5) [OF keep])

lemma FlushRoutes_keeps:
  assumes keep: "api_keeps api sys f"
  shows "FlushRoutes api luid fam w = (e, w') \<Longrightarrow> f w' = f w"
  by (auto simp: FlushRoutes_def split: prod.splits option.splits dest: flushRouteRows_keeps [OF keep])

lemma flushAddressRows_keeps:
  assumes keep: "api_keeps api sys f"
  shows "f (flushAddressRows api luid rs w) = f w"
  by (induction rs arbitrary: w)
     (auto simp: deleteUnicastIPAddressEntry_def split: prod.splits dest: api_keepsD(3) [OF keep])

lemma AddIPAddresses_keeps:
  assumes keep: "api_keeps api sys f"
  shows "AddIPAddresses api luid as w = (e, w') \<Longrightarrow> f w' = f w"
  by (induction as arbitrary: w)
     (auto simp: AddIPAddress_def createUnicastIPAddressEntry_def Let_def split: prod.splits option.splits
       dest!: api_keepsD(2) [OF keep])

lemma SetIPAddresses_keeps:
  assumes keep: "api_keeps api sys f"
  shows "SetIPAddresses api luid as w = (e, w') \<Longrightarrow> f w' = f w"
  by (auto simp: SetIPAddresses_def FlushIPAddresses_def flushAddressRows_keeps [OF keep]
      split: prod.splits option.splits dest: AddIPAddresses_keeps [OF keep])

lemma addRouteLogged_keeps:
  assumes keep: "api_keeps api sys f"
  shows "addRouteLogged api luid ps w = (ls, w') \<Longrightarrow> f w' = f w"
  by (induction ps arbitrary: w ls) (auto simp: Let_def split: prod.splits dest!: AddRoute_keeps [OF keep])

lemma addException_keeps:
  assumes keep: "api_keeps api sys f"
  shows "addException api lookup luid peers w = (c, ls, w') \<Longrightarrow> f w' = f w"
  by (auto simp: addException_def Let_def split: if_splits prod.splits option.splits dest: AddRoute_keeps [OF keep])

lemma ConfigureRouting_keeps:
  assumes keep: "api_keeps api sys f"
  shows "ConfigureRouting arch api sys lookup mtu luid cfg w = (r, ls, w') \<Longrightarrow> f w' = f w"
  by (auto simp: ConfigureRouting_def addTunnelRoutes_def Let_def split: option.splits prod.splits
      dest!: SetIPAddresses_keeps [OF keep] setInterfaceMtu_keeps [OF api_keepsD(1) [OF keep]] addException_keeps [OF keep]
        addRouteLogged_keeps [OF keep] configureDns_keeps [OF api_keepsD(1) [OF keep]])

lemma runCleanup_keeps:
  assumes keep: "api_keeps api sys f"
  shows "f (runCleanup arch api sys c w) = f w"
proof -
  obtain e1 w1 e2 w2 e3 w3 where "FlushRoutes api (rcTunLUID c) AF_INET w = (e1, w1)"
      "SetDNS arch api sys (rcTunLUID c) AF_INET [] [] w1 = (e2, w2)"
      "DeleteRoute api (rcExceptionLUID c) (rcExceptionPrefix c) (rcExceptionHop c) w2 = (e3, w3)"
    by (metis prod.exhaust)
  then show ?thesis
    using FlushRoutes_keeps [OF keep] SetDNS_keeps [OF api_keepsD(1) [OF keep]] DeleteRoute_keeps [OF keep]
    by (auto simp: runCleanup_def FlushDNS_def Let_def)
qed

section \<open>Properties\<close>

text \<open>
  The conditions of the route theorems on the initial state and the deletion of present routes:
  no interface has LUID zero, and a route that is there can be found and deleted.
\<close>

definition reliableDelete :: "'w iphlpapi \<Rightarrow> ('w \<Rightarrow> route_key set) \<Rightarrow> bool" where
  "reliableDelete api routes \<longleftrightarrow>
     (\<forall>row w. routeKey row \<in> routes w \<longrightarrow>
        fst (procGetIpForwardEntry2 api row w) = 0 \<and> fst (procDeleteIpForwardEntry2 api row w) = 0)"

lemma DeleteRoute_reliable:
  assumes "documented_routes api routes" "reliableDelete api routes"
    and "storablePrefix d" "storableAddr h" "(luid, d, h) \<in> routes w"
  shows "routes (snd (DeleteRoute api luid d h w)) = routes w - {(luid, d, h)}"
proof -
  obtain row where row: "routeRow api luid d h = Inr row" "routeKey row = (luid, d, h)"
    using routeRow_key [OF assms(1,3,4)] by metis
  obtain row' where get: "procGetIpForwardEntry2 api row w = (0, row')"
    using assms(2,5) row(2) unfolding reliableDelete_def by (metis prod.collapse)
  then have "routeKey row' \<in> routes w"
    using assms(1) unfolding documented_routes_def by metis
  then have "fst (procDeleteIpForwardEntry2 api row' w) = 0"
    using assms(2) unfolding reliableDelete_def by blast
  then have "fst (DeleteRoute api luid d h w) = None"
    using row(1) get by (auto simp: DeleteRoute_def getIPForwardEntry2_def deleteIPForwardEntry2_def
        retErr_def split: prod.splits)
  then show ?thesis
    using DeleteRoute_routes [OF assms(1,3,4)] by (metis prod.collapse)
qed

lemma cleanup_off:
  assumes "documented_routes api routes" "documented_frames api sys routes"
    and "snd (FlushDNS arch api sys tun AF_INET (snd (FlushRoutes api tun AF_INET w))) = w'"
  shows "offLink tun (routes w') = offLink tun (routes w)"
proof -
  obtain e1 w1 e2 where f: "FlushRoutes api tun AF_INET w = (e1, w1)"
      "FlushDNS arch api sys tun AF_INET w1 = (e2, w')"
    using assms(3) by (metis prod.collapse)
  then have "routes w' = routes w1"
    using SetDNS_keeps [OF documented_framesD(3) [OF assms(2)]] by (simp add: FlushDNS_def)
  then show ?thesis
    using FlushRoutes_routes [OF assms(1) f(1)] by (auto simp: offLink_def)
qed

lemma addTunnelRoutes_off:
  assumes "documented_routes api routes" "addTunnelRoutes api luid peers w = (ls, w')"
  shows "offLink luid (routes w') = offLink luid (routes w) \<and> routes w \<subseteq> routes w'"
  using assms(2) unfolding addTunnelRoutes_def by (rule addRouteLogged_off [OF assms(1)])

lemma exceptionPrefix_storable:
  "addrIs4 ip \<Longrightarrow> storablePrefix (PrefixFrom ip 32) \<and> prefixIsValid (PrefixFrom ip 32)"
  by (cases ip) (auto simp: storablePrefix_def prefixIsValid_def addrIsValid_def PrefixFrom_def
      prefix_wf_def)

text \<open>The cleanup undoes the exception step, in any state with the same off-tunnel routes.\<close>

lemma runCleanup_restores:
  assumes "documented_routes api routes" "documented_frames api sys routes" "reliableDelete api routes"
    and "addException api lookup tun peers v1 = (c, ls, v2)"
    and "\<forall>k\<in>offLink tun (routes v1). fst k \<noteq> 0"
    and "offLink tun (routes w2) = offLink tun (routes v2)"
  shows "offLink tun (routes (runCleanup arch api sys c w2)) = offLink tun (routes v1)"
proof -
  note exc = addException_cases [OF assms(1,4,5)]
  define w3 where "w3 = snd (FlushDNS arch api sys tun AF_INET (snd (FlushRoutes api tun AF_INET w2)))"
  let ?k = "(rcExceptionLUID c, rcExceptionPrefix c, rcExceptionHop c)"
  have w3: "offLink tun (routes w3) = offLink tun (routes v2)"
    using cleanup_off [OF assms(1,2) w3_def [symmetric]] assms(6) by simp
  show ?thesis
  proof (cases "rcExceptionLUID c = 0")
    case True
    then have "runCleanup arch api sys c w2 = w3"
      using exc by (simp add: runCleanup_def w3_def Let_def)
    then show ?thesis
      using True exc w3 by auto
  next
    case False
    then have ip: "addrIs4 (resolveEndpoint lookup peers)"
      using exc by blast
    have new: "storableAddr (rcExceptionHop c)" "rcExceptionLUID c \<noteq> tun"
        "?k \<notin> routes v1" "routes v2 = insert ?k (routes v1)"
        "storablePrefix (rcExceptionPrefix c)" "prefixIsValid (rcExceptionPrefix c)"
      using exc False exceptionPrefix_storable [OF ip] by auto
    have "?k \<in> offLink tun (routes v2)"
      using new by (simp add: offLink_def)
    then have "?k \<in> routes w3"
      unfolding w3 [symmetric] by (simp add: offLink_def)
    moreover have "runCleanup arch api sys c w2 = snd (DeleteRoute api (rcExceptionLUID c)
        (rcExceptionPrefix c) (rcExceptionHop c) w3)"
      using False exc new by (simp add: runCleanup_def w3_def Let_def)
    ultimately have "routes (runCleanup arch api sys c w2) = routes w3 - {?k}"
      using DeleteRoute_reliable [OF assms(1,3) new(5,1)] by simp
    then have "offLink tun (routes (runCleanup arch api sys c w2)) = offLink tun (routes w3) - {?k}"
      by (auto simp: offLink_def)
    then show ?thesis
      unfolding w3 new(4) using new(3) by (auto simp: offLink_def)
  qed
qed

text \<open>
  C33: the exception route is pinned to the best physical default.  The route chosen is an IPv4
  default route of the table, not on the tunnel, with the least metric of those; none is
  reported exactly when there is none, and a failed table query is logged and finds nothing.
\<close>

theorem defaultRoute_lowest_metric:
  "case procGetIpForwardTable2 api AF_INET w of (r, t) \<Rightarrow>
     (let cands = {x \<in> set t. addrIs4 (pfxAddr (prefixOf (frDestinationPrefix x))) \<and>
                     pfxBits (prefixOf (frDestinationPrefix x)) = 0 \<and> frInterfaceLUID x \<noteq> tun}
      in case defaultRoute api tun w of
           (None, ls) \<Rightarrow> if r = 0 then cands = {} \<and> ls = [] else ls = [TableFailed (Errno r)]
         | (Some (l, h), ls) \<Rightarrow> r = 0 \<and> ls = [] \<and>
             (\<exists>x\<in>cands. l = frInterfaceLUID x \<and> h = sockAddr (frNextHop x) \<and>
                (\<forall>y\<in>cands. frMetric x \<le> frMetric y)))"
proof -
  obtain r t where t: "procGetIpForwardTable2 api AF_INET w = (r, t)"
    by fastforce
  let ?cands = "{x \<in> set t. addrIs4 (pfxAddr (prefixOf (frDestinationPrefix x))) \<and>
      pfxBits (prefixOf (frDestinationPrefix x)) = 0 \<and> frInterfaceLUID x \<noteq> tun}"
  have cands: "?cands = {x \<in> set t. eligible tun x}"
    by (auto simp: eligible_def Let_def)
  show ?thesis
  proof (cases "r = 0")
    case True
    then have d: "defaultRoute api tun w = (case bestRoute tun t None of None \<Rightarrow> (None, [])
        | Some b \<Rightarrow> (Some (frInterfaceLUID b, sockAddr (frNextHop b)), []))"
      using t by (simp add: defaultRoute_def GetIPForwardTable2_def getIPForwardTable2_def retErr_def)
    show ?thesis
    proof (cases "bestRoute tun t None")
      case None
      then show ?thesis
        using bestRoute_None [of tun t None] True t d by (auto simp: Let_def eligible_def)
    next
      case (Some b)
      have "b \<in> set t \<and> eligible tun b" "\<forall>x\<in>set t. eligible tun x \<longrightarrow> frMetric b \<le> frMetric x"
        using bestRoute_minimal [OF Some] by auto
      then show ?thesis
        using Some True t d by (auto simp: Let_def eligible_def intro!: exI [of _ b])
    qed
  next
    case False
    then show ?thesis
      using t by (simp add: defaultRoute_def GetIPForwardTable2_def getIPForwardTable2_def retErr_def)
  qed
qed

text \<open>What the configuration and its cleanup do to the routes of the other interfaces.\<close>

lemma ConfigureRouting_off:
  assumes "documented_routes api routes" "documented_frames api sys routes"
    and "\<forall>k\<in>offLink tun (routes w). fst k \<noteq> 0"
    and "ConfigureRouting arch api sys lookup mtu tun cfg w = (res, ls, w1)"
  shows "case res of Inl err \<Rightarrow> offLink tun (routes w1) = offLink tun (routes w)
    | Inr c \<Rightarrow> (if rcExceptionLUID c = 0 then offLink tun (routes w1) = offLink tun (routes w)
        else rcExceptionLUID c \<noteq> tun \<and> (rcExceptionLUID c, rcExceptionPrefix c, rcExceptionHop c) \<notin> routes w \<and>
          offLink tun (routes w1) =
            insert (rcExceptionLUID c, rcExceptionPrefix c, rcExceptionHop c) (offLink tun (routes w)))"
proof (cases res)
  case (Inl err)
  then have "\<exists>a. SetIPAddresses api tun [a] w = (Some err, w1)"
    using assms(4) by (auto simp: ConfigureRouting_def Let_def split: option.splits prod.splits)
  then show ?thesis
    using Inl SetIPAddresses_off [OF assms(2)] by auto
next
  case (Inr c)
  obtain v1 l2 v2 l3 v3 where s: "offLink tun (routes v1) = offLink tun (routes w)"
      "addException api lookup tun (cfgPeers cfg) v1 = (c, l2, v2)"
      "addTunnelRoutes api tun (cfgPeers cfg) v2 = (l3, v3)" "routes w1 = routes v3"
    using ConfigureRouting_steps [OF assms(1,2) assms(4) [unfolded Inr]] by metis
  have off: "offLink tun (routes w1) = offLink tun (routes v2)"
    using addTunnelRoutes_off [OF assms(1) s(3)] s(4) by simp
  have mem: "k \<in> routes v1 \<longleftrightarrow> k \<in> routes w" if "fst k \<noteq> tun" for k
    using s(1) that unfolding offLink_def by blast
  have ins: "offLink tun (insert k S) = insert k (offLink tun S)" if "fst k \<noteq> tun" for k S
    using that by (auto simp: offLink_def)
  have "\<forall>k\<in>offLink tun (routes v1). fst k \<noteq> 0"
    unfolding s(1) by (rule assms(3))
  note exc = addException_cases [OF assms(1) s(2) this]
  show ?thesis
  proof (cases "rcExceptionLUID c = 0")
    case True
    then show ?thesis
      using exc s(1) off Inr by simp
  next
    case False
    then have "rcExceptionLUID c \<noteq> tun" "(rcExceptionLUID c, rcExceptionPrefix c, rcExceptionHop c) \<notin> routes v1"
        "routes v2 = insert (rcExceptionLUID c, rcExceptionPrefix c, rcExceptionHop c) (routes v1)"
      using exc by blast+
    then show ?thesis
      using False s(1) off Inr by (simp add: mem ins)
  qed
qed

lemma ConfigureRouting_logged:
  assumes "documented_routes api routes" "documented_frames api sys routes"
    and "ConfigureRouting arch api sys lookup mtu tun cfg w = (Inr c, ls, w')" "ExceptionAdded pfx hop \<in> set ls"
    and "\<forall>k\<in>offLink tun (routes w). fst k \<noteq> 0"
  shows "rcExceptionLUID c \<noteq> 0 \<and> rcExceptionPrefix c = pfx \<and> rcExceptionHop c = hop"
proof -
  obtain v1 l2 v2 where s: "offLink tun (routes v1) = offLink tun (routes w)"
      "addException api lookup tun (cfgPeers cfg) v1 = (c, l2, v2)" "ExceptionAdded pfx hop \<in> set l2"
    using ConfigureRouting_steps [OF assms(1-3)] assms(4) by metis
  then show ?thesis
    using addException_logged [OF assms(1) s(2) _ s(3)] assms(5) by simp
qed

lemma cleanup_restores:
  assumes "documented_routes api routes" "documented_frames api sys routes" "reliableDelete api routes"
    and "\<forall>k\<in>offLink tun (routes w). fst k \<noteq> 0"
    and "ConfigureRouting arch api sys lookup mtu tun cfg w = (Inr c, ls, w1)"
    and "offLink tun (routes w2) = offLink tun (routes w1)"
  shows "offLink tun (routes (runCleanup arch api sys c w2)) = offLink tun (routes w)"
proof -
  obtain v1 l2 v2 l3 v3 where s: "offLink tun (routes v1) = offLink tun (routes w)"
      "addException api lookup tun (cfgPeers cfg) v1 = (c, l2, v2)"
      "addTunnelRoutes api tun (cfgPeers cfg) v2 = (l3, v3)" "routes w1 = routes v3"
    using ConfigureRouting_steps [OF assms(1,2,5)] by metis
  have zero: "\<forall>k\<in>offLink tun (routes v1). fst k \<noteq> 0"
    unfolding s(1) by (rule assms(4))
  have "offLink tun (routes w1) = offLink tun (routes v2)"
    using addTunnelRoutes_off [OF assms(1) s(3)] s(4) by simp
  then show ?thesis
    using runCleanup_restores [OF assms(1-3) s(2) zero] assms(6) s(1) by simp
qed

text \<open>
  C5: routing changes outside the tunnel are undone.  A failed configuration leaves the routes
  of every other interface as they were; after a successful one, running the cleanup in any later
  state whose off-tunnel routes are still those the configuration left restores exactly the
  off-tunnel routes from before, whether or not the exception was added, and even when it already
  existed.
\<close>

theorem cleanup_restores_routes:
  assumes "documented_routes api routes" "documented_frames api sys routes" "reliableDelete api routes"
    and "\<forall>k\<in>routes w. fst k \<noteq> 0"
  shows "case ConfigureRouting arch api sys lookup mtu tun cfg w of
      (Inl err, _, w1) \<Rightarrow> offLink tun (routes w1) = offLink tun (routes w)
    | (Inr c, _, w1) \<Rightarrow> \<forall>w2. offLink tun (routes w2) = offLink tun (routes w1) \<longrightarrow>
        offLink tun (routes (runCleanup arch api sys c w2)) = offLink tun (routes w)"
proof -
  have zero: "\<forall>k\<in>offLink tun (routes w). fst k \<noteq> 0"
    using assms(4) by (simp add: offLink_def)
  obtain res ls w1 where conf: "ConfigureRouting arch api sys lookup mtu tun cfg w = (res, ls, w1)"
    by (metis prod.exhaust)
  then show ?thesis
    using ConfigureRouting_off [OF assms(1,2) zero conf] cleanup_restores [OF assms(1-3) zero]
    by (cases res) auto
qed

text \<open>
  C3: no routing loop.  When the configuration recorded an exception, then among the routes
  that longest-prefix forwarding picks for the server's address is the exception itself, on an
  interface that is not the tunnel; a tunnel route can only tie with it by being exactly the
  server's own host prefix.
\<close>

theorem endpoint_not_captured:
  assumes "documented_routes api routes" "documented_frames api sys routes"
    and "\<forall>k\<in>routes w. fst k \<noteq> 0"
    and "ConfigureRouting arch api sys lookup mtu tun cfg w = (Inr c, ls, w')"
    and "rcExceptionLUID c \<noteq> 0"
    and "server = resolveEndpoint lookup (cfgPeers cfg)"
  shows "rcExceptionLUID c \<noteq> tun \<and>
    (rcExceptionLUID c, rcExceptionPrefix c, rcExceptionHop c) \<in> bestMatches (routes w') server \<and>
    (\<forall>k\<in>bestMatches (routes w') server. fst k = tun \<longrightarrow> fst (snd k) = PrefixFrom server 32)"
proof -
  let ?k = "(rcExceptionLUID c, rcExceptionPrefix c, rcExceptionHop c)"
  obtain v1 l2 v2 l3 v3 where s: "offLink tun (routes v1) = offLink tun (routes w)"
      "addException api lookup tun (cfgPeers cfg) v1 = (c, l2, v2)"
      "addTunnelRoutes api tun (cfgPeers cfg) v2 = (l3, v3)" "routes w' = routes v3"
    using ConfigureRouting_steps [OF assms(1,2,4)] by metis
  have "\<forall>k\<in>offLink tun (routes v1). fst k \<noteq> 0"
    unfolding s(1) using assms(3) by (simp add: offLink_def)
  then have exc: "rcExceptionLUID c \<noteq> tun" "rcExceptionPrefix c = PrefixFrom server 32" "addrIs4 server"
      "routes v2 = insert ?k (routes v1)"
    using addException_cases [OF assms(1) s(2)] assms(5,6) by auto
  then have here: "?k \<in> routes w'"
    using addTunnelRoutes_off [OF assms(1) s(3)] s(4) by auto
  have wf: "prefix_wf (fst (snd k))" if "k \<in> routes w'" for k
    using assms(1) that unfolding documented_routes_def by blast
  note host = PrefixFrom_host [OF exc(3)]
  have best: "?k \<in> bestMatches (routes w') server"
    using here host wf prefixContains_bits [OF _ exc(3)] by (auto simp: bestMatches_def exc(2))
  have "fst (snd k) = PrefixFrom server 32" if "k \<in> bestMatches (routes w') server" for k
  proof (rule hostPrefix_contains [OF exc(3)])
    show "prefix_wf (fst (snd k))" "prefixContains (fst (snd k)) server"
      using that wf by (auto simp: bestMatches_def)
    show "32 \<le> pfxBits (fst (snd k))"
      using that here host exc(2) by (force simp: bestMatches_def)
  qed
  then show ?thesis
    using exc(1) best by blast
qed

text \<open>
  C34: the tunnel routes.  An AllowedIPs entry that parses asks for the route to its prefix, an IPv4 default
  for the routes to the two halves of the address space instead; entries that do not parse ask for
  nothing.  \<^verbatim>\<open>addTunnelRoutes\<close> keeps the routes there were, adds no route that was not asked for, and every
  route that was is there afterwards, on the tunnel with the IPv4 unspecified address as next hop,
  unless its addition was logged as failed.
\<close>

theorem addTunnelRoutes_exact:
  assumes "documented_routes api routes" "addTunnelRoutes api luid peers w = (ls, w')"
    and "wanted = {q. \<exists>peer\<in>set peers. \<exists>a\<in>set (peerAllowedIPs peer). \<exists>p. ParsePrefix (trimSpace a) = Some p \<and>
      (if addrIs4 (pfxAddr p) \<and> pfxBits p = 0
       then q = PrefixFrom (Addr4 0 0 0 0) 1 \<or> q = PrefixFrom (Addr4 128 0 0 0) 1 else q = p)}"
  shows "routes w \<subseteq> routes w' \<and> routes w' \<subseteq> routes w \<union> (\<lambda>q. (luid, q, Addr4 0 0 0 0)) ` wanted \<and>
    (\<forall>q\<in>wanted. (luid, q, Addr4 0 0 0 0) \<in> routes w' \<or> (\<exists>err. AddRouteFailed q err \<in> set ls))"
proof -
  let ?ps = "concat (map (\<lambda>p. concat (map tunnelPrefixes (peerAllowedIPs p))) peers)"
  have run: "addRouteLogged api luid ?ps w = (ls, w')"
    using assms(2) by (simp add: addTunnelRoutes_def)
  have "\<forall>p\<in>set ?ps. storablePrefix p"
    using tunnelPrefixes_storable by auto
  note added = addRouteLogged_routes [OF assms(1) this run]
  have "q \<in> set (tunnelPrefixes a) \<longleftrightarrow> (\<exists>p. ParsePrefix (trimSpace a) = Some p \<and>
      (if addrIs4 (pfxAddr p) \<and> pfxBits p = 0
       then q = PrefixFrom (Addr4 0 0 0 0) 1 \<or> q = PrefixFrom (Addr4 128 0 0 0) 1 else q = p))" for q a
    by (cases "ParsePrefix (trimSpace a)") (simp_all add: tunnelPrefixes_def IPv4Unspecified_def conj_commute)
  moreover have "set ?ps = {q. \<exists>peer\<in>set peers. \<exists>a\<in>set (peerAllowedIPs peer). q \<in> set (tunnelPrefixes a)}"
    by auto
  ultimately have "set ?ps = wanted"
    unfolding assms(3) by presburger
  then show ?thesis
    using added addRouteLogged_off [OF assms(1) run] by (simp add: IPv4Unspecified_def)
qed

text \<open>
  C28: the full tunnel overrides the physical default.  With an AllowedIPs entry that is an IPv4
  default route and no failed addition, forwarding never uses a default route for any IPv4
  address: some tunnel route with one bit or more contains it, so every best match has at least
  one bit.
\<close>

theorem full_tunnel_overrides_default:
  assumes "documented_routes api routes" "documented_frames api sys routes"
    and "ConfigureRouting arch api sys lookup mtu tun cfg w = (Inr c, ls, w')"
    and "\<forall>p err. AddRouteFailed p err \<notin> set ls"
    and "peer \<in> set (cfgPeers cfg)" "a \<in> set (peerAllowedIPs peer)"
    and "ParsePrefix (trimSpace a) = Some p" "pfxBits p = 0" "addrIs4 (pfxAddr p)"
    and "addrIs4 dst"
  shows "(\<exists>k\<in>routes w'. fst k = tun \<and> prefixContains (fst (snd k)) dst \<and> 1 \<le> pfxBits (fst (snd k))) \<and>
    (\<forall>k\<in>bestMatches (routes w') dst. 1 \<le> pfxBits (fst (snd k)))"
proof -
  let ?halves = "[PrefixFrom IPv4Unspecified 1, PrefixFrom (Addr4 128 0 0 0) 1]"
  let ?ps = "concat (map (\<lambda>p. concat (map tunnelPrefixes (peerAllowedIPs p))) (cfgPeers cfg))"
  obtain v1 l2 v2 l3 v3 where s: "addTunnelRoutes api tun (cfgPeers cfg) v2 = (l3, v3)"
      "routes w' = routes v3" "set l3 \<subseteq> set ls"
    using ConfigureRouting_steps [OF assms(1-3)] by metis
  have "tunnelPrefixes a = ?halves"
    using assms(7-9) by (simp add: tunnelPrefixes_def)
  moreover have "set (tunnelPrefixes a) \<subseteq> set ?ps"
    using assms(5,6) by auto
  ultimately have halves: "set ?halves \<subseteq> set ?ps"
    by simp
  have "\<forall>q\<in>set ?ps. storablePrefix q"
    using tunnelPrefixes_storable by auto
  then have "\<forall>q\<in>set ?ps. (tun, q, IPv4Unspecified) \<in> routes w'"
    using addRouteLogged_routes [OF assms(1)] s assms(4) unfolding addTunnelRoutes_def by blast
  then have inst: "(tun, q, IPv4Unspecified) \<in> routes w'" if "q \<in> set ?halves" for q
    using halves that by blast
  obtain q where q: "q \<in> set ?halves" "prefixContains q dst"
    using half_contains [OF assms(10)] by auto
  have one: "pfxBits q = 1"
    using q(1) by (auto simp: PrefixFrom_def IPv4Unspecified_def addrIsValid_def)
  show ?thesis
    using inst [OF q(1)] q(2) one by (force simp: bestMatches_def)
qed

section \<open>Concrete instances\<close>

text \<open>A host with one physical default route, and a full-tunnel configuration.\<close>

definition homeRow :: MibIPforwardRow2 where
  "homeRow = zeroForwardRow\<lparr>frInterfaceLUID := 3,
     frDestinationPrefix := snd (SetPrefix (PrefixFrom IPv4Unspecified 0) (frDestinationPrefix zeroForwardRow)),
     frNextHop := snd (SetAddr (Addr4 192 168 1 1) zeroSockaddr), frMetric := 25\<rparr>"

definition homeWorld :: memWorld where
  "homeWorld = emptyWorld\<lparr>mwRoutes := [homeRow]\<rparr>"

definition fullTunnel :: Config where
  "fullTunnel = \<lparr>cfgAddress = ''10.0.0.2/32'', cfgListenPort = 0, cfgDNS = ''1.1.1.1'',
     cfgPeers = [\<lparr>peerEndpoint = ''203.0.113.7:51820'', peerAllowedIPs = ['' 0.0.0.0/0'']\<rparr>]\<rparr>"

definition demoLookup :: "string \<Rightarrow> u8 list list option" where
  "demoLookup h = (if h = ''203.0.113.7'' then Some [[203, 0, 113, 7]] else None)"


abbreviation "demoConfigure \<equiv> ConfigureRouting Amd64 memApi plainSys demoLookup 1420 7 fullTunnel homeWorld"

definition noAddRouteFailed :: "route_log list \<Rightarrow> bool" where
  "noAddRouteFailed ls = list_all (\<lambda>l. case l of AddRouteFailed p err \<Rightarrow> False | _ \<Rightarrow> True) ls"

lemma noAddRouteFailed_iff: "noAddRouteFailed ls \<longleftrightarrow> (\<forall>p err. AddRouteFailed p err \<notin> set ls)"
  by (force simp: noAddRouteFailed_def list_all_iff split: route_log.splits)

lemma demo_run:
  "case demoConfigure of (Inl err, ls, w') \<Rightarrow> False
   | (Inr c, ls, w') \<Rightarrow> rcExceptionLUID c = 3 \<and> noAddRouteFailed ls"
  by code_simp

lemma demo_result:
  obtains c ls w' where "demoConfigure = (Inr c, ls, w')" "rcExceptionLUID c = 3" "noAddRouteFailed ls"
  using demo_run by (cases demoConfigure) (auto split: sum.splits)

lemma memApi_reliableDelete: "reliableDelete memApi memRoutes"
proof -
  have "fst (procGetIpForwardEntry2 memApi row w) = 0 \<and> fst (procDeleteIpForwardEntry2 memApi row w) = 0"
    if key: "routeKey row \<in> memRoutes w" for row w
  proof -
    obtain x where "x \<in> set (wfRoutes w)" "routeKey x = routeKey row"
      using key by (auto simp: memRoutes_def)
    then have "find (\<lambda>x. routeKey x = routeKey row) (wfRoutes w) \<noteq> None"
      by (auto simp: find_None_iff)
    then show ?thesis
      using key by (auto simp: memApi_def tabGet_def tabDelete_def memRoutes_def)
  qed
  then show ?thesis
    by (simp add: reliableDelete_def)
qed

lemma homeWorld_luids: "\<forall>k\<in>memRoutes homeWorld. fst k \<noteq> 0"
  by (simp add: memRoutes_def homeWorld_def wfRoutes_def emptyWorld_def homeRow_def routeKey_def)

lemmas mem_docs = memApi_documented_routes memApi_documented_frames

theorem cleanup_restores_routes_witness:
  "\<exists>c ls w1. demoConfigure = (Inr c, ls, w1) \<and>
     offLink 7 (memRoutes (runCleanup Amd64 memApi plainSys c w1)) = offLink 7 (memRoutes homeWorld)"
proof -
  obtain c ls w1 where "demoConfigure = (Inr c, ls, w1)"
    by (rule demo_result)
  then show ?thesis
    using cleanup_restores_routes [OF mem_docs memApi_reliableDelete homeWorld_luids,
        of 7 Amd64 demoLookup 1420 fullTunnel] by simp
qed

theorem endpoint_not_captured_witness:
  "\<exists>c ls w1. demoConfigure = (Inr c, ls, w1) \<and>
     (3, rcExceptionPrefix c, rcExceptionHop c) \<in> bestMatches (memRoutes w1) (Addr4 203 0 113 7)"
proof -
  have ip: "Addr4 203 0 113 7 = resolveEndpoint demoLookup (cfgPeers fullTunnel)"
    by code_simp
  obtain c ls w1 where "demoConfigure = (Inr c, ls, w1)" "rcExceptionLUID c = 3"
    by (rule demo_result)
  then show ?thesis
    using endpoint_not_captured [OF mem_docs homeWorld_luids _ _ ip] by force
qed

theorem addTunnelRoutes_exact_witness:
  "\<exists>ls w'. addTunnelRoutes memApi 7 [\<lparr>peerEndpoint = [], peerAllowedIPs = ['' 10.0.0.0/8'', ''x'', ''0.0.0.0/0'']\<rparr>] homeWorld
     = (ls, w') \<and> {(7, PrefixFrom (Addr4 10 0 0 0) 8, Addr4 0 0 0 0),
       (7, PrefixFrom (Addr4 128 0 0 0) 1, Addr4 0 0 0 0)} \<subseteq> memRoutes w'"
proof -
  let ?peers = "[\<lparr>peerEndpoint = [], peerAllowedIPs = ['' 10.0.0.0/8'', ''x'', ''0.0.0.0/0'']\<rparr>]"
  obtain ls w' where run: "addTunnelRoutes memApi 7 ?peers homeWorld = (ls, w')"
    by fastforce
  let ?ten = "PrefixFrom (Addr4 10 0 0 0) 8" and ?half = "PrefixFrom (Addr4 128 0 0 0) 1"
  have ok: "noAddRouteFailed (fst (addTunnelRoutes memApi 7 ?peers homeWorld))"
    by code_simp
  have parsed: "ParsePrefix (trimSpace '' 10.0.0.0/8'') = Some ?ten" "pfxBits ?ten \<noteq> 0"
    "ParsePrefix (trimSpace ''0.0.0.0/0'') = Some (PrefixFrom (Addr4 0 0 0 0) 0)"
    "addrIs4 (pfxAddr (PrefixFrom (Addr4 0 0 0 0) 0))" "pfxBits (PrefixFrom (Addr4 0 0 0 0) 0) = 0"
    by code_simp+
  note added = addTunnelRoutes_exact [OF memApi_documented_routes run refl, THEN conjunct2, THEN conjunct2]
  have none: "\<not> (\<exists>err. AddRouteFailed q err \<in> set ls)" for q
    using ok run by (simp add: noAddRouteFailed_iff)
  have "(7, ?ten, Addr4 0 0 0 0) \<in> memRoutes w'"
    using added [THEN bspec, of ?ten] none parsed(1,2) by simp
  moreover have "(7, ?half, Addr4 0 0 0 0) \<in> memRoutes w'"
    using added [THEN bspec, of ?half] none parsed(3-5) by simp
  ultimately show ?thesis
    using run by simp
qed

theorem full_tunnel_overrides_default_witness:
  "\<exists>c ls w1. demoConfigure = (Inr c, ls, w1) \<and>
     (\<forall>k\<in>bestMatches (memRoutes w1) (Addr4 8 8 8 8). 1 \<le> pfxBits (fst (snd k)))"
proof -
  obtain c ls w1 where run: "demoConfigure = (Inr c, ls, w1)" "noAddRouteFailed ls"
    by (rule demo_result)
  have "ParsePrefix (trimSpace '' 0.0.0.0/0'') = Some (PrefixFrom (Addr4 0 0 0 0) 0)"
    by code_simp
  then show ?thesis
    using full_tunnel_overrides_default [OF mem_docs run(1), of "hd (cfgPeers fullTunnel)"
        "'' 0.0.0.0/0''" _ "Addr4 8 8 8 8"] run
    by (auto simp: noAddRouteFailed_iff fullTunnel_def PrefixFrom_def addrIsValid_def)
qed

theorem defaultRoute_lowest_metric_witness:
  "defaultRoute memApi 7 homeWorld = (Some (3, Addr4 192 168 1 1), [])"
proof -
  have table: "procGetIpForwardTable2 memApi AF_INET homeWorld = (0, [homeRow])"
    by code_simp
  have row: "addrIs4 (pfxAddr (prefixOf (frDestinationPrefix homeRow)))"
    "pfxBits (prefixOf (frDestinationPrefix homeRow)) = 0" "frInterfaceLUID homeRow = 3"
    "sockAddr (frNextHop homeRow) = Addr4 192 168 1 1"
    by code_simp+
  show ?thesis
    using defaultRoute_lowest_metric [where api = memApi and w = homeWorld and tun = 7] row
    by (auto simp: table Let_def split: prod.splits option.splits if_splits)
qed


end
