(* ===== verification/Control_Log.thy ===== *)
theory Control_Log
  imports Prelude
begin

text \<open>
  The log ring buffer of \<^verbatim>\<open>src/control/logbuf.go\<close>.  A buffer is a record; \<^verbatim>\<open>Append\<close> and
  \<^verbatim>\<open>Write\<close> return the updated buffer, with \<^const>\<open>None\<close> for a run-time panic (the slice
  expression of the eviction on a buffer whose capacity is not positive).  The clock is an
  argument.  The capacity is an unbounded integer: that \<^verbatim>\<open>make\<close> panics in \<^verbatim>\<open>NewLogBuffer\<close> for a capacity
  beyond the address space is not modelled.  The interface the rest of the program relies on is the locale \<open>seq_log\<close>.
\<close>

section \<open>Data\<close>

record LogLine =
  Seq :: u64
  Time :: i64
  Level :: string
  Msg :: string

record LogBuffer =
  lbCap :: int
  lbLines :: "LogLine list"
  lbNextSeq :: u64
  lbOverflow :: u64

definition defaultLogCapacity :: int where
  "defaultLogCapacity = 2000"

section \<open>Operations\<close>

definition NewLogBuffer :: "int \<Rightarrow> LogBuffer" where
  "NewLogBuffer capacity =
     (let capacity = (if capacity \<le> 0 then defaultLogCapacity else capacity)
      in \<lparr>lbCap = capacity, lbLines = [], lbNextSeq = 1, lbOverflow = 0\<rparr>)"

text \<open>
  \<^verbatim>\<open>Append\<close>: the new line takes the next number; at capacity the oldest line is shifted out
  (\<^verbatim>\<open>copy(b.lines, b.lines[1:])\<close> and a slice one shorter) before the new one is appended.
  \<^verbatim>\<open>b.lines[1:]\<close> of an empty slice panics.
\<close>

definition Append :: "i64 \<Rightarrow> string \<Rightarrow> LogBuffer \<Rightarrow> (LogLine \<times> LogBuffer) option" where
  "Append now msg b =
     (let line = \<lparr>Seq = lbNextSeq b, Time = now, Level = [], Msg = msg\<rparr>;
          b = b\<lparr>lbNextSeq := lbNextSeq b + 1\<rparr>
      in if int (length (lbLines b)) \<ge> lbCap b
         then if lbLines b = [] then None
              else let shifted = goCopy (lbLines b) (drop 1 (lbLines b));
                       kept = take (length shifted - 1) shifted
                   in Some (line, b\<lparr>lbLines := kept @ [line], lbOverflow := lbOverflow b + 1\<rparr>)
         else Some (line, b\<lparr>lbLines := lbLines b @ [line]\<rparr>))"

text \<open>
  The loop of \<^verbatim>\<open>Write\<close> over the pieces; \<open>now k\<close> is the clock at the \<open>k\<close>-th \<^verbatim>\<open>Append\<close>.
\<close>

fun writeLines :: "(nat \<Rightarrow> i64) \<Rightarrow> string list \<Rightarrow> LogBuffer \<Rightarrow> LogBuffer option" where
  "writeLines now [] b = Some b"
| "writeLines now (raw # raws) b =
     (let line = trimRight (CHR 0x0D) raw
      in if line = [] then writeLines now raws b
         else case Append (now 0) line b of
                None \<Rightarrow> None
              | Some (_, b') \<Rightarrow> writeLines (\<lambda>k. now (Suc k)) raws b')"

definition Write :: "(nat \<Rightarrow> i64) \<Rightarrow> string \<Rightarrow> LogBuffer \<Rightarrow> (nat \<times> LogBuffer) option" where
  "Write now p b =
     (let n = length p
      in map_option (\<lambda>b'. (n, b'))
           (writeLines now (splitOn (CHR 0x0A) (trimRight (CHR 0x0A) p)) b))"

text \<open>The scan of \<^verbatim>\<open>Since\<close> for the first line after the cursor.\<close>

function sinceStart :: "LogLine list \<Rightarrow> u64 \<Rightarrow> nat \<Rightarrow> nat" where
  "sinceStart ls since start =
     (if start < length ls \<and> Seq (ls ! start) \<le> since then sinceStart ls since (start + 1)
      else start)"
  by pat_completeness auto
termination
  by (relation "measure (\<lambda>(ls, since, start). length ls - start)") auto

definition Since :: "u64 \<Rightarrow> LogBuffer \<Rightarrow> LogLine list" where
  "Since since b = drop (sinceStart (lbLines b) since 0) (lbLines b)"

declare sinceStart.simps [simp del]

section \<open>Invariant\<close>

text \<open>
  The buffer holds at most its capacity of lines; their numbers are consecutive, start at 1
  or later and end just below the next number; evicted and retained lines together are all
  the lines ever appended.  The counter has not wrapped.
\<close>

definition lb_inv :: "LogBuffer \<Rightarrow> bool" where
  "lb_inv b \<longleftrightarrow>
     0 < lbCap b \<and> int (length (lbLines b)) \<le> lbCap b \<and>
     length (lbLines b) < unat (lbNextSeq b) \<and>
     map (\<lambda>l. unat (Seq l)) (lbLines b)
       = [unat (lbNextSeq b) - length (lbLines b) ..< unat (lbNextSeq b)] \<and>
     unat (lbOverflow b) + length (lbLines b) + 1 = unat (lbNextSeq b)"

definition lb_room :: "nat \<Rightarrow> LogBuffer \<Rightarrow> bool" where
  "lb_room k b \<longleftrightarrow> unat (lbNextSeq b) + k < 2 ^ 64"

lemma lb_inv_NewLogBuffer [simp, intro]: "lb_inv (NewLogBuffer c)"
  by (simp add: lb_inv_def NewLogBuffer_def defaultLogCapacity_def Let_def)

lemma lb_inv_seq_bounds:
  assumes "lb_inv b" "l \<in> set (lbLines b)"
  shows "0 < unat (Seq l) \<and> unat (Seq l) < unat (lbNextSeq b)"
proof -
  have "unat (Seq l) \<in> set (map (\<lambda>l. unat (Seq l)) (lbLines b))"
    using assms(2) by simp
  also have "\<dots> = {unat (lbNextSeq b) - length (lbLines b) ..< unat (lbNextSeq b)}"
    using assms(1) by (simp only: lb_inv_def set_upt)
  finally show ?thesis
    using assms(1) by (auto simp: lb_inv_def)
qed

lemma Append_cases:
  fixes now :: i64 and msg :: string
  assumes "lb_inv b"
  defines "line \<equiv> \<lparr>Seq = lbNextSeq b, Time = now, Level = [], Msg = msg\<rparr>"
  shows "Append now msg b =
    (if int (length (lbLines b)) = lbCap b
     then Some (line, b\<lparr>lbLines := tl (lbLines b) @ [line], lbNextSeq := lbNextSeq b + 1,
                        lbOverflow := lbOverflow b + 1\<rparr>)
     else Some (line, b\<lparr>lbLines := lbLines b @ [line], lbNextSeq := lbNextSeq b + 1\<rparr>))"
  using assms(1) goCopy_shift [of "lbLines b"]
  by (auto simp: Append_def lb_inv_def line_def Let_def drop_Suc)

lemma Append_total: "lb_inv b \<Longrightarrow> \<exists>l b'. Append now msg b = Some (l, b')"
  by (simp add: Append_cases)

text \<open>What an \<^verbatim>\<open>Append\<close> does to the retained lines, as one equation on both branches.\<close>

lemma Append_lines:
  assumes "lb_inv b" "Append now msg b = Some (l, b')"
  shows "l = \<lparr>Seq = lbNextSeq b, Time = now, Level = [], Msg = msg\<rparr>"
    and "lbLines b' = drop (length (lbLines b) + 1 - nat (lbCap b)) (lbLines b @ [l])"
    and "lbCap b' = lbCap b" and "lbNextSeq b' = lbNextSeq b + 1"
proof -
  have *: "int (length (lbLines b)) \<le> lbCap b" "0 < lbCap b"
    using assms(1) by (auto simp: lb_inv_def)
  show "l = \<lparr>Seq = lbNextSeq b, Time = now, Level = [], Msg = msg\<rparr>" "lbCap b' = lbCap b"
    "lbNextSeq b' = lbNextSeq b + 1"
    using assms by (auto simp: Append_cases split: if_splits)
  show "lbLines b' = drop (length (lbLines b) + 1 - nat (lbCap b)) (lbLines b @ [l])"
  proof (cases "int (length (lbLines b)) = lbCap b")
    case True
    then have "length (lbLines b) + 1 - nat (lbCap b) = 1" "lbLines b \<noteq> []"
      using * by auto
    moreover have "lbLines b' = tl (lbLines b) @ [l]"
      using assms True by (auto simp: Append_cases)
    ultimately show ?thesis
      by (cases "lbLines b") auto
  next
    case False
    then have "length (lbLines b) + 1 - nat (lbCap b) = 0"
      using * by simp
    then show ?thesis
      using assms False by (auto simp: Append_cases)
  qed
qed

lemma lb_inv_Append:
  assumes "lb_inv b" "lb_room 1 b" "Append now msg b = Some (l, b')"
  shows "lb_inv b'"
proof -
  let ?n = "unat (lbNextSeq b)" and ?k = "length (lbLines b)"
  have n: "unat (lbNextSeq b + 1) = ?n + 1"
    using assms(2) by (intro unat_inc_u64) (simp add: lb_room_def)
  have inv: "0 < lbCap b" "int ?k \<le> lbCap b" "?k < ?n" "unat (lbOverflow b) + ?k + 1 = ?n"
    and seqs: "map (\<lambda>l. unat (Seq l)) (lbLines b) = [?n - ?k ..< ?n]"
    using assms(1) by (auto simp: lb_inv_def)
  show ?thesis
  proof (cases "int ?k = lbCap b")
    case True
    then have "map (\<lambda>l. unat (Seq l)) (tl (lbLines b)) = [Suc (?n - ?k) ..< ?n]"
      using seqs inv by (simp add: map_tl tl_upt)
    moreover have "unat (lbOverflow b + 1) = unat (lbOverflow b) + 1"
      using assms(2) inv by (intro unat_inc_u64) (simp add: lb_room_def)
    moreover have "lbLines b \<noteq> []"
      using True inv by auto
    ultimately show ?thesis
      using assms(1,3) True inv by (auto simp: Append_cases lb_inv_def n Suc_diff_le)
  next
    case False
    then show ?thesis
      using assms(1,3) seqs inv by (auto simp: Append_cases lb_inv_def n)
  qed
qed

section \<open>Refinement: the buffer is the tail of the history\<close>

text \<open>
  The abstract view of a buffer is the history of every line appended to it.  \<open>represents\<close>
  relates the two: the buffer is well formed, the history is numbered from 1, and the
  retained lines are its last \<^verbatim>\<open>cap\<close> entries.
\<close>

definition lastN :: "nat \<Rightarrow> 'a list \<Rightarrow> 'a list" where
  "lastN n xs = drop (length xs - n) xs"

lemma lastN_snoc_drop:
  "0 < n \<Longrightarrow> lastN n (xs @ [x]) = drop (length (lastN n xs) + 1 - n) (lastN n xs @ [x])"
  by (cases "n \<le> length xs") (auto simp: lastN_def Suc_diff_le)

definition represents :: "LogBuffer \<Rightarrow> LogLine list \<Rightarrow> bool" where
  "represents b hist \<longleftrightarrow>
     lb_inv b \<and> map (\<lambda>l. unat (Seq l)) hist = [1 ..< length hist + 1] \<and>
     unat (lbNextSeq b) = length hist + 1 \<and> lbLines b = lastN (nat (lbCap b)) hist"

lemma represents_New: "represents (NewLogBuffer c) []"
  by (simp add: represents_def lastN_def)
     (simp add: NewLogBuffer_def Let_def)

lemma represents_Append:
  assumes "represents b hist" "lb_room 1 b" "Append now msg b = Some (l, b')"
  shows "represents b' (hist @ [l])"
proof -
  have inv: "lb_inv b" and cap: "0 < nat (lbCap b)"
    using assms(1) by (auto simp: represents_def lb_inv_def)
  note step = Append_lines [OF inv assms(3)]
  have "unat (lbNextSeq b') = unat (lbNextSeq b) + 1"
    unfolding step(4) using assms(2) by (intro unat_inc_u64) (simp add: lb_room_def)
  moreover have "lbLines b' = lastN (nat (lbCap b)) (hist @ [l])"
    unfolding step(2) lastN_snoc_drop [OF cap] using assms(1) by (simp add: represents_def)
  ultimately show ?thesis
    using assms lb_inv_Append [OF inv assms(2,3)] step(1,3) by (simp add: represents_def)
qed

section \<open>Reading from a cursor\<close>

lemma sinceStart_eq:
  "start \<le> length ls \<Longrightarrow>
     drop (sinceStart ls s start) ls = dropWhile (\<lambda>l. Seq l \<le> s) (drop start ls)"
proof (induction ls s start rule: sinceStart.induct)
  case (1 ls s start)
  show ?case
  proof (cases "start < length ls")
    case True
    then have "drop start ls = ls ! start # drop (Suc start) ls"
      by (simp add: Cons_nth_drop_Suc)
    with 1 True show ?thesis
      by (simp add: sinceStart.simps [of ls s start])
  next
    case False
    with 1 show ?thesis
      by (simp add: sinceStart.simps [of ls s "length ls"])
  qed
qed

lemma dropWhile_filter_sorted:
  "sorted (map f xs) \<Longrightarrow> dropWhile (\<lambda>x. f x \<le> s) xs = filter (\<lambda>x. s < f x) xs"
proof (induction xs)
  case (Cons x xs)
  then have "s < f x \<Longrightarrow> filter (\<lambda>x. s < f x) xs = xs"
    by (intro filter_True) (auto intro: less_le_trans)
  with Cons show ?case
    by (auto simp: not_le)
qed simp

lemma lb_inv_sorted: "lb_inv b \<Longrightarrow> sorted (map Seq (lbLines b))"
proof -
  assume "lb_inv b"
  then have "sorted (map unat (map Seq (lbLines b)))"
    by (simp add: lb_inv_def comp_def)
  then show ?thesis
    by (simp add: sorted_map word_le_nat_alt)
qed

lemma Since_filter: "lb_inv b \<Longrightarrow> Since s b = filter (\<lambda>l. s < Seq l) (lbLines b)"
  by (simp add: Since_def sinceStart_eq dropWhile_filter_sorted lb_inv_sorted)

section \<open>The interface: a numbered log\<close>

text \<open>A run of appends, as any client of a log performs it, with the lines it was handed.\<close>

fun appendAll ::
  "(i64 \<Rightarrow> string \<Rightarrow> 'b \<Rightarrow> (LogLine \<times> 'b) option) \<Rightarrow> (i64 \<times> string) list \<Rightarrow> 'b
     \<Rightarrow> (LogLine list \<times> 'b) option" where
  "appendAll app [] b = Some ([], b)"
| "appendAll app ((now, msg) # ms) b =
     (case app now msg b of
        None \<Rightarrow> None
      | Some (l, b') \<Rightarrow> map_option (\<lambda>(ls, b''). (l # ls, b'')) (appendAll app ms b'))"

lemma lastN_append_filter:
  assumes "\<forall>x\<in>set xs. \<not> P x" "\<forall>y\<in>set ys. P y"
  shows "filter P (lastN n (xs @ ys)) = lastN n ys"
proof -
  have "filter P (drop k xs) = []" for k
    using assms(1) by (auto simp: filter_empty_conv dest: in_set_dropD)
  moreover have "filter P (drop k ys) = drop k ys" for k
    using assms(2) by (intro filter_True) (auto dest: in_set_dropD)
  ultimately show ?thesis
    by (auto simp: lastN_def intro!: arg_cong [where f = "\<lambda>k. drop k ys"])
qed

lemma lastN_lastN_append: "lastN n (lastN n xs @ ys) = lastN n (xs @ ys)"
  by (cases "n \<le> length xs") (auto simp: lastN_def add.commute)

locale seq_log =
  fixes append :: "i64 \<Rightarrow> string \<Rightarrow> 'b \<Rightarrow> (LogLine \<times> 'b) option"
    and since :: "u64 \<Rightarrow> 'b \<Rightarrow> LogLine list"
    and retained :: "'b \<Rightarrow> LogLine list"
    and window :: "'b \<Rightarrow> nat"
    and next_seq :: "'b \<Rightarrow> u64"
    and ok :: "'b \<Rightarrow> bool"
  assumes since_retained: "ok b \<Longrightarrow> since s b = filter (\<lambda>l. s < Seq l) (retained b)"
    and retained_below: "ok b \<Longrightarrow> l \<in> set (retained b) \<Longrightarrow> unat (Seq l) < unat (next_seq b)"
    and retained_window: "ok b \<Longrightarrow> lastN (window b) (retained b) = retained b"
    and next_positive: "ok b \<Longrightarrow> 0 < unat (next_seq b)"
    and append_step: "ok b \<Longrightarrow> unat (next_seq b) + 1 < 2 ^ 64 \<Longrightarrow>
      \<exists>l b'. append now msg b = Some (l, b') \<and> ok b' \<and> Msg l = msg \<and>
             Seq l = next_seq b \<and> unat (next_seq b') = unat (next_seq b) + 1 \<and>
             window b' = window b \<and> retained b' = lastN (window b) (retained b @ [l])"
begin

lemma appendAll_run:
  assumes "ok b" "unat (next_seq b) + length ms < 2 ^ 64"
  shows "\<exists>ls b'. appendAll append ms b = Some (ls, b') \<and> ok b' \<and> window b' = window b \<and>
    map Msg ls = map snd ms \<and> unat (next_seq b') = unat (next_seq b) + length ms \<and>
    map (\<lambda>l. unat (Seq l)) ls = [unat (next_seq b) ..< unat (next_seq b) + length ms] \<and>
    retained b' = lastN (window b) (retained b @ ls)"
  using assms
proof (induction ms arbitrary: b)
  case Nil
  then show ?case by (simp add: retained_window)
next
  case (Cons m ms)
  obtain now msg where m: "m = (now, msg)" by (cases m)
  obtain l b1 where l: "append now msg b = Some (l, b1)" "ok b1" "Msg l = msg"
      "Seq l = next_seq b" "unat (next_seq b1) = unat (next_seq b) + 1"
      "window b1 = window b" "retained b1 = lastN (window b) (retained b @ [l])"
    using append_step [of b now msg] Cons.prems by auto
  obtain ls b2 where ls: "appendAll append ms b1 = Some (ls, b2)" "ok b2" "window b2 = window b1"
      "map Msg ls = map snd ms" "unat (next_seq b2) = unat (next_seq b1) + length ms"
      "map (\<lambda>l. unat (Seq l)) ls = [unat (next_seq b1) ..< unat (next_seq b1) + length ms]"
      "retained b2 = lastN (window b1) (retained b1 @ ls)"
    using Cons.IH [of b1] Cons.prems l by auto
  have "retained b2 = lastN (window b) (retained b @ l # ls)"
    using ls(7) l(6,7) lastN_lastN_append [of "window b" "retained b @ [l]" ls] by simp
  moreover have "[unat (next_seq b) ..< unat (next_seq b) + length (m # ms)]
      = unat (next_seq b) # [unat (next_seq b1) ..< unat (next_seq b1) + length ms]"
    using l(5) upt_conv_Cons [of "unat (next_seq b)" "unat (next_seq b) + length (m # ms)"]
    by simp
  ultimately show ?case
    using m l ls by auto
qed

text \<open>
  A client that has read up to the newest line and polls again gets exactly the lines
  appended in between, in order and without repetition, as long as they fit the window;
  otherwise the most recent ones.
\<close>

lemma poll_gets_new_lines:
  assumes "ok b" "unat (next_seq b) + length ms < 2 ^ 64"
    and "appendAll append ms b = Some (ls, b')"
  shows "since (next_seq b - 1) b' = lastN (window b) ls"
proof -
  have run: "ok b'" "retained b' = lastN (window b) (retained b @ ls)"
      "map (\<lambda>l. unat (Seq l)) ls = [unat (next_seq b) ..< unat (next_seq b) + length ms]"
    using appendAll_run [OF assms(1,2)] assms(3) by auto
  have cursor: "unat (next_seq b - 1) = unat (next_seq b) - 1"
    using next_positive [OF assms(1)] by (intro unat_minus_one) auto
  have "\<not> next_seq b - 1 < Seq l" if "l \<in> set (retained b)" for l
    using retained_below [OF assms(1) that] cursor by (simp add: word_less_nat_alt)
  moreover have "next_seq b - 1 < Seq l" if "l \<in> set ls" for l
  proof -
    have "unat (Seq l) \<in> set (map (\<lambda>l. unat (Seq l)) ls)"
      using that by auto
    then show ?thesis
      unfolding run(3) using cursor next_positive [OF assms(1)] by (auto simp: word_less_nat_alt)
  qed
  ultimately show ?thesis
    using run by (simp add: since_retained lastN_append_filter)
qed

end

interpretation lb: seq_log Append Since lbLines "\<lambda>b. nat (lbCap b)" lbNextSeq lb_inv
proof unfold_locales
  fix b s assume "lb_inv b"
  then show "Since s b = filter (\<lambda>l. s < Seq l) (lbLines b)"
    by (rule Since_filter)
next
  fix b l assume "lb_inv b" "l \<in> set (lbLines b)"
  then show "unat (Seq l) < unat (lbNextSeq b)"
    using lb_inv_seq_bounds by blast
next
  fix b now msg assume inv: "lb_inv b" and room: "unat (lbNextSeq b) + 1 < 2 ^ 64"
  obtain l b' where app: "Append now msg b = Some (l, b')"
    using Append_total [OF inv] by blast
  note step = Append_lines [OF inv app]
  have "lb_inv b'"
    using inv room app by (intro lb_inv_Append [OF inv _ app]) (simp add: lb_room_def)
  moreover have "lbLines b' = lastN (nat (lbCap b)) (lbLines b @ [l])"
    using step(2) by (simp add: lastN_def)
  ultimately show "\<exists>l b'. Append now msg b = Some (l, b') \<and> lb_inv b' \<and> Msg l = msg \<and>
             Seq l = lbNextSeq b \<and> unat (lbNextSeq b') = unat (lbNextSeq b) + 1 \<and>
             nat (lbCap b') = nat (lbCap b) \<and> lbLines b' = lastN (nat (lbCap b)) (lbLines b @ [l])"
    using app step(1,3,4) unat_inc_u64 [OF room] by auto
qed (auto simp: lb_inv_def lastN_def)

lemma represents_appendAll:
  assumes "represents b hist" "lb_room (length ms) b" "appendAll Append ms b = Some (ls, b')"
  shows "represents b' (hist @ ls)"
  using assms
proof (induction ms arbitrary: b hist ls)
  case (Cons m ms)
  obtain now msg where m: "m = (now, msg)" by (cases m)
  obtain l b1 ls' where l: "Append now msg b = Some (l, b1)"
      and r: "appendAll Append ms b1 = Some (ls', b')" "ls = l # ls'"
    using Cons.prems(3) m by (auto split: option.splits)
  have b1: "represents b1 (hist @ [l])"
    using Cons.prems l by (auto intro: represents_Append simp: lb_room_def)
  have "unat (lbNextSeq b1) = unat (lbNextSeq b) + 1"
    using b1 Cons.prems(1) by (simp add: represents_def)
  then have "represents b' ((hist @ [l]) @ ls')"
    using Cons.prems(2) by (intro Cons.IH [OF b1 _ r(1)]) (simp add: lb_room_def)
  then show ?case
    using r by simp
qed simp

section \<open>Write\<close>

text \<open>
  What \<^verbatim>\<open>Write\<close> is documented to store: the newline-separated pieces of its argument without
  their trailing carriage returns, the empty ones left out.
\<close>

definition logMessages :: "string \<Rightarrow> string list" where
  "logMessages p = filter (\<lambda>l. l \<noteq> []) (map (trimRight (CHR 0x0D)) (splitOn (CHR 0x0A) p))"

lemma splitOn_snoc: "splitOn c (s @ [c]) = splitOn c s @ [[]]"
  by (induction s) (auto split: list.splits)

lemma logMessages_trimRight: "logMessages (trimRight (CHR 0x0A) p) = logMessages p"
proof (induction p rule: rev_induct)
  case (snoc x xs)
  show ?case
  proof (cases "x = CHR 0x0A")
    case True
    then show ?thesis
      using snoc by (simp add: logMessages_def splitOn_snoc)
  next
    case False
    then show ?thesis
      by (simp add: trimRight_keep)
  qed
qed simp

lemma writeLines_appendAll:
  "writeLines now raws b =
     (let ls = filter (\<lambda>l. l \<noteq> []) (map (trimRight (CHR 0x0D)) raws)
      in map_option snd (appendAll Append (zip (map now [0 ..< length ls]) ls) b))"
proof (induction now raws b rule: writeLines.induct)
  case (2 now raw raws b)
  have "map now [0 ..< Suc n] = now 0 # map (\<lambda>k. now (Suc k)) [0 ..< n]" for n
    by (simp add: upt_conv_Cons map_Suc_upt [symmetric] comp_def del: upt_Suc)
  with 2 show ?case
    by (auto simp: Let_def option.map_comp comp_def case_prod_beta
             split: option.splits simp del: upt_Suc)
qed simp

lemma Write_appendAll:
  "Write now p b = map_option (\<lambda>r. (length p, snd r))
     (appendAll Append (zip (map now [0 ..< length (logMessages p)]) (logMessages p)) b)"
  using logMessages_trimRight [of p]
  by (simp add: Write_def writeLines_appendAll logMessages_def Let_def option.map_comp
                comp_def case_prod_beta)

lemma logMessages_joinWith:
  assumes "ls \<noteq> []" "\<forall>l\<in>set ls. l \<noteq> [] \<and> CHR 0x0A \<notin> set l \<and> last l \<noteq> CHR 0x0D"
  shows "logMessages (joinWith [CHR 0x0A] ls @ [CHR 0x0A]) = ls"
proof -
  have "splitOn (CHR 0x0A) (joinWith [CHR 0x0A] ls) = ls"
    using assms by (intro splitOn_joinWith) auto
  moreover have "map (trimRight (CHR 0x0D)) ls = ls"
    using assms(2) by (simp add: map_idI trimRight_keep)
  moreover have "filter (\<lambda>l. l \<noteq> []) ls = ls"
    using assms(2) by (intro filter_True) auto
  ultimately show ?thesis
    by (simp add: logMessages_def splitOn_snoc)
qed

section \<open>Properties\<close>

text \<open>
  C6: appending never panics on a buffer made by the constructor, whatever its requested
  capacity; the lines are numbered 1, 2, 3, ...; and reading from cursor 0 returns the last
  \<^verbatim>\<open>cap\<close> lines of everything ever appended, oldest first (the buffer refines its history).
\<close>

theorem logbuf_refines_history:
  assumes "length ms + 1 < 2 ^ 64"
  shows "\<exists>ls b. appendAll Append ms (NewLogBuffer c) = Some (ls, b) \<and>
    map Msg ls = map snd ms \<and> map (\<lambda>l. unat (Seq l)) ls = [1 ..< length ms + 1] \<and>
    Since 0 b = lastN (nat (lbCap b)) ls \<and>
    lbCap b = (if c \<le> 0 then defaultLogCapacity else c) \<and>
    unat (lbOverflow b) = length ms - nat (lbCap b)"
proof -
  let ?b0 = "NewLogBuffer c"
  have b0: "unat (lbNextSeq ?b0) = 1" "lbCap ?b0 = (if c \<le> 0 then defaultLogCapacity else c)"
    by (simp_all add: NewLogBuffer_def Let_def)
  obtain ls b where run: "appendAll Append ms ?b0 = Some (ls, b)" "lb_inv b"
      "nat (lbCap b) = nat (lbCap ?b0)" "map Msg ls = map snd ms"
      "map (\<lambda>l. unat (Seq l)) ls = [1 ..< length ms + 1]"
      "unat (lbNextSeq b) = length ms + 1"
    using lb.appendAll_run [of ?b0 ms] assms b0 by (auto simp: add.commute)
  have rep: "represents b ([] @ ls)"
    using assms b0 by (intro represents_appendAll [OF represents_New _ run(1)])
      (simp add: lb_room_def)
  have since0: "Since 0 b = lbLines b"
  proof -
    have "0 < Seq l" if "l \<in> set (lbLines b)" for l
      using lb_inv_seq_bounds [OF run(2) that] by (simp add: word_less_nat_alt)
    then show ?thesis
      using run(2) by (simp add: Since_filter)
  qed
  have "lbCap b = lbCap ?b0"
    using run(2,3) b0(2) by (auto simp: lb_inv_def defaultLogCapacity_def split: if_splits)
  moreover have "length ls = length ms"
    using run(4) map_eq_imp_length_eq by blast
  then have "length (lbLines b) = length ms - (length ms - nat (lbCap b))"
    using rep by (simp add: represents_def lastN_def)
  then have "unat (lbOverflow b) = length ms - nat (lbCap b)"
    using run(2,6) unfolding lb_inv_def by linarith
  ultimately show ?thesis
    using run rep since0 b0 by (auto simp: represents_def)
qed

theorem logbuf_refines_history_witness:
  "\<exists>ls b. appendAll Append [(7, ''a''), (8, ''b''), (9, ''c'')] (NewLogBuffer 2) = Some (ls, b) \<and>
    map Msg ls = [''a'', ''b'', ''c''] \<and> Since 0 b = lastN 2 ls"
  using logbuf_refines_history [of "[(7, ''a''), (8, ''b''), (9, ''c'')]" 2] by auto

text \<open>
  The well-formedness invariant of the buffer (bounded length, consecutive numbers below
  the next one, evicted plus retained equals appended) is kept by every append, which also
  never reaches the out-of-range slice expression.
\<close>

theorem logbuf_invariant:
  assumes "lb_inv b" "lb_room 1 b"
  shows "\<exists>l b'. Append now msg b = Some (l, b') \<and> lb_inv b' \<and> lbCap b' = lbCap b \<and>
           last (lbLines b') = l \<and> Seq l = lbNextSeq b \<and> Msg l = msg"
proof -
  obtain l b' where app: "Append now msg b = Some (l, b')"
    using Append_total [OF assms(1)] by blast
  then show ?thesis
    using assms lb_inv_Append [OF assms app] by (auto simp: Append_cases split: if_splits)
qed

theorem logbuf_invariant_witness:
  "\<exists>l b'. Append 5 ''x'' (NewLogBuffer 1) = Some (l, b') \<and> lb_inv b' \<and> Msg l = ''x''"
proof -
  have "lb_room 1 (NewLogBuffer 1)"
    by (simp add: lb_room_def NewLogBuffer_def)
  then show ?thesis
    using logbuf_invariant [of "NewLogBuffer 1" 5 "''x''"] by auto
qed

text \<open>
  The front-scanning loop of \<^verbatim>\<open>Since\<close> returns exactly the retained lines whose number
  exceeds the cursor, oldest first.
\<close>

theorem Since_exact:
  assumes "lb_inv b"
  shows "Since s b = filter (\<lambda>l. s < Seq l) (lbLines b)"
  using assms by (rule lb.since_retained)

theorem Since_exact_witness:
  "Since 4 (NewLogBuffer 3) = filter (\<lambda>l. 4 < Seq l) (lbLines (NewLogBuffer 3))"
  by (rule Since_exact) simp

text \<open>
  C24: incremental polling.  A front-end whose cursor is the newest line and that polls after
  further appends receives precisely the lines appended in between, none lost, none repeated,
  unless more than \<^verbatim>\<open>cap\<close> lines arrived, when it receives the most recent \<^verbatim>\<open>cap\<close> of them.
\<close>

theorem poll_no_loss_no_duplicates:
  assumes "lb_inv b" "lb_room (length ms) b" "appendAll Append ms b = Some (ls, b')"
  shows "Since (lbNextSeq b - 1) b' = lastN (nat (lbCap b)) ls \<and>
    (length ms \<le> nat (lbCap b) \<longrightarrow> Since (lbNextSeq b - 1) b' = ls)"
proof -
  have room: "unat (lbNextSeq b) + length ms < 2 ^ 64"
    using assms(2) by (simp add: lb_room_def)
  have poll: "Since (lbNextSeq b - 1) b' = lastN (nat (lbCap b)) ls"
    using assms(1) room assms(3) by (rule lb.poll_gets_new_lines)
  have "map Msg ls = map snd ms"
    using lb.appendAll_run [OF assms(1) room] assms(3) by auto
  then have "length ls = length ms"
    using map_eq_imp_length_eq by blast
  then show ?thesis
    using poll by (simp add: lastN_def)
qed

theorem poll_no_loss_no_duplicates_witness:
  "\<exists>ls b'. appendAll Append [(1, ''a'')] (NewLogBuffer 1) = Some (ls, b') \<and>
     Since (lbNextSeq (NewLogBuffer 1) - 1) b' = ls \<and> ls \<noteq> []"
proof -
  let ?b = "NewLogBuffer 1" and ?l = "\<lparr>Seq = 1, Time = 1, Level = [], Msg = ''a''\<rparr>"
  have run: "appendAll Append [(1, ''a'')] ?b
      = Some ([?l], ?b\<lparr>lbLines := [?l], lbNextSeq := 2\<rparr>)"
    by (simp add: Append_def NewLogBuffer_def Let_def)
  have "lb_room (length [(1 :: i64, ''a'')]) ?b" "length [(1 :: i64, ''a'')] \<le> nat (lbCap ?b)"
    by (simp_all add: lb_room_def NewLogBuffer_def)
  from poll_no_loss_no_duplicates [OF lb_inv_NewLogBuffer this(1) run] this(2)
  show ?thesis
    using run by auto
qed

text \<open>
  C35: \<^verbatim>\<open>Write\<close> reports the whole argument as written and stores its lines: for text made of
  non-empty lines, each newline-terminated, a reader polling from the previous newest line
  gets back exactly those lines (the most recent \<^verbatim>\<open>cap\<close> of them).
\<close>

theorem Write_roundtrip:
  assumes "lb_inv b" "lb_room (length ls) b" "ls \<noteq> []"
    and "\<forall>l\<in>set ls. l \<noteq> [] \<and> CHR 0x0A \<notin> set l \<and> last l \<noteq> CHR 0x0D"
  defines "p \<equiv> joinWith [CHR 0x0A] ls @ [CHR 0x0A]"
  shows "\<exists>b'. Write now p b = Some (length p, b') \<and> lb_inv b' \<and>
           map Msg (Since (lbNextSeq b - 1) b') = lastN (nat (lbCap b)) ls"
proof -
  let ?ms = "zip (map now [0 ..< length ls]) ls"
  have room: "unat (lbNextSeq b) + length ?ms < 2 ^ 64"
    using assms(2) by (simp add: lb_room_def)
  obtain lines b' where run: "appendAll Append ?ms b = Some (lines, b')" "lb_inv b'"
      "map Msg lines = map snd ?ms"
    using lb.appendAll_run [OF assms(1) room] by auto
  have "Write now p b = Some (length p, b')"
    using run(1) assms(3,4) by (simp add: Write_appendAll p_def logMessages_joinWith)
  moreover have "Since (lbNextSeq b - 1) b' = lastN (nat (lbCap b)) lines"
    using lb.poll_gets_new_lines [OF assms(1) room run(1)] .
  moreover have "map Msg (lastN n lines) = lastN n ls" for n
    using run(3) by (simp add: lastN_def drop_map [symmetric])
      (metis length_map length_zip map_snd_zip min.idem diff_zero length_upt)
  ultimately show ?thesis
    using run(2) by auto
qed

theorem Write_roundtrip_witness:
  "\<exists>b'. Write (\<lambda>_. 0) (''hi'' @ [CHR 0x0A] @ ''yo'' @ [CHR 0x0A]) (NewLogBuffer 0) = Some (6, b') \<and>
     map Msg (Since 0 b') = [''hi'', ''yo'']"
proof -
  have "lb_room (length [''hi'', ''yo'']) (NewLogBuffer 0)"
    by (simp add: lb_room_def NewLogBuffer_def)
  from Write_roundtrip [OF lb_inv_NewLogBuffer this, of "\<lambda>_. 0"] show ?thesis
    by (auto simp: lastN_def NewLogBuffer_def defaultLogCapacity_def Let_def)
qed

end
