(* ===== verification/Control_Proto.thy ===== *)
theory Control_Proto
  imports Control_Log
begin

text \<open>
  The messages of the control channel, \<^verbatim>\<open>src/control/proto.go\<close>: command names, \<^verbatim>\<open>Request\<close>,
  \<^verbatim>\<open>Response\<close> and what they carry.  A Go pointer that may be nil is an option; the slices
  tagged \<^verbatim>\<open>omitempty\<close> are lists, since nil and empty look alike on the wire; \<^verbatim>\<open>ParsedConfig.Peers\<close>,
  where they do not, is an optional list.  \<^verbatim>\<open>int\<close> has 64 bits.  Field names carry a prefix for their struct.
\<close>

section \<open>Command names\<close>

definition CmdStatus :: string where "CmdStatus = ''status''"
definition CmdConnect :: string where "CmdConnect = ''connect''"
definition CmdDisconnect :: string where "CmdDisconnect = ''disconnect''"
definition CmdLogs :: string where "CmdLogs = ''logs''"
definition CmdParseConfig :: string where "CmdParseConfig = ''parseConfig''"
definition CmdSerializeConfig :: string where "CmdSerializeConfig = ''serializeConfig''"

lemmas cmd_defs = CmdStatus_def CmdConnect_def CmdDisconnect_def CmdLogs_def CmdParseConfig_def
  CmdSerializeConfig_def

section \<open>Structured configuration\<close>

record ParsedInterface =
  piPrivateKey :: string
  piAddress :: string
  piBindAddress :: string
  piListenPort :: i64
  piNID :: string
  piNetSecret :: string
  piNetSecretInsecure :: bool
  piAllowInsecureNetSecret :: bool
  piPadding :: string
  piDNS :: string
  piFwMark :: i64

record ParsedPeer =
  ppPublicKey :: string
  ppAllowedIPs :: "string list"
  ppEndpoint :: string
  ppPersistentKeepalive :: i64
  ppPresharedKey :: string

record ParsedConfig =
  pcInterface :: ParsedInterface
  pcPeers :: "ParsedPeer list option"

section \<open>Status\<close>

type_synonym State = string

definition StateDisconnected :: State where "StateDisconnected = ''disconnected''"
definition StateConnecting :: State where "StateConnecting = ''connecting''"
definition StateConnected :: State where "StateConnected = ''connected''"

lemmas state_defs = StateDisconnected_def StateConnecting_def StateConnected_def

lemma states_distinct [simp]:
  "StateConnecting \<noteq> StateDisconnected" "StateConnected \<noteq> StateDisconnected"
  "StateConnected \<noteq> StateConnecting"
  by (simp_all add: state_defs)

record PeerStatus =
  psPublicKey :: string
  psEndpoint :: string
  psConnected :: bool
  psLastHandshake :: i64
  psLastReceived :: i64
  psRxBytes :: u64
  psTxBytes :: u64
  psFrameBudget :: i64

record Status =
  stState :: State
  stName :: string
  stIface :: string
  stPeers :: "PeerStatus list"

section \<open>Requests and responses\<close>

record Request =
  reqCmd :: string
  reqConfig :: string
  reqName :: string
  reqSince :: u64
  reqParsedConfig :: "ParsedConfig option"

record Response =
  respOK :: bool
  respError :: string
  respStatus :: "Status option"
  respLogs :: "LogLine list"
  respParsedConfig :: "ParsedConfig option"
  respConfig :: string

text \<open>The zero values Go fills unnamed fields of a composite literal with.\<close>

definition zeroRequest :: Request where
  "zeroRequest = \<lparr>reqCmd = [], reqConfig = [], reqName = [], reqSince = 0, reqParsedConfig = None\<rparr>"

definition zeroResponse :: Response where
  "zeroResponse = \<lparr>respOK = False, respError = [], respStatus = None, respLogs = [],
                   respParsedConfig = None, respConfig = []\<rparr>"

definition zeroStatus :: Status where
  "zeroStatus = \<lparr>stState = [], stName = [], stIface = [], stPeers = []\<rparr>"

lemmas zero_defs = zeroRequest_def zeroResponse_def zeroStatus_def

end
