(* ===== verification/Control_Server.thy ===== *)
theory Control_Server
  imports Control_Proto
begin

text \<open>
  The dispatcher of \<^verbatim>\<open>src/control/server.go\<close>.  The \<^verbatim>\<open>Handler\<close> interface is a record of
  operations over a handler state; \<open>dispatch\<close> is the whole switch.  What a front-end may
  rely on is the locale \<open>control_handler\<close>: a handler whose operations keep a view of the live
  tunnel, and the replies the dispatcher then gives.
\<close>

section \<open>The Handler interface and the dispatcher\<close>

record 'h Handler =
  hConnect :: "string \<Rightarrow> string \<Rightarrow> 'h \<Rightarrow> gerr option \<times> 'h"
  hDisconnect :: "'h \<Rightarrow> gerr option \<times> 'h"
  hStatus :: "'h \<Rightarrow> Status \<times> 'h"
  hLogs :: "u64 \<Rightarrow> 'h \<Rightarrow> LogLine list \<times> 'h"
  hParseConfig :: "string \<Rightarrow> 'h \<Rightarrow> (gerr + ParsedConfig) \<times> 'h"
  hSerializeConfig :: "ParsedConfig \<Rightarrow> 'h \<Rightarrow> (gerr + string) \<times> 'h"

text \<open>The reply after the switch: the current status.\<close>

definition statusReply :: "'h Handler \<Rightarrow> 'h \<Rightarrow> Response \<times> 'h" where
  "statusReply H h =
     (let (st, h) = hStatus H h in (zeroResponse\<lparr>respOK := True, respStatus := Some st\<rparr>, h))"

definition errorReply :: "(u32 \<Rightarrow> string) \<Rightarrow> gerr \<Rightarrow> Response" where
  "errorReply msg err = zeroResponse\<lparr>respError := errorText msg err\<rparr>"

definition dispatch ::
  "(u32 \<Rightarrow> string) \<Rightarrow> 'h Handler \<Rightarrow> Request \<Rightarrow> 'h \<Rightarrow> Response \<times> 'h" where
  "dispatch msg H req h =
     (if reqCmd req = CmdStatus then statusReply H h
      else if reqCmd req = CmdConnect then
        (case hConnect H (reqConfig req) (reqName req) h of
           (Some err, h) \<Rightarrow> (errorReply msg err, h)
         | (None, h) \<Rightarrow> statusReply H h)
      else if reqCmd req = CmdDisconnect then
        (case hDisconnect H h of
           (Some err, h) \<Rightarrow> (errorReply msg err, h)
         | (None, h) \<Rightarrow> statusReply H h)
      else if reqCmd req = CmdLogs then
        (let (logs, h) = hLogs H (reqSince req) h; (st, h) = hStatus H h
         in (zeroResponse\<lparr>respOK := True, respStatus := Some st, respLogs := logs\<rparr>, h))
      else if reqCmd req = CmdParseConfig then
        (case hParseConfig H (reqConfig req) h of
           (Inl err, h) \<Rightarrow> (errorReply msg err, h)
         | (Inr pc, h) \<Rightarrow> (zeroResponse\<lparr>respOK := True, respParsedConfig := Some pc\<rparr>, h))
      else if reqCmd req = CmdSerializeConfig then
        (case reqParsedConfig req of
           None \<Rightarrow> (zeroResponse\<lparr>respError := ''serializeConfig: missing parsedConfig''\<rparr>, h)
         | Some pc \<Rightarrow>
             (case hSerializeConfig H pc h of
                (Inl err, h) \<Rightarrow> (errorReply msg err, h)
              | (Inr text, h) \<Rightarrow> (zeroResponse\<lparr>respOK := True, respConfig := text\<rparr>, h)))
      else (zeroResponse\<lparr>respError := ''unknown command: '' @ reqCmd req\<rparr>, h))"

definition commands :: "string set" where
  "commands = {CmdStatus, CmdConnect, CmdDisconnect, CmdLogs, CmdParseConfig, CmdSerializeConfig}"

lemmas dispatch_simps = dispatch_def statusReply_def errorReply_def zeroResponse_def Let_def

lemma dispatch_other:
  "reqCmd req \<notin> commands \<Longrightarrow>
     dispatch msg H req h = (zeroResponse\<lparr>respError := ''unknown command: '' @ reqCmd req\<rparr>, h)"
  by (simp add: dispatch_def commands_def)

section \<open>The contract a front-end relies on\<close>

text \<open>
  \<open>view h\<close> is the display name of the live tunnel, if there is one.  A status query is a
  snapshot of the view; \<^verbatim>\<open>Disconnect\<close> always succeeds and leaves no tunnel; a successful
  \<^verbatim>\<open>Connect\<close> leaves a tunnel under the requested name, a failed one leaves none; reading the
  logs and converting configurations change nothing.
\<close>

locale control_handler =
  fixes H :: "'h Handler"
    and view :: "'h \<Rightarrow> string option"
    and ok :: "'h \<Rightarrow> bool"
  assumes status_view: "ok h \<Longrightarrow> hStatus H h = (st, h') \<Longrightarrow>
      ok h' \<and> view h' = view h \<and>
      (case view h of
         None \<Rightarrow> st = zeroStatus\<lparr>stState := StateDisconnected\<rparr>
       | Some n \<Rightarrow> stState st \<in> {StateConnecting, StateConnected} \<and> stName st = n)"
    and disconnect_view: "ok h \<Longrightarrow> hDisconnect H h = (e, h') \<Longrightarrow>
      e = None \<and> ok h' \<and> view h' = None"
    and connect_view: "ok h \<Longrightarrow> hConnect H cfg n h = (e, h') \<Longrightarrow>
      ok h' \<and> view h' = (if e = None then Some n else None)"
    and logs_view: "ok h \<Longrightarrow> hLogs H s h = (ls, h') \<Longrightarrow> ok h' \<and> view h' = view h"
    and parse_view: "ok h \<Longrightarrow> hParseConfig H cfg h = (r, h') \<Longrightarrow> ok h' \<and> view h' = view h"
    and serialize_view: "ok h \<Longrightarrow> hSerializeConfig H pc h = (t, h') \<Longrightarrow> ok h' \<and> view h' = view h"
begin

lemma status_keeps: "ok h \<Longrightarrow> hStatus H h = (st, h') \<Longrightarrow> ok h' \<and> view h' = view h"
  using status_view by blast

lemma logs_status_keeps:
  "ok h \<Longrightarrow> hLogs H s h = (ls, h1) \<Longrightarrow> hStatus H h1 = (st, h') \<Longrightarrow> ok h' \<and> view h' = view h"
  using status_keeps logs_view by metis

lemma statusReply_view:
  assumes "ok h" "statusReply H h = (resp, h')"
  shows "ok h' \<and> view h' = view h \<and> respOK resp \<and> (\<exists>st. respStatus resp = Some st \<and> hStatus H h = (st, h'))"
  using assms by (auto simp: statusReply_def zeroResponse_def split: prod.splits dest: status_view)

text \<open>The view after a request: only a connect or a disconnect changes it.\<close>

lemma connect_reply_view:
  assumes "ok h" "dispatch msg H req h = (resp, h')" "reqCmd req = CmdConnect"
  shows "ok h' \<and> view h' = (if respOK resp then Some (reqName req) else None)"
proof -
  obtain e h1 where c: "hConnect H (reqConfig req) (reqName req) h = (e, h1)"
    by fastforce
  show ?thesis
  proof (cases e)
    case None
    then show ?thesis
      using assms c connect_view [OF assms(1) c] statusReply_view [of h1 resp h']
      by (simp add: dispatch_def cmd_defs)
  next
    case (Some err)
    then show ?thesis
      using assms c connect_view [OF assms(1) c]
      by (auto simp: dispatch_def cmd_defs errorReply_def zeroResponse_def)
  qed
qed

lemma disconnect_reply_view:
  assumes "ok h" "dispatch msg H req h = (resp, h')" "reqCmd req = CmdDisconnect"
  shows "ok h' \<and> view h' = None \<and> respOK resp"
proof -
  obtain e h1 where d: "hDisconnect H h = (e, h1)"
    by fastforce
  then show ?thesis
    using assms disconnect_view [OF assms(1) d] statusReply_view [of h1 resp h']
    by (simp add: dispatch_def cmd_defs)
qed

lemma other_reply_view:
  assumes "ok h" "dispatch msg H req h = (resp, h')" "reqCmd req \<notin> {CmdConnect, CmdDisconnect}"
  shows "ok h' \<and> view h' = view h"
  using assms unfolding dispatch_def errorReply_def
  by (auto split: if_splits prod.splits option.splits sum.splits simp: Let_def
      dest: statusReply_view logs_status_keeps parse_view serialize_view)

lemma dispatch_view:
  assumes "ok h" "dispatch msg H req h = (resp, h')"
  shows "ok h' \<and> view h' =
    (if reqCmd req = CmdConnect then if respOK resp then Some (reqName req) else None
     else if reqCmd req = CmdDisconnect then None else view h)"
  using connect_reply_view [OF assms] disconnect_reply_view [OF assms] other_reply_view [OF assms]
  by auto

text \<open>A successful status, connect or disconnect reply reports the state it leaves behind.\<close>

lemma reply_reports_view:
  assumes "ok h" "dispatch msg H req h = (resp, h')" "respStatus resp = Some st"
  shows "(stState st = StateDisconnected) = (view h' = None) \<and>
         (\<forall>n. view h' = Some n \<longrightarrow> stName st = n)"
proof -
  have "\<exists>h1. ok h1 \<and> hStatus H h1 = (st, h')"
    using assms unfolding dispatch_def errorReply_def
    by (auto split: if_splits prod.splits option.splits sum.splits simp: Let_def zeroResponse_def
        dest!: statusReply_view [rotated] dest: connect_view disconnect_view logs_view)
  then obtain h1 where "ok h1" "hStatus H h1 = (st, h')"
    by blast
  from status_view [OF this] show ?thesis
    by (auto split: option.splits simp: zeroStatus_def)
qed

end

section \<open>Properties\<close>

text \<open>A handler that never has a tunnel, for the closed instances below.\<close>

definition inertHandler :: "unit Handler" where
  "inertHandler =
     \<lparr>hConnect = (\<lambda>cfg n h. (Some (ErrText ''no tunnel''), h)), hDisconnect = (\<lambda>h. (None, h)),
      hStatus = (\<lambda>h. (zeroStatus\<lparr>stState := StateDisconnected\<rparr>, h)), hLogs = (\<lambda>s h. ([], h)),
      hParseConfig = (\<lambda>cfg h. (Inl (ErrText ''no parser''), h)),
      hSerializeConfig = (\<lambda>pc h. (Inl (ErrText ''no printer''), h))\<rparr>"

text \<open>
  A command outside the protocol is answered with an error naming it, and the handler is
  not called at all.
\<close>

theorem dispatch_unknown_command:
  assumes "reqCmd req \<notin> commands"
  shows "\<exists>resp. dispatch msg H req h = (resp, h) \<and> \<not> respOK resp \<and>
           respError resp = ''unknown command: '' @ reqCmd req \<and> respStatus resp = None"
  using assms by (simp add: dispatch_other zeroResponse_def)

theorem dispatch_unknown_command_witness:
  "\<exists>resp. dispatch (\<lambda>_. []) inertHandler (zeroRequest\<lparr>reqCmd := ''bogus''\<rparr>) () = (resp, ())
     \<and> respError resp = ''unknown command: bogus''"
  using dispatch_unknown_command [of "zeroRequest\<lparr>reqCmd := ''bogus''\<rparr>" "\<lambda>_. []" inertHandler "()"]
  by (auto simp: commands_def cmd_defs)

text \<open>
  Exactly which successful replies carry a status: those to status, connect, disconnect and
  logs do, those to parseConfig and serializeConfig do not; and no successful reply carries an
  error text.
\<close>

theorem dispatch_status_populated:
  assumes "dispatch msg H req h = (resp, h')" "respOK resp"
  shows "respError resp = [] \<and>
    (respStatus resp \<noteq> None \<longleftrightarrow> reqCmd req \<notin> {CmdParseConfig, CmdSerializeConfig})"
  using assms
  by (auto simp: dispatch_simps cmd_defs split: if_splits prod.splits option.splits sum.splits)

theorem dispatch_status_populated_witness:
  "\<exists>resp h'. dispatch (\<lambda>_. []) inertHandler (zeroRequest\<lparr>reqCmd := CmdDisconnect\<rparr>) () = (resp, h')
     \<and> respError resp = [] \<and> respStatus resp \<noteq> None"
proof -
  let ?resp = "zeroResponse\<lparr>respOK := True, respStatus := Some (zeroStatus\<lparr>stState := StateDisconnected\<rparr>)\<rparr>"
  have run: "dispatch (\<lambda>_. []) inertHandler (zeroRequest\<lparr>reqCmd := CmdDisconnect\<rparr>) () = (?resp, ())"
    by (simp add: dispatch_def statusReply_def inertHandler_def zeroRequest_def cmd_defs)
  show ?thesis
    using dispatch_status_populated [OF run] run by (auto simp: zero_defs cmd_defs)
qed

end
