(* ===== verification/Wintunnel.thy ===== *)
theory Wintunnel
  imports Windev_Device Windev_Routing Control_Server
begin

text \<open>
  The tunnel controller, \<^verbatim>\<open>src/wintunnel/tunnel.go\<close>, and its socket, \<^verbatim>\<open>src/wintunnel/udp_windows.go\<close>.
  The engine, the configuration parser and the UDP stack belong to other modules and are
  operations of the environment \<open>env\<close>, over the same system state as the driver and the IP
  helper calls.  All methods hold the tunnel's mutex throughout, so each is one function on the
  process state \<open>service\<close>; the goroutine that \<^verbatim>\<open>Connect\<close> starts is an entry of \<open>svWatchers\<close> until it
  returns.  A channel is its allocation number; \<open>svClosedChans\<close> are the closed ones.
\<close>

section \<open>The environment\<close>

type_synonym UDPAddr = "Addr \<times> u16"
type_synonym UDPConn = nat

text \<open>What \<^verbatim>\<open>engine.Stats\<close> reports of a peer; a zero time is \<^const>\<open>None\<close>, others their Unix seconds.\<close>

record EngineStats =
  esPublicKey :: string
  esEndpoint :: string
  esConnected :: bool
  esLastHandshake :: "i64 option"
  esLastReceived :: "i64 option"
  esRxBytes :: u64
  esTxBytes :: u64
  esFrameBudget :: i64

record ('e, 'w) env =
  enTun :: "'w tunSys"
  enApi :: "'w iphlpapi"
  enSys :: "'w winsys"
  enArch :: goarch
  enLookupIP :: "string \<Rightarrow> u8 list list option"
  enDefaultTunMTU :: int
  enLoadConfigString :: "string \<Rightarrow> gerr + Config"
  enResolveUDPAddr :: "string \<Rightarrow> gerr + UDPAddr"
  enDialUDP :: "int \<Rightarrow> UDPAddr \<Rightarrow> 'w \<Rightarrow> (gerr + UDPConn) \<times> 'w"
  enListenUDP :: "int \<Rightarrow> 'w \<Rightarrow> (gerr + UDPConn) \<times> 'w"
  enConnClose :: "UDPConn \<Rightarrow> 'w \<Rightarrow> 'w"
  enSetReadBuffer :: "UDPConn \<Rightarrow> int \<Rightarrow> 'w \<Rightarrow> gerr option \<times> 'w"
  enSetWriteBuffer :: "UDPConn \<Rightarrow> int \<Rightarrow> 'w \<Rightarrow> gerr option \<times> 'w"
  enSyscallConn :: "UDPConn \<Rightarrow> 'w \<Rightarrow> gerr option"
  enRawControl :: "UDPConn \<Rightarrow> 'w \<Rightarrow> gerr + Handle"
  enWSAIoctl :: "Handle \<Rightarrow> u32 \<Rightarrow> u32 \<Rightarrow> 'w \<Rightarrow> gerr option \<times> 'w"
  enEngNew :: "Config \<Rightarrow> TunDevice \<Rightarrow> UDPConn \<Rightarrow> 'w \<Rightarrow> (gerr + 'e) \<times> 'w"
  enEngRun :: "'e \<Rightarrow> 'w \<Rightarrow> 'w"
  enEngClose :: "'e \<Rightarrow> 'w \<Rightarrow> 'w"
  enEngWait :: "'e \<Rightarrow> 'w \<Rightarrow> 'w"
  enEngStats :: "'e \<Rightarrow> 'w \<Rightarrow> EngineStats list"

datatype tun_log =
    AdapterUp string u64 | UdpConnected UDPAddr | UdpFallback | ReadBufferFailed gerr
  | WriteBufferFailed gerr | NoRawSocket gerr | ConnresetFailed gerr | ControlFailed gerr
  | RouteLog route_log | ClientRunning | EngineError string gerr | TunnelUp string string
  | TunnelDown string

section \<open>The socket\<close>

definition bindUDP :: "('e, 'w) env \<Rightarrow> Config \<Rightarrow> 'w \<Rightarrow> (gerr + UDPConn) \<times> tun_log list \<times> 'w" where
  "bindUDP E cfg w =
     (let listen = (\<lambda>ls w. let (r, w) = enListenUDP E (cfgListenPort cfg) w in (r, ls, w)) in
      case cfgPeers cfg of
        [peer] \<Rightarrow>
          if peerEndpoint peer = [] then listen [] w
          else (case enResolveUDPAddr E (peerEndpoint peer) of
                  Inl _ \<Rightarrow> listen [] w
                | Inr remote \<Rightarrow>
                    (case enDialUDP E (cfgListenPort cfg) remote w of
                       (Inr conn, w) \<Rightarrow> (Inr conn, [UdpConnected remote], w)
                     | (Inl _, w) \<Rightarrow> listen [UdpFallback] w))
      | _ \<Rightarrow> listen [] w)"

definition sioUDPConnReset :: u32 where
  "sioUDPConnReset = or (or 0x80000000 0x18000000) 12"

definition tuneUDPSocket :: "('e, 'w) env \<Rightarrow> UDPConn \<Rightarrow> 'w \<Rightarrow> tun_log list \<times> 'w" where
  "tuneUDPSocket E conn w =
     (let (e1, w) = enSetReadBuffer E conn (8 * 2 ^ 20) w;
          l1 = (case e1 of Some err \<Rightarrow> [ReadBufferFailed err] | None \<Rightarrow> []);
          (e2, w) = enSetWriteBuffer E conn (8 * 2 ^ 20) w;
          l2 = (case e2 of Some err \<Rightarrow> [WriteBufferFailed err] | None \<Rightarrow> [])
      in case enSyscallConn E conn w of
           Some err \<Rightarrow> (l1 @ l2 @ [NoRawSocket err], w)
         | None \<Rightarrow>
             (case enRawControl E conn w of
                Inl err \<Rightarrow> (l1 @ l2 @ [ControlFailed err], w)
              | Inr fd \<Rightarrow>
                  (case enWSAIoctl E fd sioUDPConnReset 0 w of
                     (Some err, w) \<Rightarrow> (l1 @ l2 @ [ConnresetFailed err], w)
                   | (None, w) \<Rightarrow> (l1 @ l2, w))))"

section \<open>The tunnel\<close>

record 'e Tunnel =
  tlRunning :: bool
  tlGen :: u64
  tlName :: string
  tlIface :: string
  tlEng :: "'e option"
  tlTun :: "TunDevice option"
  tlConn :: "UDPConn option"
  tlCleanup :: "RoutingCleanup option"
  tlDone :: "nat option"
  tlLogs :: "LogBuffer option"

definition zeroTunnel :: "'e Tunnel" where
  "zeroTunnel = \<lparr>tlRunning = False, tlGen = 0, tlName = [], tlIface = [], tlEng = None, tlTun = None,
     tlConn = None, tlCleanup = None, tlDone = None, tlLogs = None\<rparr>"

text \<open>The goroutine of one session: its generation, name, error source and done channel.\<close>

record 'e watcher =
  waGen :: u64
  waName :: string
  waEng :: 'e
  waDone :: nat

record ('e, 'w) service =
  svTunnel :: "'e Tunnel"
  svGlobals :: tunGlobals
  svNextChan :: nat
  svClosedChans :: "nat list"
  svWatchers :: "'e watcher list"
  svLog :: "tun_log list"
  svPanic :: bool
  svWorld :: 'w

definition initService :: "'w \<Rightarrow> ('e, 'w) service" where
  "initService w = \<lparr>svTunnel = zeroTunnel, svGlobals = initGlobals, svNextChan = 0, svClosedChans = [],
     svWatchers = [], svLog = [], svPanic = False, svWorld = w\<rparr>"

text \<open>The log buffer, created on first use.\<close>

definition tunnelLogBuffer :: "'e Tunnel \<Rightarrow> LogBuffer \<times> 'e Tunnel" where
  "tunnelLogBuffer t =
     (case tlLogs t of Some b \<Rightarrow> (b, t) | None \<Rightarrow> let b = NewLogBuffer 0 in (b, t\<lparr>tlLogs := Some b\<rparr>))"

definition Logs :: "u64 \<Rightarrow> ('e, 'w) service \<Rightarrow> LogLine list \<times> ('e, 'w) service" where
  "Logs since s =
     (let (b, t) = tunnelLogBuffer (svTunnel s) in (Since since b, s\<lparr>svTunnel := t\<rparr>))"

text \<open>\<^verbatim>\<open>close(t.done)\<close> panics when the channel is closed already.\<close>

definition closeChan :: "nat \<Rightarrow> ('e, 'w) service \<Rightarrow> ('e, 'w) service" where
  "closeChan c s =
     (if c \<in> set (svClosedChans s) then s\<lparr>svPanic := True\<rparr> else s\<lparr>svClosedChans := c # svClosedChans s\<rparr>)"

definition onWorld :: "('w \<Rightarrow> 'w) \<Rightarrow> ('e, 'w) service \<Rightarrow> ('e, 'w) service" where
  "onWorld f s = s\<lparr>svWorld := f (svWorld s)\<rparr>"

definition stopLocked :: "('e, 'w) env \<Rightarrow> ('e, 'w) service \<Rightarrow> ('e, 'w) service" where
  "stopLocked E s =
     (let t = svTunnel s; p = procs (svGlobals s) in
      if \<not> tlRunning t then s
      else
        let s = s\<lparr>svTunnel := t\<lparr>tlGen := tlGen t + 1\<rparr>\<rparr>;
            s = (case tlEng t of Some e \<Rightarrow> onWorld (enEngClose E e) s | None \<Rightarrow> s);
            s = (case tlCleanup t of
                   Some c \<Rightarrow> onWorld (runCleanup (enArch E) (enApi E) (enSys E) c) s | None \<Rightarrow> s);
            s = (case tlConn t of Some c \<Rightarrow> onWorld (enConnClose E c) s | None \<Rightarrow> s);
            s = (case tlTun t of
                   Some d \<Rightarrow> onWorld (\<lambda>w. snd (deviceClose (enTun E) p d w)) s | None \<Rightarrow> s);
            s = (case tlEng t of Some e \<Rightarrow> onWorld (enEngWait E e) s | None \<Rightarrow> s);
            s = (case tlDone t of Some c \<Rightarrow> closeChan c s | None \<Rightarrow> s)
        in s\<lparr>svTunnel := (svTunnel s)\<lparr>tlEng := None, tlConn := None, tlTun := None, tlCleanup := None,
                             tlDone := None, tlRunning := False, tlName := [], tlIface := []\<rparr>,
             svLog := svLog s @ [TunnelDown (tlName t)]\<rparr>)"

text \<open>\<^verbatim>\<open>Connect\<close> after the running session, if any, was stopped.\<close>

definition bringUp ::
  "('e, 'w) env \<Rightarrow> string \<Rightarrow> string \<Rightarrow> ('e, 'w) service \<Rightarrow> gerr option \<times> ('e, 'w) service" where
  "bringUp E configText name s =
     (case enLoadConfigString E configText of
        Inl err \<Rightarrow> (Some (Wrapf ''parse config: '' err), s)
      | Inr cfg \<Rightarrow>
          (case NewTunDevice (enTun E) (enDefaultTunMTU E) ''veil0'' (svGlobals s) (svWorld s) of
             (Inl err, g, w) \<Rightarrow>
               (Some (Wrapf ''create adapter: '' err), s\<lparr>svGlobals := g, svWorld := w\<rparr>)
           | (Inr tunDev, g, w) \<Rightarrow>
               let p = procs g;
                   close = (\<lambda>w. snd (deviceClose (enTun E) p tunDev w));
                   (luid, w) = deviceLUID (enTun E) p tunDev w;
                   s = s\<lparr>svGlobals := g, svLog := svLog s @ [AdapterUp (deviceName tunDev) luid]\<rparr>
               in case bindUDP E cfg w of
                    (Inl err, ls, w) \<Rightarrow>
                      (Some (Wrapf ''bind udp: '' err),
                       s\<lparr>svLog := svLog s @ ls, svWorld := close w\<rparr>)
                  | (Inr conn, ls, w) \<Rightarrow>
                      let (ls2, w) = tuneUDPSocket E conn w;
                          s = s\<lparr>svLog := svLog s @ ls @ ls2\<rparr>
                      in case ConfigureRouting (enArch E) (enApi E) (enSys E) (enLookupIP E)
                                (enDefaultTunMTU E) luid cfg w of
                           (Inl err, ls, w) \<Rightarrow>
                             (Some (Wrapf ''configure routing: '' err),
                              s\<lparr>svLog := svLog s @ map RouteLog ls, svWorld := close (enConnClose E conn w)\<rparr>)
                         | (Inr cleanup, ls, w) \<Rightarrow>
                             let s = s\<lparr>svLog := svLog s @ map RouteLog ls\<rparr> in
                             (case enEngNew E cfg tunDev conn w of
                                (Inl err, w) \<Rightarrow>
                                  (Some (Wrapf ''build engine: '' err),
                                   s\<lparr>svWorld := close (enConnClose E conn
                                       (runCleanup (enArch E) (enApi E) (enSys E) cleanup w))\<rparr>)
                              | (Inr eng, w) \<Rightarrow>
                                  let done = svNextChan s;
                                      w = enEngRun E eng w;
                                      t = svTunnel s;
                                      gen = tlGen t + 1;
                                      t = t\<lparr>tlEng := Some eng, tlTun := Some tunDev, tlConn := Some conn,
                                            tlCleanup := Some cleanup, tlName := name,
                                            tlIface := deviceName tunDev, tlRunning := True,
                                            tlDone := Some done, tlGen := gen\<rparr>
                                  in (None,
                                      s\<lparr>svTunnel := t, svNextChan := Suc done, svWorld := w,
                                        svWatchers := svWatchers s @
                                          [\<lparr>waGen = gen, waName = name, waEng = eng, waDone = done\<rparr>],
                                        svLog := svLog s @ [ClientRunning, TunnelUp name (tlIface t)]\<rparr>))))"

definition Connect ::
  "('e, 'w) env \<Rightarrow> string \<Rightarrow> string \<Rightarrow> ('e, 'w) service \<Rightarrow> gerr option \<times> ('e, 'w) service" where
  "Connect E configText name s =
     bringUp E configText name (if tlRunning (svTunnel s) then stopLocked E s else s)"

definition Disconnect :: "('e, 'w) env \<Rightarrow> ('e, 'w) service \<Rightarrow> gerr option \<times> ('e, 'w) service" where
  "Disconnect E s = (None, stopLocked E s)"

text \<open>The goroutine at index \<open>i\<close> receives \<open>err\<close> from its engine, or sees its done channel closed.\<close>

definition dropWatcher :: "nat \<Rightarrow> ('e, 'w) service \<Rightarrow> ('e, 'w) service" where
  "dropWatcher i s = s\<lparr>svWatchers := take i (svWatchers s) @ drop (Suc i) (svWatchers s)\<rparr>"

definition watcherError ::
  "('e, 'w) env \<Rightarrow> nat \<Rightarrow> gerr option \<Rightarrow> ('e, 'w) service \<Rightarrow> ('e, 'w) service" where
  "watcherError E i err s =
     (let wa = svWatchers s ! i; s = dropWatcher i s in
      case err of
        None \<Rightarrow> s
      | Some e \<Rightarrow>
          if tlRunning (svTunnel s) \<and> tlGen (svTunnel s) = waGen wa
          then stopLocked E (s\<lparr>svLog := svLog s @ [EngineError (waName wa) e]\<rparr>)
          else s)"

definition peerStatus :: "EngineStats \<Rightarrow> PeerStatus" where
  "peerStatus ps =
     \<lparr>psPublicKey = esPublicKey ps, psEndpoint = esEndpoint ps, psConnected = esConnected ps,
      psLastHandshake = (case esLastHandshake ps of Some u \<Rightarrow> u | None \<Rightarrow> 0),
      psLastReceived = (case esLastReceived ps of Some u \<Rightarrow> u | None \<Rightarrow> 0),
      psRxBytes = esRxBytes ps, psTxBytes = esTxBytes ps, psFrameBudget = esFrameBudget ps\<rparr>"

definition tunnelStatus :: "('e, 'w) env \<Rightarrow> ('e, 'w) service \<Rightarrow> Status" where
  "tunnelStatus E s =
     (let t = svTunnel s in
      case tlEng t of
        None \<Rightarrow> zeroStatus\<lparr>stState := StateDisconnected\<rparr>
      | Some eng \<Rightarrow>
          if \<not> tlRunning t then zeroStatus\<lparr>stState := StateDisconnected\<rparr>
          else
            let stats = enEngStats E eng (svWorld s) in
            \<lparr>stState = (if list_ex esConnected stats then StateConnected else StateConnecting),
             stName = tlName t, stIface = tlIface t, stPeers = map peerStatus stats\<rparr>)"

section \<open>Interleavings\<close>

text \<open>
  One step of the process: a method call, a watcher receiving an error or seeing its done channel
  closed, or the rest of the system moving on, as \<open>move\<close> allows.
\<close>

inductive serviceStep ::
  "('e, 'w) env \<Rightarrow> ('w \<Rightarrow> 'w \<Rightarrow> bool) \<Rightarrow> ('e, 'w) service \<Rightarrow> ('e, 'w) service \<Rightarrow> bool"
  for E move where
  connect: "serviceStep E move s (snd (Connect E configText name s))"
| disconnect: "serviceStep E move s (snd (Disconnect E s))"
| logs: "serviceStep E move s (snd (Logs since s))"
| watcherError: "i < length (svWatchers s) \<Longrightarrow> serviceStep E move s (watcherError E i err s)"
| watcherDone: "i < length (svWatchers s) \<Longrightarrow> waDone (svWatchers s ! i) \<in> set (svClosedChans s) \<Longrightarrow>
    serviceStep E move s (dropWatcher i s)"
| elsewhere: "move (svWorld s) w \<Longrightarrow> serviceStep E move s (s\<lparr>svWorld := w\<rparr>)"

text \<open>Runs in which the 64-bit generation counter stays below its wrap-around.\<close>

definition genRoom :: "('e, 'w) service \<Rightarrow> bool" where
  "genRoom s \<longleftrightarrow> unat (tlGen (svTunnel s)) + 2 < 2 ^ 64"

definition serviceRun ::
  "('e, 'w) env \<Rightarrow> ('w \<Rightarrow> 'w \<Rightarrow> bool) \<Rightarrow> ('e, 'w) service \<Rightarrow> ('e, 'w) service \<Rightarrow> bool" where
  "serviceRun E move = (\<lambda>s s'. genRoom s \<and> serviceStep E move s s')\<^sup>*\<^sup>*"

section \<open>The tunnel invariant\<close>

text \<open>The session fields are all set while running and all cleared otherwise.\<close>

definition tunnel_ok :: "'e Tunnel \<Rightarrow> bool" where
  "tunnel_ok t \<longleftrightarrow>
     (if tlRunning t
      then tlEng t \<noteq> None \<and> tlTun t \<noteq> None \<and> tlConn t \<noteq> None \<and> tlCleanup t \<noteq> None \<and> tlDone t \<noteq> None
      else tlEng t = None \<and> tlTun t = None \<and> tlConn t = None \<and> tlCleanup t = None \<and> tlDone t = None \<and>
           tlName t = [] \<and> tlIface t = [])"

definition service_inv :: "('e, 'w) service \<Rightarrow> bool" where
  "service_inv s \<longleftrightarrow>
     (let t = svTunnel s in
      tunnel_ok t \<and> \<not> svPanic s \<and>
      (\<forall>c\<in>set (svClosedChans s). c < svNextChan s) \<and>
      (\<forall>c. tlDone t = Some c \<longrightarrow> c < svNextChan s \<and> c \<notin> set (svClosedChans s)) \<and>
      (\<forall>wa\<in>set (svWatchers s).
         waDone wa < svNextChan s \<and> unat (waGen wa) \<le> unat (tlGen t) \<and>
         (waDone wa \<in> set (svClosedChans s) \<or> tlDone t = Some (waDone wa)) \<and>
         (tlRunning t \<longrightarrow> waGen wa = tlGen t \<longleftrightarrow> tlDone t = Some (waDone wa))))"

lemma tunnel_okE:
  assumes "tunnel_ok t" "tlRunning t"
  obtains e d c cl ch where "tlEng t = Some e" "tlTun t = Some d" "tlConn t = Some c"
    "tlCleanup t = Some cl" "tlDone t = Some ch"
  using assms by (auto simp: tunnel_ok_def)

definition stoppedTunnel :: "'e Tunnel \<Rightarrow> 'e Tunnel" where
  "stoppedTunnel t = t\<lparr>tlGen := tlGen t + 1, tlEng := None, tlConn := None, tlTun := None,
     tlCleanup := None, tlDone := None, tlRunning := False, tlName := [], tlIface := []\<rparr>"

definition stopWorld ::
  "('e, 'w) env \<Rightarrow> procTable \<Rightarrow> 'e \<Rightarrow> TunDevice \<Rightarrow> UDPConn \<Rightarrow> RoutingCleanup \<Rightarrow> 'w \<Rightarrow> 'w" where
  "stopWorld E p e d c cl w =
     enEngWait E e (snd (deviceClose (enTun E) p d (enConnClose E c
       (runCleanup (enArch E) (enApi E) (enSys E) cl (enEngClose E e w)))))"

lemma stopLocked_running:
  assumes "tlRunning (svTunnel s)" "tlEng (svTunnel s) = Some e" "tlTun (svTunnel s) = Some d"
    "tlConn (svTunnel s) = Some c" "tlCleanup (svTunnel s) = Some cl" "tlDone (svTunnel s) = Some ch"
    "ch \<notin> set (svClosedChans s)"
  shows "stopLocked E s = s\<lparr>svTunnel := stoppedTunnel (svTunnel s), svClosedChans := ch # svClosedChans s,
    svLog := svLog s @ [TunnelDown (tlName (svTunnel s))],
    svWorld := stopWorld E (procs (svGlobals s)) e d c cl (svWorld s)\<rparr>"
  using assms
  by (simp add: stopLocked_def onWorld_def closeChan_def stopWorld_def stoppedTunnel_def Let_def)

lemma stopLocked_idle: "\<not> tlRunning (svTunnel s) \<Longrightarrow> stopLocked E s = s"
  by (simp add: stopLocked_def Let_def)

lemma unat_gen_inc: "unat (g :: u64) + 1 < 2 ^ 64 \<Longrightarrow> unat (g + 1) = unat g + 1"
  by (rule unat_inc_u64)

lemma stopLocked_inv:
  assumes "service_inv s" "unat (tlGen (svTunnel s)) + 1 < 2 ^ 64"
  shows "service_inv (stopLocked E s) \<and> \<not> tlRunning (svTunnel (stopLocked E s)) \<and>
    unat (tlGen (svTunnel (stopLocked E s))) \<le> unat (tlGen (svTunnel s)) + 1"
proof (cases "tlRunning (svTunnel s)")
  case False
  then show ?thesis
    using assms(1) by (simp add: stopLocked_idle)
next
  case True
  let ?t = "svTunnel s"
  have "tunnel_ok ?t"
    using assms(1) by (simp add: service_inv_def Let_def)
  then obtain e d c cl ch where f: "tlEng ?t = Some e" "tlTun ?t = Some d" "tlConn ?t = Some c"
      "tlCleanup ?t = Some cl" "tlDone ?t = Some ch"
    using True by (rule tunnel_okE)
  have ch: "ch \<notin> set (svClosedChans s)" "ch < svNextChan s"
    using assms(1) f(5) by (auto simp: service_inv_def Let_def)
  note stop = stopLocked_running [OF True f ch(1), of E]
  have gen: "unat (tlGen ?t + 1) = unat (tlGen ?t) + 1"
    using assms(2) by (rule unat_gen_inc)
  show ?thesis
    using assms(1) ch f gen unfolding stop
    by (auto simp: service_inv_def tunnel_ok_def stoppedTunnel_def Let_def)
qed

text \<open>What bringing a session up changes of the process: on failure, only logs, globals and world.\<close>

definition startedTunnel ::
  "string \<Rightarrow> 'e \<Rightarrow> TunDevice \<Rightarrow> UDPConn \<Rightarrow> RoutingCleanup \<Rightarrow> nat \<Rightarrow> 'e Tunnel \<Rightarrow> 'e Tunnel" where
  "startedTunnel name e d c cl ch t =
     t\<lparr>tlEng := Some e, tlTun := Some d, tlConn := Some c, tlCleanup := Some cl, tlName := name,
       tlIface := deviceName d, tlRunning := True, tlDone := Some ch, tlGen := tlGen t + 1\<rparr>"

lemma bringUp_cases:
  assumes "bringUp E ct name s = (r, s')"
  shows "svClosedChans s' = svClosedChans s \<and> svPanic s' = svPanic s \<and>
    (if r = None
     then \<exists>e d c cl. svTunnel s' = startedTunnel name e d c cl (svNextChan s) (svTunnel s) \<and>
       svNextChan s' = Suc (svNextChan s) \<and>
       svWatchers s' = svWatchers s @
         [\<lparr>waGen = tlGen (svTunnel s) + 1, waName = name, waEng = e, waDone = svNextChan s\<rparr>]
     else svTunnel s' = svTunnel s \<and> svNextChan s' = svNextChan s \<and> svWatchers s' = svWatchers s)"
  using assms unfolding bringUp_def Let_def
  by (auto simp: startedTunnel_def split: sum.splits prod.splits) blast

lemma bringUp_inv:
  assumes "service_inv s" "\<not> tlRunning (svTunnel s)" "unat (tlGen (svTunnel s)) + 1 < 2 ^ 64"
    and "bringUp E ct name s = (r, s')"
  shows "service_inv s'"
proof (cases "r = None")
  case False
  then show ?thesis
    using assms(1) bringUp_cases [OF assms(4)] by (simp add: service_inv_def)
next
  case True
  obtain e d c cl where up: "svTunnel s' = startedTunnel name e d c cl (svNextChan s) (svTunnel s)"
      "svNextChan s' = Suc (svNextChan s)" "svClosedChans s' = svClosedChans s" "svPanic s' = svPanic s"
      "svWatchers s' = svWatchers s @
         [\<lparr>waGen = tlGen (svTunnel s) + 1, waName = name, waEng = e, waDone = svNextChan s\<rparr>]"
    using bringUp_cases [OF assms(4)] True by auto
  have gen: "unat (tlGen (svTunnel s) + 1) = unat (tlGen (svTunnel s)) + 1"
    using assms(3) by (rule unat_gen_inc)
  have old: "wa \<in> set (svWatchers s) \<Longrightarrow> waGen wa \<noteq> tlGen (svTunnel s) + 1 \<and>
      waDone wa \<in> set (svClosedChans s) \<and> waDone wa < Suc (svNextChan s) \<and>
      unat (waGen wa) \<le> Suc (unat (tlGen (svTunnel s)))" for wa
    using assms(1,2) gen by (auto simp: service_inv_def tunnel_ok_def Let_def intro: less_SucI le_SucI)
  show ?thesis
    using assms(1) old gen unfolding service_inv_def up Let_def
    by (auto simp: tunnel_ok_def startedTunnel_def)
qed

lemma Connect_inv:
  assumes "service_inv s" "genRoom s" "Connect E ct name s = (r, s')"
  shows "service_inv s'"
proof -
  let ?s = "stopLocked E s"
  have pre: "(if tlRunning (svTunnel s) then ?s else s) = ?s"
    by (simp add: stopLocked_idle)
  have "unat (tlGen (svTunnel s)) + 1 < 2 ^ 64"
    using assms(2) by (simp add: genRoom_def)
  then have stop: "service_inv ?s" "\<not> tlRunning (svTunnel ?s)"
      "unat (tlGen (svTunnel ?s)) \<le> unat (tlGen (svTunnel s)) + 1"
    using stopLocked_inv [OF assms(1)] by blast+
  then have "unat (tlGen (svTunnel ?s)) + 1 < 2 ^ 64"
    using assms(2) by (simp add: genRoom_def)
  then show ?thesis
    using bringUp_inv [OF stop(1,2)] assms(3) by (simp add: Connect_def pre)
qed

lemma dropWatcher_inv: "service_inv s \<Longrightarrow> service_inv (dropWatcher i s)"
  by (auto simp: service_inv_def dropWatcher_def Let_def dest: in_set_takeD in_set_dropD)

lemma Logs_tunnel:
  "svTunnel (snd (Logs since s)) = (svTunnel s)\<lparr>tlLogs := Some (fst (tunnelLogBuffer (svTunnel s)))\<rparr>"
  "snd (Logs since s) = s\<lparr>svTunnel := svTunnel (snd (Logs since s))\<rparr>"
  by (auto simp: Logs_def tunnelLogBuffer_def Let_def split: option.splits)

lemma Logs_inv: "service_inv s \<Longrightarrow> service_inv (snd (Logs since s))"
  by (subst Logs_tunnel(2)) (simp add: Logs_tunnel(1) service_inv_def tunnel_ok_def Let_def)

lemma watcherError_inv:
  assumes "service_inv s" "genRoom s"
  shows "service_inv (watcherError E i err s)"
proof -
  let ?d = "dropWatcher i s"
  have drop: "service_inv ?d" "svTunnel ?d = svTunnel s"
    using assms(1) dropWatcher_inv by (auto simp: dropWatcher_def)
  have "service_inv (?d\<lparr>svLog := l\<rparr>)" for l
    using drop(1) by (simp add: service_inv_def)
  then have "service_inv (stopLocked E (?d\<lparr>svLog := l\<rparr>))" for l
    using stopLocked_inv [of "?d\<lparr>svLog := l\<rparr>" E] assms(2) drop(2) by (simp add: genRoom_def)
  then show ?thesis
    using drop(1) by (simp add: watcherError_def Let_def split: option.splits)
qed

lemma serviceStep_inv: "serviceStep E move s s' \<Longrightarrow> genRoom s \<Longrightarrow> service_inv s \<Longrightarrow> service_inv s'"
proof (induction rule: serviceStep.induct)
  case (connect s configText name)
  then show ?case
    using Connect_inv by (metis prod.collapse)
next
  case (disconnect s)
  then show ?case
    using stopLocked_inv [of s E] by (simp add: Disconnect_def genRoom_def)
next
  case (elsewhere s w)
  then show ?case by (simp add: service_inv_def)
qed (simp_all add: Logs_inv watcherError_inv dropWatcher_inv)

lemma service_inv_init [simp]: "service_inv (initService w)"
  by (simp add: service_inv_def initService_def zeroTunnel_def tunnel_ok_def)

lemma serviceRun_inv: "serviceRun E move s s' \<Longrightarrow> service_inv s \<Longrightarrow> service_inv s'"
  unfolding serviceRun_def by (induction rule: rtranclp_induct) (auto intro: serviceStep_inv)

section \<open>The tunnel as a control handler\<close>

text \<open>
  The methods of the tunnel as the handler of the control channel.  Parsing and printing a
  configuration are not methods of the tunnel; they are arguments.
\<close>

definition tunnelHandler ::
  "('e, 'w) env \<Rightarrow> (string \<Rightarrow> gerr + ParsedConfig) \<Rightarrow> (ParsedConfig \<Rightarrow> gerr + string)
     \<Rightarrow> ('e, 'w) service Handler" where
  "tunnelHandler E parse print =
     \<lparr>hConnect = Connect E, hDisconnect = Disconnect E, hStatus = (\<lambda>s. (tunnelStatus E s, s)),
      hLogs = Logs, hParseConfig = (\<lambda>text s. (parse text, s)),
      hSerializeConfig = (\<lambda>pc s. (print pc, s))\<rparr>"

definition tunnelView :: "('e, 'w) service \<Rightarrow> string option" where
  "tunnelView s = (if tlRunning (svTunnel s) then Some (tlName (svTunnel s)) else None)"

lemma stopLocked_tunnel:
  "svTunnel (stopLocked E s) = (if tlRunning (svTunnel s) then stoppedTunnel (svTunnel s) else svTunnel s)"
  by (simp add: stopLocked_def onWorld_def closeChan_def stoppedTunnel_def Let_def split: option.splits)

lemma stopLocked_ok:
  "tunnel_ok (svTunnel s) \<Longrightarrow> tunnel_ok (svTunnel (stopLocked E s)) \<and> \<not> tlRunning (svTunnel (stopLocked E s))"
  by (auto simp: stopLocked_tunnel tunnel_ok_def stoppedTunnel_def)

lemma Connect_ok:
  assumes "tunnel_ok (svTunnel s)" "Connect E ct name s = (r, s')"
  shows "tunnel_ok (svTunnel s') \<and> tunnelView s' = (if r = None then Some name else None)"
proof -
  let ?s = "if tlRunning (svTunnel s) then stopLocked E s else s"
  have stop: "tunnel_ok (svTunnel ?s)" "\<not> tlRunning (svTunnel ?s)"
    using stopLocked_ok [OF assms(1)] assms(1) by auto
  have "bringUp E ct name ?s = (r, s')"
    using assms(2) by (simp add: Connect_def)
  from bringUp_cases [OF this] stop show ?thesis
    by (cases "r = None") (auto simp: tunnel_ok_def tunnelView_def startedTunnel_def)
qed

lemma tunnelStatus_view:
  "tunnel_ok (svTunnel s) \<Longrightarrow>
     (case tunnelView s of
        None \<Rightarrow> tunnelStatus E s = zeroStatus\<lparr>stState := StateDisconnected\<rparr>
      | Some n \<Rightarrow> stState (tunnelStatus E s) \<in> {StateConnecting, StateConnected} \<and> stName (tunnelStatus E s) = n)"
  by (auto simp: tunnelView_def tunnelStatus_def tunnel_ok_def Let_def)

lemma Logs_ok: "tunnel_ok (svTunnel s) \<Longrightarrow>
    tunnel_ok (svTunnel (snd (Logs since s))) \<and> tunnelView (snd (Logs since s)) = tunnelView s"
  by (simp add: tunnelView_def Logs_tunnel(1) tunnel_ok_def)

interpretation th: control_handler "tunnelHandler E parse print" tunnelView "\<lambda>s. tunnel_ok (svTunnel s)"
  for E :: "('e, 'w) env" and parse print
proof (unfold_locales, goal_cases)
  case (1 h st h')
  then show ?case
    using tunnelStatus_view [of h E] by (auto simp: tunnelHandler_def)
next
  case (2 h e h')
  then show ?case
    using stopLocked_ok [of h E] by (auto simp: tunnelHandler_def Disconnect_def tunnelView_def)
next
  case (3 h cfg n e h')
  then show ?case
    using Connect_ok by (fastforce simp: tunnelHandler_def)
next
  case (4 h s ls h')
  then show ?case
    using Logs_ok [of h s] by (simp add: tunnelHandler_def)
qed (auto simp: tunnelHandler_def)

section \<open>Properties of the controller\<close>

text \<open>
  The control channel over the real tunnel.  Whatever request is dispatched, the tunnel's
  session fields stay consistent; a connect leaves a tunnel under the requested name exactly when
  the reply says so and none otherwise; a disconnect leaves none; every other request leaves the
  tunnel as it was; and a status in the reply describes the tunnel left behind.
\<close>

theorem service_dispatch:
  assumes "tunnel_ok (svTunnel s)"
    and "dispatch msg (tunnelHandler E parse print) req s = (resp, s')"
  shows "tunnel_ok (svTunnel s') \<and>
    tunnelView s' =
      (if reqCmd req = CmdConnect then if respOK resp then Some (reqName req) else None
       else if reqCmd req = CmdDisconnect then None else tunnelView s) \<and>
    (\<forall>st. respStatus resp = Some st \<longrightarrow>
       (stState st = StateDisconnected) = (tunnelView s' = None) \<and>
       (\<forall>n. tunnelView s' = Some n \<longrightarrow> stName st = n))"
  using th.dispatch_view [OF assms] th.reply_reports_view [OF assms] by blast

text \<open>A peer entry that reports every figure the engine has of that peer; a time that never was is 0.\<close>

definition reportsPeer :: "EngineStats \<Rightarrow> PeerStatus \<Rightarrow> bool" where
  "reportsPeer e p \<longleftrightarrow>
     psPublicKey p = esPublicKey e \<and> psEndpoint p = esEndpoint e \<and> psConnected p = esConnected e \<and>
     (case esLastHandshake e of None \<Rightarrow> psLastHandshake p = 0 | Some u \<Rightarrow> psLastHandshake p = u) \<and>
     (case esLastReceived e of None \<Rightarrow> psLastReceived p = 0 | Some u \<Rightarrow> psLastReceived p = u) \<and>
     psRxBytes p = esRxBytes e \<and> psTxBytes p = esTxBytes e \<and> psFrameBudget p = esFrameBudget e"

lemma peerStatus_reports: "list_all2 reportsPeer stats (map peerStatus stats)"
  by (induction stats) (auto simp: reportsPeer_def peerStatus_def split: option.splits)

text \<open>
  C36: the reported state.  In every run of the process, a status request is answered without changing
  anything.  Without a session the status is exactly disconnected; with one it
  carries its name, its interface and one entry per peer of the engine, in order, each with all the
  engine's figures of that peer; and the state is connected exactly when some peer has completed
  a handshake, otherwise connecting.
\<close>

theorem status_exact:
  assumes "serviceRun E move (initService w) s" "reqCmd req = CmdStatus"
    and "dispatch msg (tunnelHandler E parse print) req s = (resp, s')"
  shows "s' = s \<and> respOK resp \<and> respError resp = [] \<and> respLogs resp = [] \<and>
    (\<exists>st. respStatus resp = Some st \<and>
      (case tlEng (svTunnel s) of
         None \<Rightarrow> \<not> tlRunning (svTunnel s) \<and> st = zeroStatus\<lparr>stState := StateDisconnected\<rparr>
       | Some eng \<Rightarrow> tlRunning (svTunnel s) \<and> stName st = tlName (svTunnel s) \<and> stIface st = tlIface (svTunnel s) \<and>
           list_all2 reportsPeer (enEngStats E eng (svWorld s)) (stPeers st) \<and>
           stState st = (if \<exists>e\<in>set (enEngStats E eng (svWorld s)). esConnected e
                         then StateConnected else StateConnecting)))"
proof -
  have "service_inv s"
    using serviceRun_inv [OF assms(1) service_inv_init] .
  then have ok: "tunnel_ok (svTunnel s)"
    by (simp add: service_inv_def Let_def)
  have resp: "resp = zeroResponse\<lparr>respOK := True, respStatus := Some (tunnelStatus E s)\<rparr>" "s' = s"
    using assms(2,3) by (auto simp: dispatch_def statusReply_def tunnelHandler_def)
  show ?thesis
    using ok peerStatus_reports [of "enEngStats E (the (tlEng (svTunnel s))) (svWorld s)"]
    by (auto simp: resp zeroResponse_def tunnelStatus_def tunnel_ok_def Let_def list_ex_iff split: option.splits)
qed

text \<open>
  C9: an old session cannot tear down a newer one.  In every run below the wrap-around of the
  generation counter, an error received by a watcher whose done channel is not the one of the
  current session leaves the tunnel, the system and the channels alone; the watcher of the
  current session stops it.  No run closes a channel twice.
\<close>

theorem stale_watcher_harmless:
  assumes "serviceRun E move (initService w) s" "i < length (svWatchers s)" "genRoom s"
  shows "\<not> svPanic s \<and>
    (if tlDone (svTunnel s) \<noteq> Some (waDone (svWatchers s ! i))
     then svTunnel (watcherError E i err s) = svTunnel s \<and> svWorld (watcherError E i err s) = svWorld s \<and>
          svClosedChans (watcherError E i err s) = svClosedChans s
     else err \<noteq> None \<longrightarrow> \<not> tlRunning (svTunnel (watcherError E i err s)))"
proof -
  let ?wa = "svWatchers s ! i" and ?d = "dropWatcher i s"
  have inv: "service_inv s"
    using serviceRun_inv [OF assms(1)] by simp
  have mem: "?wa \<in> set (svWatchers s)"
    using assms(2) by simp
  have drop: "svTunnel ?d = svTunnel s" "svWorld ?d = svWorld s" "svClosedChans ?d = svClosedChans s"
    by (simp_all add: dropWatcher_def)
  have only: "tlRunning (svTunnel s) \<longrightarrow>
      waGen ?wa = tlGen (svTunnel s) \<longleftrightarrow> tlDone (svTunnel s) = Some (waDone ?wa)"
    using inv mem by (simp add: service_inv_def Let_def)
  have ok: "tunnel_ok (svTunnel s)" "\<not> svPanic s"
    using inv by (simp_all add: service_inv_def Let_def)
  show ?thesis
    using only ok stopLocked_ok [of "?d\<lparr>svLog := l\<rparr>" E for l] drop
    by (auto simp: watcherError_def Let_def split: option.splits)
qed

text \<open>
  C31: watchers do not leak.  In every such run, after a \<^verbatim>\<open>Disconnect\<close> every goroutine that is left
  has its done channel closed, so it can return; before it, every one but the current session's.
\<close>

theorem watchers_can_exit:
  assumes "serviceRun E move (initService w) s" "genRoom s" "s' = snd (Disconnect E s)"
  shows "(\<forall>wa\<in>set (svWatchers s). waDone wa \<in> set (svClosedChans s) \<or> tlDone (svTunnel s) = Some (waDone wa)) \<and>
    (\<forall>wa\<in>set (svWatchers s'). waDone wa \<in> set (svClosedChans s'))"
proof -
  have inv: "service_inv s"
    using serviceRun_inv [OF assms(1)] by simp
  have "service_inv s' \<and> \<not> tlRunning (svTunnel s')"
    using stopLocked_inv [OF inv, of E] assms(2,3) by (simp add: Disconnect_def genRoom_def)
  then show ?thesis
    using inv by (auto simp: service_inv_def tunnel_ok_def Let_def)
qed

end
