(* ===== verification/Wintunnel_Resources.thy ===== *)
theory Wintunnel_Resources
  imports Wintunnel
begin

text \<open>
  Resource accounting of the tunnel controller, \<^verbatim>\<open>src/wintunnel/tunnel.go\<close>: the documented effect of
  the environment's calls on adapters, sessions, sockets and engines, what bringing a session up
  and stopping it change of them, and that every interleaving of \<^verbatim>\<open>Connect\<close>, \<^verbatim>\<open>Disconnect\<close> and
  engine errors keeps the balance.
\<close>

section \<open>Resources\<close>

text \<open>
  What the system holds for the process: adapters, sessions, sockets and running engines.  The
  documented effect of every call of the environment on them: the driver calls change adapters
  and sessions as \<open>documented_handles\<close> says and nothing else; opening a socket adds a new one or
  fails without effect, closing it removes it; an engine counts from \<^verbatim>\<open>Run\<close> until \<^verbatim>\<open>Wait\<close> returns;
  no other call changes any of them.
\<close>

record 'e holdings =
  hoAdapters :: "uintptr set"
  hoSessions :: "uintptr set"
  hoSockets :: "UDPConn set"
  hoEngines :: "'e set"

definition driver_docs :: "'w tunSys \<Rightarrow> ('w \<Rightarrow> 'e holdings) \<Rightarrow> bool" where
  "driver_docs sys V \<longleftrightarrow>
     (\<forall>w. documented_handles sys (procs (fst (snd (load sys initGlobals w))))
        (\<lambda>w. hoAdapters (V w)) (\<lambda>w. hoSessions (V w))) \<and>
     (\<forall>a h w. V (snd (snd (snd (tsCall sys a (DGetAdapterLUID h) w)))) = V w) \<and>
     (let rest = (\<lambda>w. (hoSockets (V w), hoEngines (V w))) in
      (\<forall>a c w. rest (snd (snd (snd (tsCall sys a c w)))) = rest w) \<and>
      (\<forall>n f w. rest (snd (tsLoadLibraryEx sys n f w)) = rest w) \<and>
      (\<forall>w. rest (snd (tsNewTun sys w)) = rest w) \<and>
      (\<forall>o' w. rest (tsSetClosed sys o' w) = rest w) \<and>
      (\<forall>h w. rest (tsSetEvent sys h w) = rest w) \<and>
      (\<forall>o' w. rest (tsRunningWait sys o' w) = rest w))"

text \<open>A new socket on success, nothing on failure.\<close>

definition opensSocket :: "('w \<Rightarrow> 'e holdings) \<Rightarrow> 'w \<Rightarrow> (gerr + UDPConn) \<times> 'w \<Rightarrow> bool" where
  "opensSocket V w r \<longleftrightarrow>
     (case fst r of Inl _ \<Rightarrow> V (snd r) = V w
      | Inr c \<Rightarrow> c \<notin> hoSockets (V w) \<and> V (snd r) = (V w)\<lparr>hoSockets := insert c (hoSockets (V w))\<rparr>)"

definition net_docs :: "('e, 'w) env \<Rightarrow> ('w \<Rightarrow> 'e holdings) \<Rightarrow> bool" where
  "net_docs E V \<longleftrightarrow>
     (\<forall>port r w. opensSocket V w (enDialUDP E port r w)) \<and>
     (\<forall>port w. opensSocket V w (enListenUDP E port w)) \<and>
     (\<forall>c w. V (enConnClose E c w) = (V w)\<lparr>hoSockets := hoSockets (V w) - {c}\<rparr>) \<and>
     (\<forall>c n w. V (snd (enSetReadBuffer E c n w)) = V w) \<and>
     (\<forall>c n w. V (snd (enSetWriteBuffer E c n w)) = V w) \<and>
     (\<forall>h c f w. V (snd (enWSAIoctl E h c f w)) = V w)"

definition engine_docs :: "('e, 'w) env \<Rightarrow> ('w \<Rightarrow> 'e holdings) \<Rightarrow> bool" where
  "engine_docs E V \<longleftrightarrow>
     (\<forall>cfg d c w. V (snd (enEngNew E cfg d c w)) = V w) \<and>
     (\<forall>cfg d c w e. fst (enEngNew E cfg d c w) = Inr e \<longrightarrow> e \<notin> hoEngines (V w)) \<and>
     (\<forall>e w. V (enEngRun E e w) = (V w)\<lparr>hoEngines := insert e (hoEngines (V w))\<rparr>) \<and>
     (\<forall>e w. V (enEngClose E e w) = V w) \<and>
     (\<forall>e w. V (enEngWait E e w) = (V w)\<lparr>hoEngines := hoEngines (V w) - {e}\<rparr>)"

definition documented_env :: "('e, 'w) env \<Rightarrow> ('w \<Rightarrow> 'e holdings) \<Rightarrow> bool" where
  "documented_env E V \<longleftrightarrow>
     driver_docs (enTun E) V \<and> net_docs E V \<and> engine_docs E V \<and> api_keeps (enApi E) (enSys E) V"

text \<open>The resources of one session added to, and removed from, what is held.\<close>

definition addSession :: "TunDevice \<Rightarrow> UDPConn \<Rightarrow> 'e \<Rightarrow> 'e holdings \<Rightarrow> 'e holdings" where
  "addSession d c e H = \<lparr>hoAdapters = insert (fst (deviceHandles d)) (hoAdapters H),
     hoSessions = insert (snd (deviceHandles d)) (hoSessions H), hoSockets = insert c (hoSockets H),
     hoEngines = insert e (hoEngines H)\<rparr>"

definition freshSession :: "TunDevice \<Rightarrow> UDPConn \<Rightarrow> 'e \<Rightarrow> 'e holdings \<Rightarrow> bool" where
  "freshSession d c e H \<longleftrightarrow> fst (deviceHandles d) \<notin> hoAdapters H \<and> snd (deviceHandles d) \<notin> hoSessions H \<and>
     c \<notin> hoSockets H \<and> e \<notin> hoEngines H"

definition globals_ok :: "('e, 'w) env \<Rightarrow> tunGlobals \<Rightarrow> bool" where
  "globals_ok E g \<longleftrightarrow> g = initGlobals \<or> (\<exists>w. g = fst (snd (load (enTun E) initGlobals w)))"

lemma load_fst_snd: "fst (snd (load sys (fst (snd (load sys g w))) v)) = fst (snd (load sys g w))"
  using load_loaded [of sys g w] by (simp add: load_def [of sys "fst (snd (load sys g w))"])

lemma globals_ok_load:
  assumes "globals_ok E g"
  obtains w0 where "fst (snd (load (enTun E) g w)) = fst (snd (load (enTun E) initGlobals w0))"
proof (cases "g = initGlobals")
  case True
  then show thesis
    using that by blast
next
  case False
  then obtain w1 where "g = fst (snd (load (enTun E) initGlobals w1))"
    using assms by (auto simp: globals_ok_def)
  then show thesis
    using that load_fst_snd by metis
qed

lemma documented_env_handles:
  assumes "documented_env E V" "globals_ok E g"
  shows "documented_handles (enTun E) (procs (fst (snd (load (enTun E) g w))))
    (\<lambda>w. hoAdapters (V w)) (\<lambda>w. hoSessions (V w))"
proof -
  obtain w0 where eq: "fst (snd (load (enTun E) g w)) = fst (snd (load (enTun E) initGlobals w0))"
    using assms(2) by (rule globals_ok_load)
  show ?thesis
    unfolding eq
    by (rule assms(1) [unfolded documented_env_def driver_docs_def, THEN conjunct1, THEN conjunct1, rule_format])
qed

text \<open>The part of the holdings the driver binding never touches.\<close>

abbreviation restOf :: "('w \<Rightarrow> 'e holdings) \<Rightarrow> 'w \<Rightarrow> UDPConn set \<times> 'e set" where
  "restOf V w \<equiv> (hoSockets (V w), hoEngines (V w))"

lemma documented_env_rest:
  assumes "documented_env E V"
  shows "tsCall (enTun E) a c w = (r0, x, e, w') \<Longrightarrow> restOf V w' = restOf V w"
    "tsLoadLibraryEx (enTun E) n f w = (m, w') \<Longrightarrow> restOf V w' = restOf V w"
    "tsNewTun (enTun E) w = (k, w') \<Longrightarrow> restOf V w' = restOf V w"
    "restOf V (tsSetClosed (enTun E) o' w) = restOf V w"
    "restOf V (tsSetEvent (enTun E) h w) = restOf V w"
    "restOf V (tsRunningWait (enTun E) o' w) = restOf V w"
proof -
  note D = assms [unfolded documented_env_def driver_docs_def Let_def, THEN conjunct1, THEN conjunct2,
      THEN conjunct2]
  show "tsCall (enTun E) a c w = (r0, x, e, w') \<Longrightarrow> restOf V w' = restOf V w"
    using D [THEN conjunct1, rule_format, of a c w] by simp
  show "tsLoadLibraryEx (enTun E) n f w = (m, w') \<Longrightarrow> restOf V w' = restOf V w"
    using D [THEN conjunct2, THEN conjunct1, rule_format, of n f w] by simp
  show "tsNewTun (enTun E) w = (k, w') \<Longrightarrow> restOf V w' = restOf V w"
    using D [THEN conjunct2, THEN conjunct2, THEN conjunct1, rule_format, of w] by simp
  show "restOf V (tsSetClosed (enTun E) o' w) = restOf V w" "restOf V (tsSetEvent (enTun E) h w) = restOf V w"
    "restOf V (tsRunningWait (enTun E) o' w) = restOf V w"
    using D [THEN conjunct2, THEN conjunct2, THEN conjunct2] by simp_all
qed

lemma load_rest:
  assumes "documented_env E V" "load (enTun E) g w = (e, g', w')"
  shows "restOf V w' = restOf V w"
proof (cases "loadOnce g")
  case True
  then show ?thesis
    using assms(2) by (simp add: load_def)
next
  case False
  obtain r w1 where l: "tsLoadLibraryEx (enTun E) driverDLL safeSearchFlags w = (r, w1)"
    by fastforce
  then have "w' = w1"
    using assms(2) False by (cases r) (auto simp: load_def Let_def)
  then show ?thesis
    using documented_env_rest(2) [OF assms(1) l] by simp
qed

lemma NewTunDevice_rest:
  assumes "documented_env E V" "NewTunDevice (enTun E) mtu name g w = (r, g', w')"
  shows "restOf V w' = restOf V w \<and> g' = fst (snd (load (enTun E) g w))"
proof -
  obtain e g1 w1 where l: "load (enTun E) g w = (e, g1, w1)"
    by (metis prod.exhaust)
  show ?thesis
    using assms(2) l load_rest [OF assms(1) l]
    unfolding NewTunDevice_def CreateTUN_def CreateAdapter_def StartSession_def adapterClose_def
      ReadWaitEvent_def Let_def
    by (auto split: option.splits sum.splits prod.splits if_splits dest!: documented_env_rest(1,3) [OF assms(1)])
qed

lemma deviceClose_rest:
  assumes "documented_env E V"
  shows "restOf V (snd (deviceClose (enTun E) p d w)) = restOf V w"
proof -
  let ?t = "tdDev d"
  let ?w = "tsRunningWait (enTun E) (ntObj ?t) (tsSetEvent (enTun E) (ntReadWait ?t) (tsSetClosed (enTun E) (ntObj ?t) w))"
  have s: "restOf V (snd (sessionEnd (enTun E) p x v)) = restOf V v" for x v
    by (auto simp: sessionEnd_def split: prod.splits dest: documented_env_rest(1) [OF assms])
  have a: "restOf V (snd (adapterClose (enTun E) p x v)) = restOf V v" for x v
    by (auto simp: adapterClose_def split: prod.splits dest: documented_env_rest(1) [OF assms])
  have "snd (deviceClose (enTun E) p d w) = (if ntCloseOnce ?t then w
      else snd (adapterClose (enTun E) p (ntAdapter ?t) (snd (sessionEnd (enTun E) p (ntSession ?t) ?w))))"
    by (simp add: deviceClose_def tunClose_def Let_def split_def)
  then show ?thesis
    using a [of "ntAdapter ?t"] s [of "ntSession ?t" ?w] documented_env_rest(4-) [OF assms] by auto
qed

lemma deviceClose_holdings:
  assumes "documented_env E V" "documented_handles (enTun E) p (\<lambda>w. hoAdapters (V w)) (\<lambda>w. hoSessions (V w))"
    and "deviceOpen d"
  shows "V (snd (deviceClose (enTun E) p d w)) =
    (V w)\<lparr>hoAdapters := hoAdapters (V w) - {fst (deviceHandles d)},
          hoSessions := hoSessions (V w) - {snd (deviceHandles d)}\<rparr>"
proof -
  obtain d' w' where c: "deviceClose (enTun E) p d w = (d', w')"
    by fastforce
  show ?thesis
    using deviceClose_handles [OF assms(2) c assms(3)] deviceClose_rest [OF assms(1), of p d w] c
    by (cases "V w'"; cases "V w") simp
qed

lemma deviceLUID_holdings:
  assumes "documented_env E V"
  shows "V (snd (deviceLUID (enTun E) p d w)) = V w"
proof -
  have "\<forall>a h w. V (snd (snd (snd (tsCall (enTun E) a (DGetAdapterLUID h) w)))) = V w"
    by (rule assms [unfolded documented_env_def driver_docs_def, THEN conjunct1, THEN conjunct2, THEN conjunct1])
  then show ?thesis
    by (simp add: deviceLUID_def tunLUID_def adapterLUID_def Let_def split_def)
qed

lemma documented_env_net:
  assumes "documented_env E V"
  shows "opensSocket V w (enDialUDP E port r w)" "opensSocket V w (enListenUDP E port w)"
    "V (enConnClose E c w) = (V w)\<lparr>hoSockets := hoSockets (V w) - {c}\<rparr>"
    "V (snd (enSetReadBuffer E c n w)) = V w" "V (snd (enSetWriteBuffer E c n w)) = V w"
    "V (snd (enWSAIoctl E h code flag w)) = V w"
  using assms unfolding documented_env_def net_docs_def by blast+

lemma documented_env_engine:
  assumes "documented_env E V"
  shows "V (snd (enEngNew E cfg d c w)) = V w"
    "fst (enEngNew E cfg d c w) = Inr e \<Longrightarrow> e \<notin> hoEngines (V w)"
    "V (enEngRun E e w) = (V w)\<lparr>hoEngines := insert e (hoEngines (V w))\<rparr>"
    "V (enEngClose E e w) = V w"
    "V (enEngWait E e w) = (V w)\<lparr>hoEngines := hoEngines (V w) - {e}\<rparr>"
    "api_keeps (enApi E) (enSys E) V"
  using assms by (simp_all add: documented_env_def engine_docs_def)

lemma bindUDP_holdings:
  assumes "documented_env E V"
  shows "opensSocket V w (fst (bindUDP E cfg w), snd (snd (bindUDP E cfg w)))"
proof -
  have listen: "opensSocket V w (enListenUDP E (cfgListenPort cfg) w)" for w
    using documented_env_net(2) [OF assms] .
  have retry: "opensSocket V w (enListenUDP E (cfgListenPort cfg) w')"
    if "enDialUDP E (cfgListenPort cfg) remote w = (Inl err, w')" for remote err w'
    using documented_env_net(1) [OF assms, of w "cfgListenPort cfg" remote] that listen [of w']
    by (simp add: opensSocket_def split: sum.splits)
  have dial: "opensSocket V w (Inr conn, w')"
    if "enDialUDP E (cfgListenPort cfg) remote w = (Inr conn, w')" for remote conn w'
    using documented_env_net(1) [OF assms, of w "cfgListenPort cfg" remote] that by simp
  show ?thesis
    using listen [of w]
    by (auto simp: bindUDP_def Let_def split: list.splits if_splits sum.splits prod.splits dest: retry dial)
qed

lemma tuneUDPSocket_holdings:
  assumes "documented_env E V"
  shows "V (snd (tuneUDPSocket E c w)) = V w"
  by (auto simp: tuneUDPSocket_def Let_def split_def documented_env_net(4-6) [OF assms]
      split: option.splits sum.splits)

lemma stopWorld_holdings:
  assumes "documented_env E V" "documented_handles (enTun E) p (\<lambda>w. hoAdapters (V w)) (\<lambda>w. hoSessions (V w))"
    and "deviceOpen d" "V w = addSession d c e H" "freshSession d c e H"
  shows "V (stopWorld E p e d c cl w) = H"
  using assms(4,5)
  by (cases H)
     (auto simp: stopWorld_def documented_env_engine(4,5) [OF assms(1)] documented_env_net(3) [OF assms(1)]
      deviceClose_holdings [OF assms(1-3)] runCleanup_keeps [OF documented_env_engine(6) [OF assms(1)]]
      addSession_def freshSession_def)

lemma globals_ok_loaded:
  assumes "globals_ok E g"
  shows "globals_ok E (fst (snd (load (enTun E) g w)))"
  using globals_ok_load [OF assms, of w] by (metis globals_ok_def)

lemma NewTunDevice_holdings:
  assumes "documented_env E V" "globals_ok E g" "NewTunDevice (enTun E) mtu name g w = (r, g', w')"
  shows "globals_ok E g' \<and>
    (case r of Inl _ \<Rightarrow> V w' = V w
     | Inr d \<Rightarrow> documented_handles (enTun E) (procs g') (\<lambda>w. hoAdapters (V w)) (\<lambda>w. hoSessions (V w)) \<and>
         deviceOpen d \<and> fst (deviceHandles d) \<notin> hoAdapters (V w) \<and> snd (deviceHandles d) \<notin> hoSessions (V w) \<and>
         V w' = (V w)\<lparr>hoAdapters := insert (fst (deviceHandles d)) (hoAdapters (V w)),
           hoSessions := insert (snd (deviceHandles d)) (hoSessions (V w))\<rparr>)"
proof -
  note docs = documented_env_handles [OF assms(1,2), of w]
  note N = NewTunDevice_handles [OF docs assms(3)] NewTunDevice_rest [OF assms(1,3)]
  show ?thesis
    using N docs globals_ok_loaded [OF assms(2), of w]
    by (cases "V w'"; cases "V w"; cases r) auto
qed

text \<open>Bringing a session up, from a bound socket on and from the start.\<close>

definition upHoldings ::
  "('e, 'w) env \<Rightarrow> ('w \<Rightarrow> 'e holdings) \<Rightarrow> string \<Rightarrow> ('e, 'w) service \<Rightarrow> gerr option \<times> ('e, 'w) service \<Rightarrow> bool" where
  "upHoldings E V name s r \<longleftrightarrow>
     (let s' = snd r in
      globals_ok E (svGlobals s') \<and>
      (case fst r of
         Some _ \<Rightarrow> V (svWorld s') = V (svWorld s)
       | None \<Rightarrow> \<exists>e d c cl. svTunnel s' = startedTunnel name e d c cl (svNextChan s) (svTunnel s) \<and>
           documented_handles (enTun E) (procs (svGlobals s')) (\<lambda>w. hoAdapters (V w)) (\<lambda>w. hoSessions (V w)) \<and>
           deviceOpen d \<and> freshSession d c e (V (svWorld s)) \<and>
           V (svWorld s') = addSession d c e (V (svWorld s))))"

lemma bringUp_bound_holdings:
  assumes "documented_env E V" "globals_ok E (svGlobals s)" "enLoadConfigString E ct = Inr cfg"
    and nt: "NewTunDevice (enTun E) (enDefaultTunMTU E) ''veil0'' (svGlobals s) (svWorld s) = (Inr d, g, w1)"
    and lu: "deviceLUID (enTun E) (procs g) d w1 = (luid, w2)"
    and bu: "bindUDP E cfg w2 = (Inr conn, ls, w3)"
    and close: "\<And>w. V w = V w2 \<Longrightarrow> V (snd (deviceClose (enTun E) (procs g) d w)) = V (svWorld s)"
  shows "upHoldings E V name s (bringUp E ct name s)"
proof -
  note N = NewTunDevice_holdings [OF assms(1,2) nt, simplified]
  note B = bindUDP_holdings [OF assms(1), of w2 cfg, unfolded bu opensSocket_def, simplified]
  note api = documented_env_engine(6) [OF assms(1)]
  have V2: "V w2 = V w1"
    using deviceLUID_holdings [OF assms(1), of "procs g" d w1] lu by simp
  obtain ls2 w4 where tu: "tuneUDPSocket E conn w3 = (ls2, w4)"
    by fastforce
  have V4: "V w4 = V w3"
    using tuneUDPSocket_holdings [OF assms(1), of conn w3] tu by simp
  have unbind: "V (enConnClose E conn w) = V w2" if "V w = V w3" for w
    using that B by (cases "V w2") (simp add: documented_env_net(3) [OF assms(1)])
  obtain rc ls3 w5 where cr: "ConfigureRouting (enArch E) (enApi E) (enSys E) (enLookupIP E)
      (enDefaultTunMTU E) luid cfg w4 = (rc, ls3, w5)"
    by (metis prod.exhaust)
  have V5: "V w5 = V w3"
    using ConfigureRouting_keeps [OF api cr] V4 by simp
  obtain re w6 where en: "enEngNew E cfg d conn w5 = (re, w6)"
    by fastforce
  have V6: "V w6 = V w3"
    using documented_env_engine(1) [OF assms(1), of cfg d conn w5] en V5 by simp
  then have V7: "V (runCleanup (enArch E) (enApi E) (enSys E) cl w6) = V w3" for cl
    by (simp add: runCleanup_keeps [OF api])
  have up: "V (enEngRun E e w6) = addSession d conn e (V (svWorld s)) \<and> freshSession d conn e (V (svWorld s))"
    if "re = Inr e" for e
    using documented_env_engine(2) [OF assms(1), of cfg d conn w5 e] that en N B V2 V5 V6
    by (cases "V (svWorld s)")
       (simp add: addSession_def freshSession_def documented_env_engine(3) [OF assms(1)])
  note run = bringUp_def assms(3) nt lu bu tu cr en upHoldings_def Let_def
  consider err where "rc = Inl err" | cl err where "rc = Inr cl" "re = Inl err" | cl e where "rc = Inr cl" "re = Inr e"
    by (metis sumE)
  then show ?thesis
  proof cases
    case 1
    then show ?thesis
      using N close [OF unbind, OF V5] by (simp add: run)
  next
    case 2
    then show ?thesis
      using N close [OF unbind, OF V7] by (simp add: run)
  next
    case 3
    then show ?thesis
      using N up by (simp add: run startedTunnel_def) blast
  qed
qed

lemma bringUp_holdings:
  assumes "documented_env E V" "globals_ok E (svGlobals s)"
  shows "upHoldings E V name s (bringUp E ct name s)"
proof (cases "enLoadConfigString E ct")
  case (Inl err)
  then show ?thesis
    using assms(2) by (simp add: bringUp_def upHoldings_def)
next
  case (Inr cfg)
  note cfg = this
  obtain rd g w1 where nt: "NewTunDevice (enTun E) (enDefaultTunMTU E) ''veil0'' (svGlobals s) (svWorld s) = (rd, g, w1)"
    by (metis prod.exhaust)
  note N = NewTunDevice_holdings [OF assms nt]
  show ?thesis
  proof (cases rd)
    case (Inl err)
    then show ?thesis
      using N by (simp add: bringUp_def upHoldings_def cfg nt)
  next
    case (Inr d)
    note dev = this
    obtain luid w2 where lu: "deviceLUID (enTun E) (procs g) d w1 = (luid, w2)"
      by fastforce
    have close: "V (snd (deviceClose (enTun E) (procs g) d w)) = V (svWorld s)" if "V w = V w2" for w
      using that deviceLUID_holdings [OF assms(1), of "procs g" d w1] lu N dev
      by (cases "V (svWorld s)") (simp add: deviceClose_holdings [OF assms(1)])
    obtain rb ls w3 where bu: "bindUDP E cfg w2 = (rb, ls, w3)"
      by (metis prod.exhaust)
    show ?thesis
    proof (cases rb)
      case (Inl err)
      then show ?thesis
        using N dev close [of w3] bindUDP_holdings [OF assms(1), of w2 cfg, unfolded bu opensSocket_def]
        by (simp add: bringUp_def upHoldings_def cfg nt lu bu)
    next
      case (Inr conn)
      then show ?thesis
        using bringUp_bound_holdings [OF assms cfg nt [unfolded dev] lu bu [unfolded Inr] close] by blast
    qed
  qed
qed

text \<open>
  Between two calls the system holds what it held at the start, and in addition exactly the
  resources of the running session, if any.
\<close>

definition balanced :: "('e, 'w) env \<Rightarrow> ('w \<Rightarrow> 'e holdings) \<Rightarrow> 'e holdings \<Rightarrow> ('e, 'w) service \<Rightarrow> bool" where
  "balanced E V H s \<longleftrightarrow> globals_ok E (svGlobals s) \<and>
     (case (tlTun (svTunnel s), tlConn (svTunnel s), tlEng (svTunnel s)) of
        (Some d, Some c, Some e) \<Rightarrow>
          documented_handles (enTun E) (procs (svGlobals s)) (\<lambda>w. hoAdapters (V w)) (\<lambda>w. hoSessions (V w)) \<and>
          deviceOpen d \<and> freshSession d c e H \<and> V (svWorld s) = addSession d c e H
      | _ \<Rightarrow> V (svWorld s) = H)"

lemma balanced_cong:
  assumes "svGlobals s' = svGlobals s" "svWorld s' = svWorld s" "tlTun (svTunnel s') = tlTun (svTunnel s)"
    "tlConn (svTunnel s') = tlConn (svTunnel s)" "tlEng (svTunnel s') = tlEng (svTunnel s)"
  shows "balanced E V H s' = balanced E V H s"
  unfolding balanced_def assms ..

lemma stopLocked_balanced:
  assumes "documented_env E V" "service_inv s" "balanced E V H s"
  shows "balanced E V H (stopLocked E s)"
proof (cases "tlRunning (svTunnel s)")
  case False
  then show ?thesis
    using assms(3) by (simp add: stopLocked_idle)
next
  case True
  have "tunnel_ok (svTunnel s)"
    using assms(2) by (simp add: service_inv_def Let_def)
  then obtain e d c cl ch where f: "tlEng (svTunnel s) = Some e" "tlTun (svTunnel s) = Some d"
      "tlConn (svTunnel s) = Some c" "tlCleanup (svTunnel s) = Some cl" "tlDone (svTunnel s) = Some ch"
    using True by (rule tunnel_okE)
  have "ch \<notin> set (svClosedChans s)"
    using assms(2) f(5) by (auto simp: service_inv_def Let_def)
  note stop = stopLocked_running [OF True f this, of E]
  show ?thesis
    using assms(3) f stopWorld_holdings [OF assms(1), of "procs (svGlobals s)" d "svWorld s" c e H cl]
    by (simp add: stop balanced_def stoppedTunnel_def)
qed

lemma bringUp_balanced:
  assumes "documented_env E V" "tunnel_ok (svTunnel s)" "\<not> tlRunning (svTunnel s)" "balanced E V H s"
  shows "balanced E V H (snd (bringUp E ct name s))"
proof -
  obtain r s' where b: "bringUp E ct name s = (r, s')"
    by fastforce
  have "V (svWorld s) = H" "globals_ok E (svGlobals s)"
    using assms(2-) by (auto simp: balanced_def tunnel_ok_def)
  then show ?thesis
    using bringUp_holdings [OF assms(1), of s name ct] bringUp_cases [OF b] assms(2,3) b
    by (cases r) (auto simp: upHoldings_def Let_def balanced_def tunnel_ok_def startedTunnel_def)
qed

lemma Logs_rest: "svGlobals (snd (Logs since s)) = svGlobals s \<and> svWorld (snd (Logs since s)) = svWorld s"
  by (simp add: Logs_def split_def Let_def)

lemma serviceStep_balanced:
  assumes "documented_env E V" "\<And>w w'. move w w' \<Longrightarrow> V w' = V w"
    and "serviceStep E move s s'" "service_inv s" "balanced E V H s" "genRoom s"
  shows "balanced E V H s'"
  using assms(3-)
proof (induction rule: serviceStep.induct)
  case (connect s configText name)
  have "service_inv (stopLocked E s) \<and> \<not> tlRunning (svTunnel (stopLocked E s))"
    using stopLocked_inv [OF connect(1)] connect(3) by (simp add: genRoom_def)
  moreover have "(if tlRunning (svTunnel s) then stopLocked E s else s) = stopLocked E s"
    by (simp add: stopLocked_idle)
  ultimately show ?case
    using bringUp_balanced [OF assms(1)] stopLocked_balanced [OF assms(1) connect(1,2)]
    by (simp add: Connect_def service_inv_def Let_def)
next
  case (disconnect s)
  then show ?case
    using stopLocked_balanced [OF assms(1)] by (simp add: Disconnect_def)
next
  case (logs s since)
  then show ?case
    using balanced_cong [of "snd (Logs since s)" s] by (simp add: Logs_tunnel(1) Logs_rest)
next
  case (watcherError i s err)
  have "service_inv (dropWatcher i s\<lparr>svLog := l\<rparr>)" for l
    using dropWatcher_inv [OF watcherError(2), of i] by (simp add: service_inv_def)
  moreover have "balanced E V H (dropWatcher i s\<lparr>svLog := l\<rparr>)" "balanced E V H (dropWatcher i s)" for l
    using watcherError(3) balanced_cong [of "dropWatcher i s\<lparr>svLog := l\<rparr>" s] balanced_cong [of "dropWatcher i s" s]
    by (simp_all add: dropWatcher_def)
  ultimately show ?case
    using stopLocked_balanced [OF assms(1)] by (simp add: watcherError_def Let_def split: option.splits)
next
  case (watcherDone i s)
  then show ?case
    using balanced_cong [of "dropWatcher i s" s] by (simp add: dropWatcher_def)
next
  case (elsewhere s w)
  then show ?case
    using assms(2) [of "svWorld s" w] by (simp add: balanced_def split: option.splits)
qed

lemma serviceRun_balanced:
  assumes "documented_env E V" "\<And>w w'. move w w' \<Longrightarrow> V w' = V w"
    and "serviceRun E move (initService w) s"
  shows "service_inv s \<and> balanced E V (V w) s"
  using assms(3) unfolding serviceRun_def
proof (induction rule: rtranclp_induct)
  case base
  then show ?case
    by (simp add: balanced_def initService_def zeroTunnel_def globals_ok_def service_inv_init [unfolded initService_def zeroTunnel_def])
next
  case (step s s')
  then show ?case
    using serviceStep_inv serviceStep_balanced [OF assms(1,2)] by blast
qed

text \<open>
  C4: nothing leaks.  With the documented effects of the system's calls, after any run of method
  calls, engine errors and watcher exits, in any order, the process holds exactly the adapters,
  sessions, sockets and engines it held at the start while no session is up, however the failed
  or finished sessions ended; and while one is up, exactly that session's in addition, none of
  which was held before.
\<close>

theorem resource_balance:
  assumes "documented_env E V" "\<And>w w'. move w w' \<Longrightarrow> V w' = V w"
    and "serviceRun E move (initService w) s"
  shows "case (tlTun (svTunnel s), tlConn (svTunnel s), tlEng (svTunnel s)) of
      (Some d, Some c, Some e) \<Rightarrow> tlRunning (svTunnel s) \<and> freshSession d c e (V w) \<and>
        V (svWorld s) = addSession d c e (V w)
    | _ \<Rightarrow> \<not> tlRunning (svTunnel s) \<and> V (svWorld s) = V w"
  using serviceRun_balanced [OF assms]
  by (auto simp: balanced_def service_inv_def tunnel_ok_def Let_def split: if_splits option.splits)

end
