(* ===== verification/Wintunnel_Host.thy ===== *)
theory Wintunnel_Host
  imports Wintunnel_Resources
begin

text \<open>
  A reference host: the memory driver, the memory tables of the IP helper, sockets and engines in
  one state.  It instantiates the environment of the tunnel controller in the concrete instances
  of its properties; no property depends on it.
\<close>

record hostWorld =
  hwTun :: tunWorld
  hwNet :: memWorld
  hwSockets :: "nat list"
  hwEngines :: "nat list"

definition netCall :: "(memWorld \<Rightarrow> u32 \<times> memWorld) \<Rightarrow> hostWorld \<Rightarrow> u32 \<times> hostWorld" where
  "netCall f w = (let (e, n) = f (hwNet w) in (e, w\<lparr>hwNet := n\<rparr>))"

definition netHandle :: "(memWorld \<Rightarrow> u32 \<times> Handle \<times> memWorld) \<Rightarrow> hostWorld \<Rightarrow> u32 \<times> Handle \<times> hostWorld" where
  "netHandle f w = (let (e, h, n) = f (hwNet w) in (e, h, w\<lparr>hwNet := n\<rparr>))"

definition hostApi :: "hostWorld iphlpapi" where
  "hostApi =
     \<lparr>procInitializeIpInterfaceEntry = procInitializeIpInterfaceEntry memApi,
      procGetIpInterfaceTable = (\<lambda>fam w. procGetIpInterfaceTable memApi fam (hwNet w)),
      procGetIpInterfaceEntry = (\<lambda>r w. procGetIpInterfaceEntry memApi r (hwNet w)),
      procSetIpInterfaceEntry = (\<lambda>r. netCall (procSetIpInterfaceEntry memApi r)),
      procConvertInterfaceLuidToGuid = (\<lambda>l w. procConvertInterfaceLuidToGuid memApi l (hwNet w)),
      procConvertInterfaceGuidToLuid = (\<lambda>g w. procConvertInterfaceGuidToLuid memApi g (hwNet w)),
      procConvertInterfaceIndexToLuid = (\<lambda>i w. procConvertInterfaceIndexToLuid memApi i (hwNet w)),
      procGetUnicastIpAddressTable = (\<lambda>fam w. procGetUnicastIpAddressTable memApi fam (hwNet w)),
      procInitializeUnicastIpAddressEntry = procInitializeUnicastIpAddressEntry memApi,
      procGetUnicastIpAddressEntry = (\<lambda>r w. procGetUnicastIpAddressEntry memApi r (hwNet w)),
      procSetUnicastIpAddressEntry = (\<lambda>r. netCall (procSetUnicastIpAddressEntry memApi r)),
      procCreateUnicastIpAddressEntry = (\<lambda>r. netCall (procCreateUnicastIpAddressEntry memApi r)),
      procDeleteUnicastIpAddressEntry = (\<lambda>r. netCall (procDeleteUnicastIpAddressEntry memApi r)),
      procGetAnycastIpAddressTable = (\<lambda>fam w. procGetAnycastIpAddressTable memApi fam (hwNet w)),
      procGetAnycastIpAddressEntry = (\<lambda>r w. procGetAnycastIpAddressEntry memApi r (hwNet w)),
      procCreateAnycastIpAddressEntry = (\<lambda>r. netCall (procCreateAnycastIpAddressEntry memApi r)),
      procDeleteAnycastIpAddressEntry = (\<lambda>r. netCall (procDeleteAnycastIpAddressEntry memApi r)),
      procGetIpForwardTable2 = (\<lambda>fam w. procGetIpForwardTable2 memApi fam (hwNet w)),
      procInitializeIpForwardEntry = procInitializeIpForwardEntry memApi,
      procGetIpForwardEntry2 = (\<lambda>r w. procGetIpForwardEntry2 memApi r (hwNet w)),
      procSetIpForwardEntry2 = (\<lambda>r. netCall (procSetIpForwardEntry2 memApi r)),
      procCreateIpForwardEntry2 = (\<lambda>r. netCall (procCreateIpForwardEntry2 memApi r)),
      procDeleteIpForwardEntry2 = (\<lambda>r. netCall (procDeleteIpForwardEntry2 memApi r)),
      procNotifyIpInterfaceChange = (\<lambda>fam i. netHandle (procNotifyIpInterfaceChange memApi fam i)),
      procNotifyUnicastIpAddressChange = (\<lambda>fam i. netHandle (procNotifyUnicastIpAddressChange memApi fam i)),
      procNotifyRouteChange2 = (\<lambda>fam i. netHandle (procNotifyRouteChange2 memApi fam i)),
      procCancelMibChangeNotify2 = (\<lambda>h. netCall (procCancelMibChangeNotify2 memApi h)),
      findSetInterfaceDnsSettings = None,
      procSetInterfaceDnsSettings = (\<lambda>g s. netCall (procSetInterfaceDnsSettings memApi g s))\<rparr>"

definition tunPart :: "(tunWorld \<Rightarrow> tunWorld) \<Rightarrow> hostWorld \<Rightarrow> hostWorld" where
  "tunPart f w = w\<lparr>hwTun := f (hwTun w)\<rparr>"

definition tunRet :: "(tunWorld \<Rightarrow> 'r \<times> tunWorld) \<Rightarrow> hostWorld \<Rightarrow> 'r \<times> hostWorld" where
  "tunRet f w = (let (r, t) = f (hwTun w) in (r, w\<lparr>hwTun := t\<rparr>))"

definition hostTun :: "hostWorld tunSys" where
  "hostTun =
     \<lparr>tsLoadLibraryEx = (\<lambda>n f. tunRet (tsLoadLibraryEx memTun n f)), tsGetProcAddress = tsGetProcAddress memTun,
      tsUTF16PtrFromString = tsUTF16PtrFromString memTun,
      tsCall = (\<lambda>a c w. let (r, x, e, t) = tsCall memTun a c (hwTun w) in (r, x, e, w\<lparr>hwTun := t\<rparr>)),
      tsRead = (\<lambda>q n w. tsRead memTun q n (hwTun w)), tsWrite = (\<lambda>q d. tunPart (tsWrite memTun q d)),
      tsWaitForSingleObject = (\<lambda>h. tunPart (tsWaitForSingleObject memTun h)),
      tsSetEvent = (\<lambda>h. tunPart (tsSetEvent memTun h)), tsNow = tunRet (tsNow memTun),
      tsGosched = tunPart (tsGosched memTun), tsNumCPU = 1, tsNewTun = tunRet (tsNewTun memTun),
      tsClosed = (\<lambda>o' w. tsClosed memTun o' (hwTun w)), tsSetClosed = (\<lambda>o'. tunPart (tsSetClosed memTun o')),
      tsRunningAdd = (\<lambda>o' k. tunPart (tsRunningAdd memTun o' k)),
      tsRunningWait = (\<lambda>o'. tunPart (tsRunningWait memTun o'))\<rparr>"

text \<open>Sockets and engines get numbers not in use; a connected socket is refused towards port 0.\<close>

definition freshNat :: "nat list \<Rightarrow> nat" where
  "freshNat xs = Suc (sum_list xs)"

lemma freshNat_fresh: "freshNat xs \<notin> set xs"
proof
  assume "freshNat xs \<in> set xs"
  then have "Suc (sum_list xs) \<le> sum_list xs"
    unfolding freshNat_def by (intro member_le_sum_list) simp_all
  then show False
    by simp
qed

definition openSocket :: "hostWorld \<Rightarrow> (gerr + nat) \<times> hostWorld" where
  "openSocket w = (let c = freshNat (hwSockets w) in (Inr c, w\<lparr>hwSockets := c # hwSockets w\<rparr>))"

definition hostEnv :: "(nat, hostWorld) env" where
  "hostEnv =
     \<lparr>enTun = hostTun, enApi = hostApi, enSys = plainSys, enArch = Amd64, enLookupIP = demoLookup,
      enDefaultTunMTU = 1420,
      enLoadConfigString = (\<lambda>s. if s = ''full'' then Inr fullTunnel else Inl (ErrText ''bad config'')),
      enResolveUDPAddr = (\<lambda>s. Inr (Addr4 203 0 113 7, 51820)),
      enDialUDP = (\<lambda>port r w. if snd r = 0 then (Inl (Errno 10049), w) else openSocket w),
      enListenUDP = (\<lambda>port w. openSocket w),
      enConnClose = (\<lambda>c w. w\<lparr>hwSockets := removeAll c (hwSockets w)\<rparr>),
      enSetReadBuffer = (\<lambda>c n w. (None, w)), enSetWriteBuffer = (\<lambda>c n w. (None, w)),
      enSyscallConn = (\<lambda>c w. None), enRawControl = (\<lambda>c w. Inr 1), enWSAIoctl = (\<lambda>h c f w. (None, w)),
      enEngNew = (\<lambda>cfg d c w. (Inr (freshNat (hwEngines w)), w)),
      enEngRun = (\<lambda>e w. w\<lparr>hwEngines := e # hwEngines w\<rparr>), enEngClose = (\<lambda>e w. w),
      enEngWait = (\<lambda>e w. w\<lparr>hwEngines := removeAll e (hwEngines w)\<rparr>), enEngStats = (\<lambda>e w. [])\<rparr>"

definition hostView :: "hostWorld \<Rightarrow> nat holdings" where
  "hostView w = \<lparr>hoAdapters = set (twAdapters (hwTun w)), hoSessions = set (twSessions (hwTun w)),
     hoSockets = set (hwSockets w), hoEngines = set (hwEngines w)\<rparr>"

definition host0 :: hostWorld where
  "host0 = \<lparr>hwTun = emptyTun, hwNet = homeWorld, hwSockets = [], hwEngines = []\<rparr>"

section \<open>The host has the documented behaviour\<close>

lemma hostTun_handles:
  "documented_handles hostTun p (\<lambda>w. hoAdapters (hostView w)) (\<lambda>w. hoSessions (hostView w))"
  unfolding documented_handles_def
  by (intro conjI allI impI)
     (auto simp: hostTun_def hostView_def tunRet_def tunPart_def memTun_def Let_def split: if_splits prod.splits
       dest: freshHandle_fresh)

lemma hostTun_docs: "driver_docs hostTun hostView"
  unfolding driver_docs_def
  by (simp add: hostTun_handles)
     (simp add: hostTun_def hostView_def tunRet_def tunPart_def memTun_def split_def Let_def)

lemma openSocket_opens: "opensSocket hostView w (openSocket w)"
  by (simp add: opensSocket_def openSocket_def hostView_def Let_def freshNat_fresh)

lemma hostEnv_docs: "documented_env hostEnv hostView"
proof -
  have "net_docs hostEnv hostView"
    unfolding net_docs_def by (auto simp: hostEnv_def openSocket_opens hostView_def) (simp add: opensSocket_def)
  moreover have "engine_docs hostEnv hostView"
    unfolding engine_docs_def by (auto simp: hostEnv_def hostView_def freshNat_fresh)
  moreover have "api_keeps hostApi plainSys hostView"
    by (simp add: api_keeps_def settings_keep_def hostApi_def plainSys_def netCall_def hostView_def split_def Let_def)
  ultimately show ?thesis
    using hostTun_docs by (simp add: documented_env_def hostEnv_def)
qed

section \<open>A session on the host\<close>

definition upService :: "(nat, hostWorld) service" where
  "upService = snd (Connect hostEnv ''full'' ''home'' (initService host0))"

lemma upService_state:
  "tlRunning (svTunnel upService) \<and> tlGen (svTunnel upService) = 1 \<and> tlDone (svTunnel upService) = Some 0 \<and>
   map waDone (svWatchers upService) = [0] \<and> map waGen (svWatchers upService) = [1]"
  unfolding upService_def by code_simp

lemma upService_run: "serviceRun hostEnv (=) (initService host0) upService"
  unfolding serviceRun_def upService_def
  by (intro r_into_rtranclp conjI serviceStep.connect)
     (simp add: genRoom_def initService_def zeroTunnel_def)

lemma upService_genRoom: "genRoom upService"
  using upService_state by (simp add: genRoom_def)

lemma upService_watcher: "svWatchers upService ! 0 = hd (svWatchers upService)"
    "length (svWatchers upService) = 1" "waDone (hd (svWatchers upService)) = 0"
  using upService_state by (cases "svWatchers upService"; auto)+

theorem service_dispatch_witness:
  "tunnelView (snd (dispatch (\<lambda>e. []) (tunnelHandler hostEnv (\<lambda>t. Inl (ErrText [])) (\<lambda>c. Inr []))
     (zeroRequest\<lparr>reqCmd := CmdDisconnect\<rparr>) (initService host0))) = None"
  using service_dispatch [of "initService host0" "\<lambda>e. []" hostEnv "\<lambda>t. Inl (ErrText [])" "\<lambda>c. Inr []"
      "zeroRequest\<lparr>reqCmd := CmdDisconnect\<rparr>", OF _ prod.collapse [symmetric]]
  by (simp add: initService_def zeroTunnel_def tunnel_ok_def CmdDisconnect_def CmdConnect_def)

theorem status_exact_witness:
  "\<exists>resp st. dispatch (\<lambda>e. []) (tunnelHandler hostEnv (\<lambda>t. Inl (ErrText [])) (\<lambda>c. Inr []))
     (zeroRequest\<lparr>reqCmd := CmdStatus\<rparr>) upService = (resp, upService) \<and> respStatus resp = Some st \<and>
     stName st = tlName (svTunnel upService) \<and> stState st = StateConnecting"
proof -
  let ?H = "tunnelHandler hostEnv (\<lambda>t. Inl (ErrText [])) (\<lambda>c. Inr [])" and ?req = "zeroRequest\<lparr>reqCmd := CmdStatus\<rparr>"
  obtain resp s' where run: "dispatch (\<lambda>e. []) ?H ?req upService = (resp, s')"
    by fastforce
  obtain eng where eng: "tlEng (svTunnel upService) = Some eng"
    using upService_state serviceRun_inv [OF upService_run service_inv_init] by (auto simp: service_inv_def Let_def tunnel_ok_def)
  have "enEngStats hostEnv eng w = []" for w
    by (simp add: hostEnv_def)
  then show ?thesis
    using status_exact [OF upService_run _ run] eng run by auto
qed

theorem stale_watcher_harmless_witness:
  "\<not> tlRunning (svTunnel (watcherError hostEnv 0 (Some (Errno 995)) upService))"
  using stale_watcher_harmless [OF upService_run, of 0 "Some (Errno 995)"] upService_state upService_genRoom
    upService_watcher by simp

theorem watchers_can_exit_witness:
  "svWatchers (snd (Disconnect hostEnv upService)) \<noteq> [] \<and>
   waDone ` set (svWatchers (snd (Disconnect hostEnv upService))) \<subseteq>
     set (svClosedChans (snd (Disconnect hostEnv upService)))"
proof -
  have "svWatchers (snd (Disconnect hostEnv s)) = svWatchers s" for s
    by (simp add: Disconnect_def stopLocked_def onWorld_def closeChan_def Let_def split: option.splits)
  then show ?thesis
    using watchers_can_exit [OF upService_run upService_genRoom refl] upService_watcher(2) by fastforce
qed

theorem resource_balance_witness:
  "\<exists>d c e. freshSession d c e (hostView host0) \<and> hostView (svWorld upService) = addSession d c e (hostView host0)"
  using resource_balance [OF hostEnv_docs _ upService_run] upService_state by (auto split: option.splits)

end
