(* ===== verification/Veil_Client.thy ===== *)
theory Veil_Client
  imports Wintunnel_Host
begin

text \<open>
  The standalone front-end, \<^verbatim>\<open>src/cmd/veil-client/main.go\<close>: bring the tunnel up, wait for a signal
  or an engine error, take it down.  It has its own copies of the socket functions.  Its
  environment is that of the tunnel controller with the configuration file loader and the final
  \<^verbatim>\<open>select\<close>, during which the rest of the system moves on.  \<^verbatim>\<open>log.Fatalf\<close> ends the process at once: no
  deferred call runs.
\<close>

section \<open>The program\<close>

datatype clientEvent = GotSignal nat | EngineFailed gerr

record ('e, 'w) clientEnv =
  ceEnv :: "('e, 'w) env"
  ceLoadConfig :: "string \<Rightarrow> 'w \<Rightarrow> gerr + Config"
  ceSelect :: "'e \<Rightarrow> 'w \<Rightarrow> clientEvent \<times> 'w"

datatype client_log =
    TunLog tun_log | Usage string | LoadConfigFailed gerr | CreateAdapterFailed gerr | BindFailed gerr
  | RoutingFailed gerr | EngineBuildFailed gerr | SignalReceived nat | FatalError gerr

definition clientBindUDP ::
  "('e, 'w) env \<Rightarrow> Config \<Rightarrow> 'w \<Rightarrow> (gerr + UDPConn) \<times> tun_log list \<times> 'w" where
  "clientBindUDP E cfg w =
     (let listen = (\<lambda>ls w. case enListenUDP E (cfgListenPort cfg) w of (r, w) \<Rightarrow> (r, ls, w)) in
      if length (cfgPeers cfg) = 1 \<and> peerEndpoint (cfgPeers cfg ! 0) \<noteq> [] then
        (case enResolveUDPAddr E (peerEndpoint (cfgPeers cfg ! 0)) of
           Inr remote \<Rightarrow>
             (case enDialUDP E (cfgListenPort cfg) remote w of
                (Inr conn, w) \<Rightarrow> (Inr conn, [UdpConnected remote], w)
              | (Inl _, w) \<Rightarrow> listen [UdpFallback] w)
         | Inl _ \<Rightarrow> listen [] w)
      else listen [] w)"

definition clientTuneUDPSocket :: "('e, 'w) env \<Rightarrow> UDPConn \<Rightarrow> 'w \<Rightarrow> tun_log list \<times> 'w" where
  "clientTuneUDPSocket E conn w =
     (let (e1, w) = enSetReadBuffer E conn (8 * 2 ^ 20) w;
          (e2, w) = enSetWriteBuffer E conn (8 * 2 ^ 20) w;
          ls = (case e1 of Some err \<Rightarrow> [ReadBufferFailed err] | None \<Rightarrow> []) @
               (case e2 of Some err \<Rightarrow> [WriteBufferFailed err] | None \<Rightarrow> [])
      in case enSyscallConn E conn w of
           Some err \<Rightarrow> (ls @ [NoRawSocket err], w)
         | None \<Rightarrow>
             (case enRawControl E conn w of
                Inl err \<Rightarrow> (ls @ [ControlFailed err], w)
              | Inr fd \<Rightarrow>
                  (let (e3, w) = enWSAIoctl E fd sioUDPConnReset 0 w
                   in (ls @ (case e3 of Some err \<Rightarrow> [ConnresetFailed err] | None \<Rightarrow> []), w))))"

text \<open>What is up when the client is running: the variables that the shutdown and the deferred calls use.\<close>

record 'e clientUp =
  cuEng :: 'e
  cuTun :: TunDevice
  cuConn :: UDPConn
  cuCleanup :: RoutingCleanup
  cuProcs :: procTable

text \<open>
  \<^verbatim>\<open>main\<close> up to the message that it is running; \<^const>\<open>Inl\<close> is an exit through \<^verbatim>\<open>log.Fatalf\<close>.
  \<^verbatim>\<open>os.Args\<close> is the program name and the arguments after it.
\<close>

definition clientStart ::
  "('e, 'w) clientEnv \<Rightarrow> string \<Rightarrow> string list \<Rightarrow> 'w
     \<Rightarrow> (client_log + 'e clientUp) \<times> client_log list \<times> 'w" where
  "clientStart C prog args w =
     (let E = ceEnv C in
      if args = [] then (Inl (Usage prog), [], w)
      else case ceLoadConfig C (hd args) w of
        Inl err \<Rightarrow> (Inl (LoadConfigFailed err), [], w)
      | Inr cfg \<Rightarrow>
          (case NewTunDevice (enTun E) (enDefaultTunMTU E) ''veil0'' initGlobals w of
             (Inl err, g, w) \<Rightarrow> (Inl (CreateAdapterFailed err), [], w)
           | (Inr tunDev, g, w) \<Rightarrow>
               let (luid, w) = deviceLUID (enTun E) (procs g) tunDev w;
                   l1 = [AdapterUp (deviceName tunDev) luid]
               in case clientBindUDP E cfg w of
                    (Inl err, l2, w) \<Rightarrow> (Inl (BindFailed err), map TunLog (l1 @ l2), w)
                  | (Inr conn, l2, w) \<Rightarrow>
                      let (l3, w) = clientTuneUDPSocket E conn w
                      in case ConfigureRouting (enArch E) (enApi E) (enSys E) (enLookupIP E)
                                (enDefaultTunMTU E) luid cfg w of
                           (Inl err, l4, w) \<Rightarrow>
                             (Inl (RoutingFailed err), map TunLog (l1 @ l2 @ l3 @ map RouteLog l4), w)
                         | (Inr cleanup, l4, w) \<Rightarrow>
                             (let ls = l1 @ l2 @ l3 @ map RouteLog l4 in
                              case enEngNew E cfg tunDev conn w of
                                (Inl err, w) \<Rightarrow> (Inl (EngineBuildFailed err), map TunLog ls, w)
                              | (Inr eng, w) \<Rightarrow>
                                  (Inr \<lparr>cuEng = eng, cuTun = tunDev, cuConn = conn, cuCleanup = cleanup,
                                        cuProcs = procs g\<rparr>,
                                   map TunLog (ls @ [ClientRunning]), enEngRun E eng w))))"

text \<open>The explicit shutdown, then the deferred calls, last deferred first.\<close>

definition clientShutdown :: "('e, 'w) env \<Rightarrow> 'e clientUp \<Rightarrow> 'w \<Rightarrow> 'w" where
  "clientShutdown E u w =
     (let w = enEngClose E (cuEng u) w;
          w = enConnClose E (cuConn u) w;
          (tunDev, w) = deviceClose (enTun E) (cuProcs u) (cuTun u) w;
          w = enEngWait E (cuEng u) w;
          w = runCleanup (enArch E) (enApi E) (enSys E) (cuCleanup u) w;
          w = enConnClose E (cuConn u) w
      in snd (deviceClose (enTun E) (cuProcs u) tunDev w))"

text \<open>The whole program: its exit code, its log and the system it leaves.\<close>

definition clientMain ::
  "('e, 'w) clientEnv \<Rightarrow> string \<Rightarrow> string list \<Rightarrow> 'w \<Rightarrow> int \<times> client_log list \<times> 'w" where
  "clientMain C prog args w =
     (case clientStart C prog args w of
        (Inl fatal, ls, w) \<Rightarrow> (1, ls @ [fatal], w)
      | (Inr u, ls, w) \<Rightarrow>
          (case ceSelect C (cuEng u) w of
             (GotSignal sig, w) \<Rightarrow> (0, ls @ [SignalReceived sig], clientShutdown (ceEnv C) u w)
           | (EngineFailed err, w) \<Rightarrow> (0, ls @ [FatalError err], clientShutdown (ceEnv C) u w)))"

section \<open>The socket functions\<close>

lemma clientBindUDP_eq: "clientBindUDP E cfg w = bindUDP E cfg w"
  by (cases "cfgPeers cfg")
     (auto simp: clientBindUDP_def bindUDP_def Let_def split: sum.splits prod.splits list.splits)

lemma clientTuneUDPSocket_eq: "clientTuneUDPSocket E conn w = tuneUDPSocket E conn w"
  by (auto simp: clientTuneUDPSocket_def tuneUDPSocket_def Let_def split_def split: option.splits sum.splits)

section \<open>Properties\<close>

lemma clientStart_service:
  assumes "args \<noteq> []" "ceLoadConfig C (hd args) w = enLoadConfigString (ceEnv C) text"
    and "clientStart C prog args w = (r, ls, w')"
    and "Connect (ceEnv C) text name (initService w) = (e, s)"
  shows "case r of
      Inl _ \<Rightarrow> e \<noteq> None
    | Inr u \<Rightarrow> e = None \<and> svWorld s = w' \<and> tlEng (svTunnel s) = Some (cuEng u) \<and>
        tlTun (svTunnel s) = Some (cuTun u) \<and> tlConn (svTunnel s) = Some (cuConn u) \<and>
        tlCleanup (svTunnel s) = Some (cuCleanup u) \<and> procs (svGlobals s) = cuProcs u"
  using assms
  by (auto simp: clientStart_def Connect_def bringUp_def initService_def zeroTunnel_def Let_def
      clientBindUDP_eq clientTuneUDPSocket_eq split: sum.splits prod.splits)

text \<open>
  C15: the client starts exactly what the service starts.  Given the same configuration, on a fresh
  process, the start succeeds exactly when the controller's \<^verbatim>\<open>Connect\<close> does, and then with the same
  system state, engine, device, socket and routing cleanup.
\<close>

theorem client_starts_like_service:
  assumes "args \<noteq> []" "ceLoadConfig C (hd args) w = enLoadConfigString (ceEnv C) text"
    and "clientStart C prog args w = (r, ls, w')"
    and "Connect (ceEnv C) text name (initService w) = (e, s)"
  shows "case r of
      Inl _ \<Rightarrow> e \<noteq> None
    | Inr u \<Rightarrow> e = None \<and> svWorld s = w' \<and> tlEng (svTunnel s) = Some (cuEng u) \<and>
        tlTun (svTunnel s) = Some (cuTun u) \<and> tlConn (svTunnel s) = Some (cuConn u) \<and>
        tlCleanup (svTunnel s) = Some (cuCleanup u) \<and> procs (svGlobals s) = cuProcs u"
  using clientStart_service [OF assms] .

text \<open>
  What a started client holds.  The service with a loader that returns the client's configuration
  for any text starts the same session, so its accounting applies.
\<close>

lemma clientStart_holdings:
  assumes "documented_env (ceEnv C) V" "clientStart C prog args w = (Inr u, ls, w')"
  shows "documented_handles (enTun (ceEnv C)) (cuProcs u) (\<lambda>w. hoAdapters (V w)) (\<lambda>w. hoSessions (V w)) \<and>
    deviceOpen (cuTun u) \<and> freshSession (cuTun u) (cuConn u) (cuEng u) (V w) \<and>
    V w' = addSession (cuTun u) (cuConn u) (cuEng u) (V w)"
proof -
  have ne: "args \<noteq> []"
    using assms(2) by (auto simp: clientStart_def)
  let ?load = "\<lambda>_. ceLoadConfig C (hd args) w"
  let ?E = "(ceEnv C)\<lparr>enLoadConfigString := ?load\<rparr>"
  let ?C = "C\<lparr>ceEnv := ?E\<rparr>"
  have bind: "clientBindUDP ((ceEnv C)\<lparr>enLoadConfigString := f\<rparr>) = clientBindUDP (ceEnv C)"
    "clientTuneUDPSocket ((ceEnv C)\<lparr>enLoadConfigString := f\<rparr>) = clientTuneUDPSocket (ceEnv C)" for f
    by (cases "ceEnv C"; simp add: clientBindUDP_def clientTuneUDPSocket_def fun_eq_iff
          cong del: sum.case_cong_weak prod.case_cong_weak option.case_cong_weak if_weak_cong)+
  have start: "clientStart ?C prog args w = (Inr u, ls, w')"
    using assms(2) by (simp add: clientStart_def Let_def bind
        cong del: sum.case_cong_weak prod.case_cong_weak if_weak_cong)
  have docs: "documented_env ?E V"
    using assms(1) by (simp add: documented_env_def net_docs_def engine_docs_def)
  obtain e s where up: "Connect ?E [] [] (initService w) = (e, s)"
    by fastforce
  have svc: "e = None" "svWorld s = w'" "tlEng (svTunnel s) = Some (cuEng u)" "tlTun (svTunnel s) = Some (cuTun u)"
    "tlConn (svTunnel s) = Some (cuConn u)" "procs (svGlobals s) = cuProcs u"
    using clientStart_service [OF ne _ start, of "[]" "[]" e s] up by simp_all
  have "upHoldings ?E V [] (initService w) (e, s)"
    using bringUp_holdings [OF docs, of "initService w" "[]" "[]"] up
    by (simp add: Connect_def initService_def zeroTunnel_def globals_ok_def)
  then show ?thesis
    using svc by (auto simp: upHoldings_def startedTunnel_def initService_def)
qed

text \<open>
  C16: a normal exit gives everything back.  With the documented effects of the system's calls, when
  the program exits with code 0 (after a signal or an engine error) the adapters, sessions,
  sockets and engines are those from before its start; the explicit shutdown and the deferred
  calls together release each exactly once.
\<close>

theorem client_exit_balanced:
  assumes "documented_env (ceEnv C) V" "\<And>e w. V (snd (ceSelect C e w)) = V w"
    and "clientMain C prog args w = (0, ls, w')"
  shows "V w' = V w"
proof -
  let ?E = "ceEnv C"
  obtain u ls1 w1 where start: "clientStart C prog args w = (Inr u, ls1, w1)"
    using assms(3) by (auto simp: clientMain_def split: prod.splits sum.splits)
  obtain w2 where w2: "w' = clientShutdown ?E u w2" "V w2 = V w1"
    using assms(2) [of "cuEng u" w1] assms(3) start
    by (auto simp: clientMain_def split: prod.splits clientEvent.splits)
  note H = clientStart_holdings [OF assms(1) start]
  obtain d w3 where close: "deviceClose (enTun ?E) (cuProcs u) (cuTun u)
      (enConnClose ?E (cuConn u) (enEngClose ?E (cuEng u) w2)) = (d, w3)"
    by fastforce
  have again: "deviceClose (enTun ?E) (cuProcs u) d v = (d, v)" for v
    using td.close_twice [of "enTun ?E" "cuProcs u" "cuTun u" "enConnClose ?E (cuConn u) (enEngClose ?E (cuEng u) w2)" v]
    by (simp add: close)
  have V3: "V w3 = (V (enConnClose ?E (cuConn u) (enEngClose ?E (cuEng u) w2)))
      \<lparr>hoAdapters := hoAdapters (V w2) - {fst (deviceHandles (cuTun u))},
       hoSessions := hoSessions (V w2) - {snd (deviceHandles (cuTun u))}\<rparr>"
    using deviceClose_holdings [OF assms(1) H [THEN conjunct1] H [THEN conjunct2, THEN conjunct1],
        of "enConnClose ?E (cuConn u) (enEngClose ?E (cuEng u) w2)"] close
    by (simp add: documented_env_net(3) [OF assms(1)] documented_env_engine(4) [OF assms(1)])
  show ?thesis
    using H w2 V3
    by (cases "V w")
       (auto simp: clientShutdown_def close again documented_env_net(3) [OF assms(1)]
         documented_env_engine(4,5) [OF assms(1)] runCleanup_keeps [OF documented_env_engine(6) [OF assms(1)]]
         addSession_def freshSession_def)
qed

section \<open>Concrete instances\<close>

definition hostClient :: "(nat, hostWorld) env \<Rightarrow> (nat, hostWorld) clientEnv" where
  "hostClient E = \<lparr>ceEnv = E, ceLoadConfig = (\<lambda>p w. enLoadConfigString E p), ceSelect = (\<lambda>e w. (GotSignal 2, w))\<rparr>"

lemma host_run:
  "case clientMain (hostClient hostEnv) ''veil-client'' [''full''] host0 of
     (code, ls, w') \<Rightarrow> code = 0 \<and> map routeKey (wfRoutes (hwNet w')) = map routeKey (wfRoutes (hwNet host0))"
  by code_simp

theorem client_starts_like_service_witness:
  "\<exists>u ls w'. clientStart (hostClient hostEnv) ''veil-client'' [''full''] host0 = (Inr u, ls, w') \<and>
     tlEng (svTunnel upService) = Some (cuEng u)"
proof -
  obtain r ls w' where st: "clientStart (hostClient hostEnv) ''veil-client'' [''full''] host0 = (r, ls, w')"
    by (metis prod.exhaust)
  obtain e s where up: "Connect hostEnv ''full'' ''home'' (initService host0) = (e, s)"
    by fastforce
  then have "s = upService"
    by (simp add: upService_def)
  moreover have "isl r = False"
    using host_run st by (cases r) (auto simp: clientMain_def split: prod.splits)
  ultimately show ?thesis
    using client_starts_like_service [of "[''full'']" "hostClient hostEnv" host0 "''full''", OF _ _ st, of "''home''" e s] st up
    by (cases r) (auto simp: hostClient_def)
qed

theorem client_exit_balanced_witness:
  "\<exists>ls w'. clientMain (hostClient hostEnv) ''veil-client'' [''full''] host0 = (0, ls, w') \<and>
     hostView w' = hostView host0"
proof -
  obtain ls w' where run: "clientMain (hostClient hostEnv) ''veil-client'' [''full''] host0 = (0, ls, w')"
    using host_run by (auto split: prod.splits)
  show ?thesis
    using client_exit_balanced [of "hostClient hostEnv" hostView, OF _ _ run] run hostEnv_docs
    by (simp add: hostClient_def)
qed

end
