(* ===== verification/Veil_Routes.thy ===== *)
theory Veil_Routes
  imports Veil_Client
begin

text \<open>
  What the standalone client, \<^verbatim>\<open>src/cmd/veil-client/main.go\<close>, does to the routes of the other interfaces:
  a normal exit takes back what \<^verbatim>\<open>ConfigureRouting\<close> added; \<^verbatim>\<open>log.Fatalf\<close> after it does not run the deferred
  cleanup.  The driver, the sockets, the engine and whatever happens while the client waits leave
  those routes alone; only the IP helper calls of the routing code change them.
\<close>

section \<open>The rest of the system leaves the routes alone\<close>

definition driver_keeps :: "'w tunSys \<Rightarrow> ('w \<Rightarrow> 'v) \<Rightarrow> bool" where
  "driver_keeps sys f \<longleftrightarrow>
     (\<forall>n g w. f (snd (tsLoadLibraryEx sys n g w)) = f w) \<and>
     (\<forall>a c w. f (snd (snd (snd (tsCall sys a c w)))) = f w) \<and>
     (\<forall>h w. f (tsSetEvent sys h w) = f w) \<and> (\<forall>w. f (snd (tsNewTun sys w)) = f w) \<and>
     (\<forall>i w. f (tsSetClosed sys i w) = f w) \<and> (\<forall>i w. f (tsRunningWait sys i w) = f w)"

definition host_keeps :: "('e, 'w) clientEnv \<Rightarrow> ('w \<Rightarrow> 'v) \<Rightarrow> bool" where
  "host_keeps C f \<longleftrightarrow> driver_keeps (enTun (ceEnv C)) f \<and>
     (\<forall>n a w. f (snd (enDialUDP (ceEnv C) n a w)) = f w) \<and> (\<forall>n w. f (snd (enListenUDP (ceEnv C) n w)) = f w) \<and>
     (\<forall>c w. f (enConnClose (ceEnv C) c w) = f w) \<and>
     (\<forall>c n w. f (snd (enSetReadBuffer (ceEnv C) c n w)) = f w) \<and>
     (\<forall>c n w. f (snd (enSetWriteBuffer (ceEnv C) c n w)) = f w) \<and>
     (\<forall>h c n w. f (snd (enWSAIoctl (ceEnv C) h c n w)) = f w) \<and>
     (\<forall>cfg d c w. f (snd (enEngNew (ceEnv C) cfg d c w)) = f w) \<and> (\<forall>e w. f (enEngRun (ceEnv C) e w) = f w) \<and>
     (\<forall>e w. f (enEngClose (ceEnv C) e w) = f w) \<and> (\<forall>e w. f (enEngWait (ceEnv C) e w) = f w) \<and>
     (\<forall>e w. f (snd (ceSelect C e w)) = f w)"

lemma driver_keepsD:
  assumes "driver_keeps sys f"
  shows "tsLoadLibraryEx sys n g w = (r, w') \<Longrightarrow> f w' = f w" "tsCall sys a c w = (r0, x, e1, w') \<Longrightarrow> f w' = f w"
    "tsNewTun sys w = (i, w') \<Longrightarrow> f w' = f w"
    "f (tsSetEvent sys h w) = f w" "f (tsSetClosed sys i w) = f w" "f (tsRunningWait sys i w) = f w"
  using assms unfolding driver_keeps_def by (metis snd_conv)+

lemma host_keepsD:
  assumes "host_keeps C f"
  shows "driver_keeps (enTun (ceEnv C)) f"
    "enDialUDP (ceEnv C) n a w = (c, w') \<Longrightarrow> f w' = f w" "enListenUDP (ceEnv C) n w = (c, w') \<Longrightarrow> f w' = f w"
    "enSetReadBuffer (ceEnv C) conn n w = (e, w') \<Longrightarrow> f w' = f w"
    "enSetWriteBuffer (ceEnv C) conn n w = (e, w') \<Longrightarrow> f w' = f w"
    "enWSAIoctl (ceEnv C) h k m w = (e, w') \<Longrightarrow> f w' = f w"
    "enEngNew (ceEnv C) cfg d conn w = (eng, w') \<Longrightarrow> f w' = f w" "ceSelect C e' w = (ev, w') \<Longrightarrow> f w' = f w"
    "f (enConnClose (ceEnv C) conn w) = f w" "f (enEngRun (ceEnv C) e' w) = f w"
    "f (enEngClose (ceEnv C) e' w) = f w" "f (enEngWait (ceEnv C) e' w) = f w"
  using assms unfolding host_keeps_def by (metis snd_conv)+

lemma load_keeps:
  assumes "driver_keeps sys f" "load sys g w = (r, g', w')"
  shows "f w' = f w"
  using assms(2)
  by (auto simp: load_def Let_def split: prod.splits sum.splits if_splits dest!: driver_keepsD(1) [OF assms(1)])

lemma CreateAdapter_keeps:
  assumes "driver_keeps sys f" "CreateAdapter sys name gd g w = (r, g', w')"
  shows "f w' = f w"
proof -
  obtain e g1 w1 where l: "load sys g w = (e, g1, w1)"
    by (metis prod.exhaust)
  then show ?thesis
    using assms(2) load_keeps [OF assms(1) l]
    by (auto simp: CreateAdapter_def Let_def split: prod.splits sum.splits option.splits if_splits
        dest!: driver_keepsD(2) [OF assms(1)])
qed

lemma NewTunDevice_keeps:
  assumes "driver_keeps sys f" "NewTunDevice sys mtu name g w = (r, g', w')"
  shows "f w' = f w"
proof -
  let ?name = "if name = [] then ''veil0'' else name"
  obtain a g1 w1 where c: "CreateAdapter sys ?name None g w = (a, g1, w1)"
    by (metis prod.exhaust)
  have "CreateTUN sys ?name mtu g w = (x, g', w') \<Longrightarrow> f w' = f w1" for x
    using c by (auto simp: CreateTUN_def StartSession_def ReadWaitEvent_def adapterClose_def Let_def
        split: prod.splits sum.splits if_splits dest!: driver_keepsD(2,3) [OF assms(1)])
  then show ?thesis
    using assms(2) CreateAdapter_keeps [OF assms(1) c] by (auto simp: NewTunDevice_def Let_def split: prod.splits sum.splits)
qed

lemma deviceLUID_keeps: 
  assumes "driver_keeps sys f" "deviceLUID sys p t w = (l, w')"
  shows "f w' = f w"
  using assms(2) by (auto simp: deviceLUID_def tunLUID_def adapterLUID_def Let_def split: prod.splits if_splits
      dest!: driver_keepsD(2) [OF assms(1)])

lemma deviceClose_keeps:
  assumes "driver_keeps sys f" "deviceClose sys p t w = (t', w')"
  shows "f w' = f w"
  using assms(2)
  by (auto simp: deviceClose_def tunClose_def sessionEnd_def adapterClose_def Let_def driver_keepsD(4-) [OF assms(1)]
      split: prod.splits if_splits dest!: driver_keepsD(2) [OF assms(1)])

lemma clientBindUDP_keeps:
  assumes "host_keeps C f" "clientBindUDP (ceEnv C) cfg w = (r, ls, w')"
  shows "f w' = f w \<and> (\<forall>nm l. AdapterUp nm l \<notin> set ls) \<and> (\<forall>x. RouteLog x \<notin> set ls)"
  using assms(2)
  by (auto simp: clientBindUDP_def Let_def split: prod.splits sum.splits if_splits dest!: host_keepsD(2,3) [OF assms(1)])

lemma clientTuneUDPSocket_keeps:
  assumes "host_keeps C f" "clientTuneUDPSocket (ceEnv C) conn w = (ls, w')"
  shows "f w' = f w \<and> (\<forall>nm l. AdapterUp nm l \<notin> set ls) \<and> (\<forall>x. RouteLog x \<notin> set ls)"
  using assms(2)
  by (auto simp: clientTuneUDPSocket_def Let_def split: prod.splits sum.splits option.splits
      dest!: host_keepsD(4,5,6) [OF assms(1)])

section \<open>The client up to the engine\<close>

text \<open>The messages of a start are warnings and reports; a fatal message ends it and is its result.\<close>

lemma clientStart_log: "clientStart C prog args w = (r, ls, w') \<Longrightarrow> x \<in> set ls \<Longrightarrow> \<exists>y. x = TunLog y"
  by (auto simp: clientStart_def Let_def split: if_splits sum.splits prod.splits)

lemma clientStart_fatal: "clientStart C prog args w = (Inl fatal, ls, w') \<Longrightarrow> fatal \<noteq> TunLog y"
  by (auto simp: clientStart_def Let_def split: if_splits sum.splits prod.splits)

text \<open>
  What a start that got as far as the adapter has done to a view that only the routing code changes:
  \<open>luid\<close> is the one it logged.
\<close>

lemma clientStart_routing:
  assumes "host_keeps C f" "clientStart C prog args w = (r, ls, w')" "TunLog (AdapterUp nm luid) \<in> set ls"
  obtains (early) fatal where "r = Inl fatal" "\<not> (\<exists>err. fatal = EngineBuildFailed err)" "f w' = f w"
  | (failed) cfg w1 l4 err where "r = Inl (RoutingFailed err)" "f w1 = f w"
      "ConfigureRouting (enArch (ceEnv C)) (enApi (ceEnv C)) (enSys (ceEnv C)) (enLookupIP (ceEnv C))
         (enDefaultTunMTU (ceEnv C)) luid cfg w1 = (Inl err, l4, w')"
  | (configured) cfg w1 l4 c w2 where "f w1 = f w" "f w' = f w2"
      "ConfigureRouting (enArch (ceEnv C)) (enApi (ceEnv C)) (enSys (ceEnv C)) (enLookupIP (ceEnv C))
         (enDefaultTunMTU (ceEnv C)) luid cfg w1 = (Inr c, l4, w2)"
      "\<And>x. TunLog (RouteLog x) \<in> set ls \<longleftrightarrow> x \<in> set l4"
      "(\<exists>err. r = Inl (EngineBuildFailed err)) \<or> (\<exists>u. r = Inr u \<and> cuCleanup u = c)"
proof -
  let ?E = "ceEnv C"
  obtain cfg where cfg: "args \<noteq> []" "ceLoadConfig C (hd args) w = Inr cfg"
    using assms(2,3) by (cases "args = []"; cases "ceLoadConfig C (hd args) w") (auto simp: clientStart_def)
  obtain rd g w1 where new: "NewTunDevice (enTun ?E) (enDefaultTunMTU ?E) ''veil0'' initGlobals w = (rd, g, w1)"
    by (metis prod.exhaust)
  then obtain d where dev: "NewTunDevice (enTun ?E) (enDefaultTunMTU ?E) ''veil0'' initGlobals w = (Inr d, g, w1)"
    using assms(2,3) cfg by (cases rd) (auto simp: clientStart_def)
  obtain l w2 where luid: "deviceLUID (enTun ?E) (procs g) d w1 = (l, w2)"
    by fastforce
  obtain rc l2 w3 where bind: "clientBindUDP ?E cfg w2 = (rc, l2, w3)"
    by (metis prod.exhaust)
  note B = clientBindUDP_keeps [OF assms(1) bind]
  have f3: "f w3 = f w"
    using B NewTunDevice_keeps [OF host_keepsD(1) [OF assms(1)] dev] deviceLUID_keeps [OF host_keepsD(1) [OF assms(1)] luid]
    by simp
  show thesis
  proof (cases rc)
    case (Inl err)
    then show thesis
      using assms(2) cfg dev luid bind f3 by (intro early [of "BindFailed err"]) (auto simp: clientStart_def)
  next
    case (Inr conn)
    obtain l3 w4 where tune: "clientTuneUDPSocket ?E conn w3 = (l3, w4)"
      by fastforce
    note T = clientTuneUDPSocket_keeps [OF assms(1) tune]
    obtain rr l4 w5 where conf: "ConfigureRouting (enArch ?E) (enApi ?E) (enSys ?E) (enLookupIP ?E)
        (enDefaultTunMTU ?E) l cfg w4 = (rr, l4, w5)"
      by (metis prod.exhaust)
    let ?ls = "[AdapterUp (deviceName d) l] @ l2 @ l3 @ map RouteLog l4"
    have start: "(r, ls, w') = (case rr of
        Inl err \<Rightarrow> (Inl (RoutingFailed err), map TunLog ?ls, w5)
      | Inr c \<Rightarrow> (case enEngNew ?E cfg d conn w5 of
          (Inl err, w) \<Rightarrow> (Inl (EngineBuildFailed err), map TunLog ?ls, w)
        | (Inr eng, w) \<Rightarrow>
            (Inr \<lparr>cuEng = eng, cuTun = d, cuConn = conn, cuCleanup = c, cuProcs = procs g\<rparr>,
             map TunLog (?ls @ [ClientRunning]), enEngRun ?E eng w)))"
      using assms(2) cfg dev luid bind Inr tune conf by (auto simp: clientStart_def split: sum.splits prod.splits)
    have l: "l = luid"
      using start assms(3) B T by (auto split: sum.splits prod.splits)
    have routes: "TunLog (RouteLog x) \<in> set ls \<longleftrightarrow> x \<in> set l4" for x
      using start B T by (auto split: sum.splits prod.splits)
    show thesis
    proof (cases rr)
      case (Inl err)
      then show thesis
        using start conf l f3 T by (intro failed [of err w4 cfg l4]) auto
    next
      case (Inr c)
      obtain re w6 where eng: "enEngNew ?E cfg d conn w5 = (re, w6)"
        by fastforce
      have "f w' = f w5" "(\<exists>err. r = Inl (EngineBuildFailed err)) \<or> (\<exists>u. r = Inr u \<and> cuCleanup u = c)"
        using start Inr eng host_keepsD(7) [OF assms(1) eng] host_keepsD(10) [OF assms(1)] by (auto split: sum.splits)
      then show thesis
        using conf l f3 T routes Inr by (intro configured [of w4 w5 cfg c l4]) auto
    qed
  qed
qed

section \<open>Properties\<close>

lemma clientShutdown_routes:
  assumes "host_keeps C f" "clientShutdown (ceEnv C) u w = w'"
  obtains w1 where "f w1 = f w" "f w' = f (runCleanup (enArch (ceEnv C)) (enApi (ceEnv C)) (enSys (ceEnv C)) (cuCleanup u) w1)"
proof -
  let ?E = "ceEnv C"
  obtain d v where close: "deviceClose (enTun ?E) (cuProcs u) (cuTun u) (enConnClose ?E (cuConn u) (enEngClose ?E (cuEng u) w)) = (d, v)"
    by fastforce
  let ?w1 = "enEngWait ?E (cuEng u) v"
  let ?w2 = "runCleanup (enArch ?E) (enApi ?E) (enSys ?E) (cuCleanup u) ?w1"
  obtain d' v' where again: "deviceClose (enTun ?E) (cuProcs u) d (enConnClose ?E (cuConn u) ?w2) = (d', v')"
    by fastforce
  note dev = deviceClose_keeps [OF host_keepsD(1) [OF assms(1)]]
  show thesis
  proof (rule that [of ?w1])
    show "f ?w1 = f w"
      using dev [OF close] by (simp add: host_keepsD(9,11,12) [OF assms(1)])
    show "f w' = f ?w2"
      using dev [OF again] assms(2) by (simp add: clientShutdown_def close again host_keepsD(9) [OF assms(1)])
  qed
qed

text \<open>
  C22: a normal exit restores the routes.  When the program exits with code 0, after a signal or an engine
  error, the routes of every interface but its own adapter, whose LUID it logged, are exactly those
  from before its start: the deferred cleanup takes back the exception route to the server.
\<close>

theorem client_restores_routes:
  assumes "documented_routes (enApi (ceEnv C)) routes" "documented_frames (enApi (ceEnv C)) (enSys (ceEnv C)) routes"
    and "reliableDelete (enApi (ceEnv C)) routes" "host_keeps C (\<lambda>w. offLink luid (routes w))"
    and "\<forall>k\<in>routes w. fst k \<noteq> 0"
    and "clientMain C prog args w = (0, ls, w')" "TunLog (AdapterUp nm luid) \<in> set ls"
  shows "offLink luid (routes w') = offLink luid (routes w)"
proof -
  obtain u ls1 v where start: "clientStart C prog args w = (Inr u, ls1, v)"
    using assms(6) by (auto simp: clientMain_def split: prod.splits sum.splits)
  obtain ev v1 where sel: "ceSelect C (cuEng u) v = (ev, v1)"
    by fastforce
  have final: "w' = clientShutdown (ceEnv C) u v1" and log: "TunLog (AdapterUp nm luid) \<in> set ls1"
    using assms(6,7) start sel by (auto simp: clientMain_def split: clientEvent.splits)
  obtain v2 where shut: "offLink luid (routes v2) = offLink luid (routes v1)"
      "offLink luid (routes w') = offLink luid (routes
         (runCleanup (enArch (ceEnv C)) (enApi (ceEnv C)) (enSys (ceEnv C)) (cuCleanup u) v2))"
    by (rule clientShutdown_routes [OF assms(4) final [symmetric]])
  from assms(4) start log show ?thesis
  proof (cases rule: clientStart_routing)
    case (configured cfg w1 l4 c w2)
    have "\<forall>k\<in>offLink luid (routes w1). fst k \<noteq> 0"
      unfolding configured(1) using assms(5) by (simp add: offLink_def)
    from cleanup_restores [OF assms(1-3) this configured(3), of v2] show ?thesis
      using shut configured host_keepsD(8) [OF assms(4) sel] by simp
  qed simp_all
qed

text \<open>
  C23: a fatal exit leaks the endpoint exception.  On any system, when the client logged that it added the
  exception route and then the engine cannot be built, it exits with code 1 without running the deferred
  cleanup: the host route to the server is still there on another interface than its adapter,
  where it was not before.
\<close>

theorem client_fatal_leaks_exception:
  assumes "documented_routes (enApi (ceEnv C)) routes" "documented_frames (enApi (ceEnv C)) (enSys (ceEnv C)) routes"
    and "host_keeps C (\<lambda>w. offLink luid (routes w))" "\<forall>k\<in>routes w. fst k \<noteq> 0"
    and "clientMain C prog args w = (code, ls, w')" "EngineBuildFailed err \<in> set ls"
    and "TunLog (AdapterUp nm luid) \<in> set ls" "TunLog (RouteLog (ExceptionAdded pfx hop)) \<in> set ls"
  shows "code = 1 \<and> (\<exists>l. l \<noteq> luid \<and> (l, pfx, hop) \<in> routes w' \<and> (l, pfx, hop) \<notin> routes w)"
proof -
  obtain r ls1 v where start: "clientStart C prog args w = (r, ls1, v)"
    by (metis prod.exhaust)
  have r: "r = Inl (EngineBuildFailed err)" "code = 1" "w' = v"
    and log: "TunLog (AdapterUp nm luid) \<in> set ls1" "TunLog (RouteLog (ExceptionAdded pfx hop)) \<in> set ls1"
    using assms(5-8) start clientStart_log [OF start, of "EngineBuildFailed err"]
    by (auto simp: clientMain_def split: sum.splits prod.splits clientEvent.splits dest!: clientStart_fatal)
  from assms(3) start log(1) show ?thesis
  proof (cases rule: clientStart_routing)
    case (configured cfg w1 l4 c w2)
    have zero: "\<forall>k\<in>offLink luid (routes w1). fst k \<noteq> 0"
      unfolding configured(1) using assms(4) by (simp add: offLink_def)
    have exc: "rcExceptionLUID c \<noteq> 0" "rcExceptionPrefix c = pfx" "rcExceptionHop c = hop"
      using ConfigureRouting_logged [OF assms(1,2) configured(3) _ zero, of pfx hop] configured(4) log(2) by auto
    let ?k = "(rcExceptionLUID c, pfx, hop)"
    have "rcExceptionLUID c \<noteq> luid" "?k \<notin> routes w1" "offLink luid (routes w2) = insert ?k (offLink luid (routes w1))"
      using ConfigureRouting_off [OF assms(1,2) zero configured(3)] exc by auto
    moreover from this have "?k \<in> offLink luid (routes w')"
      using configured(2) r(3) by simp
    moreover have "?k \<notin> offLink luid (routes w)"
      unfolding configured(1) [symmetric] using calculation(2) by (simp add: offLink_def)
    ultimately show ?thesis
      using r(2) by (intro conjI exI [of _ "rcExceptionLUID c"]) (simp_all add: offLink_def)
  qed (use r in auto)
qed

section \<open>Concrete instances\<close>

text \<open>The host with an engine that cannot be built.\<close>

definition noEngine :: "(nat, hostWorld) env" where
  "noEngine = hostEnv\<lparr>enEngNew := (\<lambda>cfg d c w. (Inl (ErrText ''bad key''), w))\<rparr>"

definition hostRoutes :: "hostWorld \<Rightarrow> route_key set" where
  "hostRoutes w = memRoutes (hwNet w)"

lemma netCall_eq: "netCall f w = (r, w') \<longleftrightarrow> (\<exists>n. f (hwNet w) = (r, n) \<and> w' = w\<lparr>hwNet := n\<rparr>)"
  by (auto simp: netCall_def split_def Let_def prod_eq_iff)

lemma hostRoutes_net [simp]: "hostRoutes (w\<lparr>hwNet := n\<rparr>) = memRoutes n"
  by (simp add: hostRoutes_def)

lemma host_documented_routes: "documented_routes hostApi hostRoutes"
proof -
  have "procCreateIpForwardEntry2 hostApi row = netCall (procCreateIpForwardEntry2 memApi row)"
      "procDeleteIpForwardEntry2 hostApi row = netCall (procDeleteIpForwardEntry2 memApi row)" for row
    by (simp_all add: hostApi_def)
  moreover have "procGetIpForwardTable2 hostApi fam w = procGetIpForwardTable2 memApi fam (hwNet w)"
      "procGetIpForwardEntry2 hostApi row w = procGetIpForwardEntry2 memApi row (hwNet w)"
      "procInitializeIpForwardEntry hostApi = procInitializeIpForwardEntry memApi" for fam row w
    by (simp_all add: hostApi_def)
  moreover note D = memApi_documented_routes [unfolded documented_routes_def]
  ultimately show ?thesis
    unfolding documented_routes_def
    using D [THEN conjunct1] D [THEN conjunct2, THEN conjunct1]
      D [THEN conjunct2, THEN conjunct2, THEN conjunct1]
      D [THEN conjunct2, THEN conjunct2, THEN conjunct2]
    by (intro conjI allI impI) (auto simp: netCall_eq hostRoutes_def split: if_splits)
qed

lemma host_documented_frames: "documented_frames hostApi plainSys hostRoutes"
  using memApi_documented_frames
  by (simp add: documented_frames_def settings_keep_def hostApi_def netCall_def split_def Let_def hostRoutes_def plainSys_def)

lemma host_reliableDelete: "reliableDelete hostApi hostRoutes"
  using memApi_reliableDelete
  by (simp add: reliableDelete_def hostApi_def netCall_def split_def Let_def hostRoutes_def)

lemma hostTun_keeps: "driver_keeps hostTun (\<lambda>w. offLink l (hostRoutes w))"
  by (simp add: driver_keeps_def hostTun_def tunRet_def tunPart_def split_def Let_def hostRoutes_def)

lemma hostEnv_keeps:
  "host_keeps (hostClient hostEnv) (\<lambda>w. offLink l (hostRoutes w))"
  "host_keeps (hostClient noEngine) (\<lambda>w. offLink l (hostRoutes w))"
  using hostTun_keeps
  by (simp_all add: host_keeps_def hostClient_def noEngine_def hostEnv_def openSocket_def Let_def hostRoutes_def)

lemma host0_luids: "\<forall>k\<in>hostRoutes host0. fst k \<noteq> 0"
  using homeWorld_luids by (simp add: hostRoutes_def host0_def)

lemma hostClient_parts [simp]:
  "enApi (ceEnv (hostClient hostEnv)) = hostApi" "enSys (ceEnv (hostClient hostEnv)) = plainSys"
  "enApi (ceEnv (hostClient noEngine)) = hostApi" "enSys (ceEnv (hostClient noEngine)) = plainSys"
  by (simp_all add: hostClient_def noEngine_def hostEnv_def)

abbreviation "exceptionLog \<equiv> TunLog (RouteLog (ExceptionAdded (PrefixFrom (Addr4 203 0 113 7) 32) (Addr4 192 168 1 1)))"

lemma host_run_log:
  "case clientMain (hostClient hostEnv) ''veil-client'' [''full''] host0 of
     (code, ls, w') \<Rightarrow> code = 0 \<and> TunLog (AdapterUp ''veil0'' 1) \<in> set ls \<and> exceptionLog \<in> set ls"
  by code_simp

lemma noEngine_run_log:
  "case clientMain (hostClient noEngine) ''veil-client'' [''full''] host0 of
     (code, ls, w') \<Rightarrow> TunLog (AdapterUp ''veil0'' 1) \<in> set ls \<and> exceptionLog \<in> set ls \<and>
       EngineBuildFailed (ErrText ''bad key'') \<in> set ls"
  by code_simp

theorem client_restores_routes_witness:
  "\<exists>ls w'. clientMain (hostClient hostEnv) ''veil-client'' [''full''] host0 = (0, ls, w') \<and>
     exceptionLog \<in> set ls \<and> offLink 1 (hostRoutes w') = offLink 1 (hostRoutes host0)"
proof -
  obtain ls w' where run: "clientMain (hostClient hostEnv) ''veil-client'' [''full''] host0 = (0, ls, w')"
      "TunLog (AdapterUp ''veil0'' 1) \<in> set ls" "exceptionLog \<in> set ls"
    using host_run_log by (auto split: prod.splits)
  show ?thesis
    using client_restores_routes [of "hostClient hostEnv" hostRoutes 1, OF _ _ _ hostEnv_keeps(1) host0_luids run(1,2)] run(1,3)
    by (simp add: host_documented_routes host_documented_frames host_reliableDelete)
qed

theorem client_fatal_leaks_exception_witness:
  "\<exists>ls w' l. clientMain (hostClient noEngine) ''veil-client'' [''full''] host0 = (1, ls, w') \<and> l \<noteq> 1 \<and>
     (l, PrefixFrom (Addr4 203 0 113 7) 32, Addr4 192 168 1 1) \<in> hostRoutes w' - hostRoutes host0"
proof -
  obtain code ls w' where run: "clientMain (hostClient noEngine) ''veil-client'' [''full''] host0 = (code, ls, w')"
    by (metis prod.exhaust)
  have "EngineBuildFailed (ErrText ''bad key'') \<in> set ls" "TunLog (AdapterUp ''veil0'' 1) \<in> set ls" "exceptionLog \<in> set ls"
    using noEngine_run_log run by simp_all
  from client_fatal_leaks_exception [of "hostClient noEngine" hostRoutes 1, OF _ _ hostEnv_keeps(2) host0_luids run this]
  show ?thesis
    using run by (auto simp: host_documented_routes host_documented_frames)
qed

end
