(* ===== verification/Json.thy ===== *)
theory Json
  imports Netip
begin

text \<open>
  The part of Go's \<^verbatim>\<open>encoding/json\<close> that \<^verbatim>\<open>src/control/proto.go\<close> uses: the text of strings with UTF-8 and
  escapes and the grammar of values.  Strings are byte strings, as in Go: invalid UTF-8 is replaced by
  U+FFFD in both directions, as \<^verbatim>\<open>encoding/json\<close> does.
\<close>

section \<open>UTF-8\<close>

definition byteOf :: "char \<Rightarrow> nat" where "byteOf c = of_char c"

definition isTail :: "char \<Rightarrow> bool" where
  "isTail c \<longleftrightarrow> 0x80 \<le> byteOf c \<and> byteOf c \<le> 0xBF"

text \<open>What a leading byte announces: the length, and the range of the second byte.\<close>

definition leadByte :: "nat \<Rightarrow> (nat \<times> nat \<times> nat) option" where
  "leadByte b =
     (if b < 0x80 then Some (1, 0, 0) else if b < 0xC2 then None
      else if b \<le> 0xDF then Some (2, 0x80, 0xBF)
      else if b = 0xE0 then Some (3, 0xA0, 0xBF) else if b = 0xED then Some (3, 0x80, 0x9F)
      else if b \<le> 0xEF then Some (3, 0x80, 0xBF)
      else if b = 0xF0 then Some (4, 0x90, 0xBF) else if b \<le> 0xF3 then Some (4, 0x80, 0xBF)
      else if b = 0xF4 then Some (4, 0x80, 0x8F) else None)"

text \<open>\<^verbatim>\<open>utf8.DecodeRune\<close>: the length of the encoded rune at the start, 0 when it is not valid.\<close>

definition runeLen :: "string \<Rightarrow> nat" where
  "runeLen s =
     (case s of [] \<Rightarrow> 0
      | c # cs \<Rightarrow>
          (case leadByte (byteOf c) of None \<Rightarrow> 0
           | Some (n, lo, hi) \<Rightarrow>
               if n = 1 \<or> n \<le> length s \<and> lo \<le> byteOf (cs ! 0) \<and> byteOf (cs ! 0) \<le> hi \<and>
                          list_all isTail (take (n - 1) cs)
               then n else 0))"

text \<open>\<^verbatim>\<open>utf8.AppendRune\<close>.\<close>

definition encodeRune :: "nat \<Rightarrow> string" where
  "encodeRune r =
     (if r < 0x80 then [char_of r]
      else if r < 0x800 then map char_of [0xC0 + r div 64, 0x80 + r mod 64]
      else if r < 0x10000 then map char_of [0xE0 + r div 4096, 0x80 + r div 64 mod 64, 0x80 + r mod 64]
      else map char_of [0xF0 + r div 262144, 0x80 + r div 4096 mod 64, 0x80 + r div 64 mod 64, 0x80 + r mod 64])"

definition replacement :: string where
  "replacement = [CHR 0xEF, CHR 0xBF, CHR 0xBD]"

lemma leadByte_len: "leadByte b = Some (n, lo, hi) \<Longrightarrow> 1 \<le> n \<and> n \<le> 4"
  by (auto simp: leadByte_def split: if_splits)

lemma leadByte_one: "leadByte b = Some (Suc 0, lo, hi) \<longleftrightarrow> b < 0x80 \<and> lo = 0 \<and> hi = 0"
  by (auto simp: leadByte_def)

lemma runeLen_le: "runeLen s \<le> length s"
  by (auto simp: runeLen_def split: list.splits option.splits)

lemma runeLen_Nil [simp]: "runeLen [] = 0"
  by (simp add: runeLen_def)

text \<open>The rune at the start depends on its own bytes only.\<close>

lemma runeLen_prefix:
  assumes "0 < runeLen s"
  shows "runeLen (take (runeLen s) s @ t) = runeLen s"
proof -
  obtain c cs n lo hi where s: "s = c # cs" and l: "leadByte (byteOf c) = Some (n, lo, hi)"
    and ok: "n = 1 \<or> n \<le> length s \<and> lo \<le> byteOf (cs ! 0) \<and> byteOf (cs ! 0) \<le> hi \<and> list_all isTail (take (n - 1) cs)"
    using assms by (auto simp: runeLen_def split: list.splits option.splits if_splits)
  have n: "runeLen s = n"
    using l ok by (simp add: runeLen_def s)
  obtain k where k: "n = Suc k"
    using leadByte_len [OF l] by (cases n) auto
  show ?thesis
  proof (cases "n = 1")
    case True
    then show ?thesis
      using l by (simp add: n, simp add: runeLen_def s)
  next
    case False
    then have "0 < k" "k \<le> length cs"
      using ok k s by auto
    then have "(take k cs @ t) ! 0 = cs ! 0" "take k (take k cs @ t) = take k cs"
      by (simp_all add: nth_append)
    then show ?thesis
      unfolding n using l ok False \<open>k \<le> length cs\<close> by (simp add: runeLen_def s k)
  qed
qed

section \<open>Strings\<close>

definition quote :: char where "quote = CHR 0x22"
definition backslash :: char where "backslash = CHR 0x5C"

definition escapeChar :: "char \<Rightarrow> string" where
  "escapeChar c =
     (let b = byteOf c in
      if c = quote \<or> c = backslash then [backslash, c]
      else if b = 8 then [backslash, CHR ''b''] else if b = 12 then [backslash, CHR ''f'']
      else if b = 10 then [backslash, CHR ''n''] else if b = 13 then [backslash, CHR ''r'']
      else if b = 9 then [backslash, CHR ''t'']
      else if b < 32 \<or> c = CHR ''<'' \<or> c = CHR ''>'' \<or> c = CHR ''&''
        then [backslash, CHR ''u'', CHR ''0'', CHR ''0'', hexDigit (b div 16), hexDigit (b mod 16)]
      else [c])"

text \<open>The body of a string literal.  U+2028 and U+2029 are escaped, invalid bytes become U+FFFD.\<close>

definition escapeRune :: "string \<Rightarrow> string" where
  "escapeRune r =
     (if r = [CHR 0xE2, CHR 0x80, CHR 0xA8] then backslash # ''u2028''
      else if r = [CHR 0xE2, CHR 0x80, CHR 0xA9] then backslash # ''u2029''
      else r)"

function escapeBody :: "string \<Rightarrow> string" where
  "escapeBody [] = []"
| "escapeBody (c # cs) =
     (if byteOf c < 0x80 then escapeChar c @ escapeBody cs
      else let n = runeLen (c # cs) in
        if n = 0 then (backslash # ''ufffd'') @ escapeBody cs
        else escapeRune (take n (c # cs)) @ escapeBody (drop n (c # cs)))"
  by pat_completeness auto
termination by (relation "measure length") auto

definition printString :: "string \<Rightarrow> string" where
  "printString s = quote # escapeBody s @ [quote]"

text \<open>The valid strings, and what decoding makes of the others.\<close>

function validUtf8 :: "string \<Rightarrow> bool" where
  "validUtf8 [] \<longleftrightarrow> True"
| "validUtf8 (c # cs) =
     (if runeLen (c # cs) = 0 then False else validUtf8 (drop (runeLen (c # cs)) (c # cs)))"
  by pat_completeness auto
termination by (relation "measure length") auto

definition unescapeChar :: "char \<Rightarrow> char option" where
  "unescapeChar e =
     (if e = quote \<or> e = backslash \<or> e = CHR ''/'' then Some e
      else if e = CHR ''b'' then Some (CHR 0x08) else if e = CHR ''f'' then Some (CHR 0x0C)
      else if e = CHR ''n'' then Some (CHR 0x0A) else if e = CHR ''r'' then Some (CHR 0x0D)
      else if e = CHR ''t'' then Some (CHR 0x09) else None)"

text \<open>\<^verbatim>\<open>getu4\<close> after the \<^verbatim>\<open>\u\<close>.\<close>

definition getu4 :: "string \<Rightarrow> nat option" where
  "getu4 s =
     (case s of a # b # c # d # _ \<Rightarrow>
        (case (hexVal a, hexVal b, hexVal c, hexVal d) of
           (Some a, Some b, Some c, Some d) \<Rightarrow> Some (4096 * a + 256 * b + 16 * c + d)
         | _ \<Rightarrow> None)
      | _ \<Rightarrow> None)"

text \<open>The second half of a surrogate pair, as \<^verbatim>\<open>\uXXXX\<close> at the start.\<close>

definition lowSurrogate :: "nat \<Rightarrow> string \<Rightarrow> nat option" where
  "lowSurrogate r1 s =
     (case s of x # u # t \<Rightarrow>
        if x = backslash \<and> u = CHR ''u'' then
          (case getu4 t of
             Some r2 \<Rightarrow> if 0xD800 \<le> r1 \<and> r1 < 0xDC00 \<and> 0xDC00 \<le> r2 \<and> r2 < 0xE000
                        then Some (0x10000 + (r1 - 0xD800) * 1024 + (r2 - 0xDC00)) else None
           | None \<Rightarrow> None)
        else None
      | _ \<Rightarrow> None)"

text \<open>Scanning and unquoting from behind the opening quote to behind the closing one.\<close>

definition consStr :: "string \<Rightarrow> (string \<times> string) option \<Rightarrow> (string \<times> string) option" where
  "consStr p r = (case r of Some (s, rest) \<Rightarrow> Some (p @ s, rest) | None \<Rightarrow> None)"

function parseStr :: "string \<Rightarrow> (string \<times> string) option" where
  "parseStr [] = None"
| "parseStr (c # cs) =
     (if c = quote then Some ([], cs)
      else if c = backslash then
        (case cs of [] \<Rightarrow> None
         | e # ds \<Rightarrow>
             if e = CHR ''u'' then
               (case getu4 ds of None \<Rightarrow> None
                | Some r \<Rightarrow>
                    if 0xD800 \<le> r \<and> r < 0xE000 then
                      (case lowSurrogate r (drop 4 ds) of
                         Some r \<Rightarrow> consStr (encodeRune r) (parseStr (drop 10 ds))
                       | None \<Rightarrow> consStr replacement (parseStr (drop 4 ds)))
                    else consStr (encodeRune r) (parseStr (drop 4 ds)))
             else (case unescapeChar e of Some x \<Rightarrow> consStr [x] (parseStr ds) | None \<Rightarrow> None))
      else if byteOf c < 32 then None
      else if byteOf c < 0x80 then consStr [c] (parseStr cs)
      else let n = runeLen (c # cs) in
        if n = 0 then consStr replacement (parseStr cs)
        else consStr (take n (c # cs)) (parseStr (drop n (c # cs))))"
  by pat_completeness auto
termination by (relation "measure length") auto

declare escapeBody.simps(2) [simp del] validUtf8.simps(2) [simp del] parseStr.simps(2) [simp del]

subsection \<open>Reading back what was written\<close>

lemma runeLen_ascii: "byteOf c < 0x80 \<Longrightarrow> runeLen (c # cs) = 1"
  by (simp add: runeLen_def leadByte_def)

lemma consStr_Some [simp]: "consStr p (Some (s, rest)) = Some (p @ s, rest)"
  by (simp add: consStr_def)

text \<open>The special characters by their codes.\<close>

lemma byteOf_inj: "byteOf c = byteOf d \<longleftrightarrow> c = d"
  by (simp add: byteOf_def)

lemma byteOf_consts: "byteOf quote = 34" "byteOf backslash = 92" "byteOf (CHR ''u'') = 117"
  "byteOf (CHR ''<'') = 60" "byteOf (CHR ''>'') = 62" "byteOf (CHR ''&'') = 38"
  by (simp_all add: byteOf_def quote_def backslash_def)

lemma char_of_byteOf: "char_of (byteOf c) = c"
  by (simp add: byteOf_def)

lemma parseStr_plain:
  assumes "c \<noteq> quote" "c \<noteq> backslash" "32 \<le> byteOf c" "byteOf c < 0x80"
  shows "parseStr (c # t) = consStr [c] (parseStr t)"
  using assms by (simp add: parseStr.simps(2))

lemma parseStr_escaped:
  assumes "unescapeChar e = Some x" "e \<noteq> CHR ''u''"
  shows "parseStr (backslash # e # t) = consStr [x] (parseStr t)"
  using assms by (simp add: parseStr.simps(2) quote_def backslash_def)

lemma parseStr_unicode:
  assumes "getu4 (a # b # c # d # t) = Some r" "\<not> (0xD800 \<le> r \<and> r < 0xE000)"
  shows "parseStr (backslash # CHR ''u'' # a # b # c # d # t) = consStr (encodeRune r) (parseStr t)"
  using assms by (auto simp: parseStr.simps(2) quote_def backslash_def)

lemma getu4_byte:
  assumes "b < 0x80"
  shows "getu4 (CHR ''0'' # CHR ''0'' # hexDigit (b div 16) # hexDigit (b mod 16) # t) = Some b"
proof -
  have "hexVal (CHR ''0'') = Some 0"
    by (simp add: hexVal_def)
  moreover have "b div 16 < 16"
    using assms by simp
  ultimately show ?thesis
    by (simp add: getu4_def hexVal_hexDigit)
qed

lemma parseStr_escapeChar:
  assumes "byteOf c < 0x80"
  shows "parseStr (escapeChar c @ t) = consStr [c] (parseStr t)"
proof -
  consider (self) "c = quote \<or> c = backslash"
    | (named) "byteOf c \<in> {8, 9, 10, 12, 13}"
    | (hex) "c \<noteq> quote" "c \<noteq> backslash" "byteOf c \<notin> {8, 9, 10, 12, 13}"
        "byteOf c < 32 \<or> c = CHR ''<'' \<or> c = CHR ''>'' \<or> c = CHR ''&''"
    | (plain) "c \<noteq> quote" "c \<noteq> backslash" "byteOf c \<notin> {8, 9, 10, 12, 13}"
        "\<not> (byteOf c < 32 \<or> c = CHR ''<'' \<or> c = CHR ''>'' \<or> c = CHR ''&'')"
    by blast
  then show ?thesis
  proof cases
    case self
    then show ?thesis
      using parseStr_escaped [of c c t] by (auto simp: escapeChar_def unescapeChar_def quote_def backslash_def)
  next
    case named
    moreover have "byteOf (CHR 0x08) = 8" "byteOf (CHR 0x09) = 9" "byteOf (CHR 0x0A) = 10"
      "byteOf (CHR 0x0C) = 12" "byteOf (CHR 0x0D) = 13"
      by (simp_all add: byteOf_def)
    ultimately have "c \<in> {CHR 0x08, CHR 0x09, CHR 0x0A, CHR 0x0C, CHR 0x0D}"
      using byteOf_inj by (metis empty_iff insert_iff)
    then show ?thesis
      by (elim insertE emptyE; hypsubst)
         (simp_all add: escapeChar_def byteOf_def quote_def backslash_def Let_def unescapeChar_def
           parseStr_escaped [unfolded backslash_def])
  next
    case hex
    then show ?thesis
      using parseStr_unicode [OF getu4_byte [OF assms]] assms
      by (simp add: escapeChar_def Let_def encodeRune_def char_of_byteOf)
  next
    case plain
    then show ?thesis
      using parseStr_plain [of c t] assms by (simp add: escapeChar_def Let_def)
  qed
qed

lemma parseStr_rune:
  assumes "0x80 \<le> byteOf c" "runeLen (c # cs) = n" "0 < n"
  shows "parseStr (take n (c # cs) @ t) = consStr (take n (c # cs)) (parseStr t)"
proof -
  obtain k where k: "n = Suc k"
    using assms(3) by (cases n) auto
  have whole: "runeLen (c # take k cs @ t) = n"
    using runeLen_prefix [of "c # cs" t] assms(2,3) by (simp add: k)
  have len: "k \<le> length cs"
    using runeLen_le [of "c # cs"] assms(2) by (simp add: k)
  have "c \<noteq> quote" "c \<noteq> backslash"
    using assms(1) byteOf_consts by auto
  moreover have "take n (c # take k cs @ t) = c # take k cs" "drop n (c # take k cs @ t) = t"
    using len by (simp_all add: k)
  ultimately have "parseStr (c # take k cs @ t) = consStr (c # take k cs) (parseStr t)"
    using assms(1) whole len by (subst parseStr.simps(2)) (simp add: k)
  then show ?thesis
    by (simp add: k)
qed

lemma parseStr_escapeRune:
  assumes "0x80 \<le> byteOf c" "runeLen (c # cs) = n" "0 < n"
  shows "parseStr (escapeRune (take n (c # cs)) @ t) = consStr (take n (c # cs)) (parseStr t)"
proof -
  have sep: "getu4 (CHR ''2'' # CHR ''0'' # CHR ''2'' # CHR ''8'' # t) = Some 0x2028"
    "getu4 (CHR ''2'' # CHR ''0'' # CHR ''2'' # CHR ''9'' # t) = Some 0x2029" for t
    by (simp_all add: getu4_def hexVal_def)
  have runes: "encodeRune 0x2028 = [CHR 0xE2, CHR 0x80, CHR 0xA8]" "encodeRune 0x2029 = [CHR 0xE2, CHR 0x80, CHR 0xA9]"
    by (simp_all add: encodeRune_def char_of_eq_iff)
  show ?thesis
    using parseStr_rune [OF assms] parseStr_unicode [OF sep(1)] parseStr_unicode [OF sep(2)]
    by (auto simp: escapeRune_def runes)
qed

text \<open>Every invalid byte replaced by U+FFFD.\<close>

function sanitize :: "string \<Rightarrow> string" where
  "sanitize [] = []"
| "sanitize (c # cs) =
     (let n = runeLen (c # cs) in
      if n = 0 then replacement @ sanitize cs else take n (c # cs) @ sanitize (drop n (c # cs)))"
  by pat_completeness auto
termination by (relation "measure length") auto

declare sanitize.simps(2) [simp del]

lemma sanitize_valid: "validUtf8 s \<Longrightarrow> sanitize s = s"
  by (induction s rule: validUtf8.induct)
     (simp_all add: validUtf8.simps(2) sanitize.simps(2) Let_def split: if_splits)

lemma parseStr_escapeBody: "parseStr (escapeBody s @ quote # rest) = Some (sanitize s, rest)"
proof (induction s rule: escapeBody.induct)
  case 1
  then show ?case
    by (simp add: parseStr.simps(2))
next
  case (2 c cs)
  have bad: "getu4 (CHR ''f'' # CHR ''f'' # CHR ''f'' # CHR ''d'' # t) = Some 0xFFFD" for t
    by (simp add: getu4_def hexVal_def)
  have repl: "encodeRune 0xFFFD = replacement"
    by (simp add: encodeRune_def replacement_def char_of_eq_iff)
  consider "byteOf c < 0x80" | "0x80 \<le> byteOf c" "runeLen (c # cs) = 0" | "0x80 \<le> byteOf c" "0 < runeLen (c # cs)"
    by linarith
  then show ?case
  proof cases
    case 1
    then show ?thesis
      using 2 by (simp add: escapeBody.simps(2) parseStr_escapeChar sanitize.simps(2) runeLen_ascii)
  next
    case 2
    then show ?thesis
      using "2.IH"(2) parseStr_unicode [OF bad]
      by (simp add: escapeBody.simps(2) sanitize.simps(2) repl)
  next
    case 3
    then show ?thesis
      using "2.IH"(3) parseStr_escapeRune [OF 3(1) refl 3(2)]
      by (simp add: escapeBody.simps(2) sanitize.simps(2) Let_def)
  qed
qed

lemma parse_printString:
  "validUtf8 s \<Longrightarrow> parseStr (tl (printString s) @ rest) = Some (s, rest)"
  by (simp add: printString_def parseStr_escapeBody sanitize_valid)


section \<open>Values\<close>

datatype json = JNull | JBool bool | JNum string | JStr string | JArr "json list" | JObj "(string \<times> json) list"

definition isSpace :: "char \<Rightarrow> bool" where
  "isSpace c \<longleftrightarrow> c = CHR 0x20 \<or> c = CHR 0x09 \<or> c = CHR 0x0D \<or> c = CHR 0x0A"

definition skipWs :: "string \<Rightarrow> string" where
  "skipWs s = dropWhile isSpace s"

text \<open>A number literal: sign, integer part, fraction, exponent.\<close>

definition scanInt :: "string \<Rightarrow> (string \<times> string) option" where
  "scanInt s =
     (case s of [] \<Rightarrow> None
      | c # t \<Rightarrow> if c = CHR ''0'' then Some ([c], t)
                  else if isDigit c then Some (takeWhile isDigit s, dropWhile isDigit s) else None)"

definition scanFrac :: "string \<Rightarrow> (string \<times> string) option" where
  "scanFrac s =
     (case s of c # t \<Rightarrow>
        if c = CHR ''.'' then
          (if takeWhile isDigit t = [] then None else Some (c # takeWhile isDigit t, dropWhile isDigit t))
        else Some ([], s)
      | [] \<Rightarrow> Some ([], []))"

definition scanExp :: "string \<Rightarrow> (string \<times> string) option" where
  "scanExp s =
     (case s of c # t \<Rightarrow>
        if c = CHR ''e'' \<or> c = CHR ''E'' then
          (let sign = (case t of x # _ \<Rightarrow> if x = CHR ''+'' \<or> x = CHR ''-'' then [x] else [] | [] \<Rightarrow> []);
               u = drop (length sign) t
           in if takeWhile isDigit u = [] then None
              else Some (c # sign @ takeWhile isDigit u, dropWhile isDigit u))
        else Some ([], s)
      | [] \<Rightarrow> Some ([], []))"

definition scanNumber :: "string \<Rightarrow> (string \<times> string) option" where
  "scanNumber s =
     (let sign = (case s of x # _ \<Rightarrow> if x = CHR ''-'' then [x] else [] | [] \<Rightarrow> []) in
      case scanInt (drop (length sign) s) of None \<Rightarrow> None
      | Some (i, s) \<Rightarrow>
          (case scanFrac s of None \<Rightarrow> None
           | Some (f, s) \<Rightarrow>
               (case scanExp s of None \<Rightarrow> None | Some (e, s) \<Rightarrow> Some (sign @ i @ f @ e, s))))"

definition scanWord :: "string \<Rightarrow> 'a \<Rightarrow> string \<Rightarrow> ('a \<times> string) option" where
  "scanWord w v s = (if take (length w) s = w then Some (v, drop (length w) s) else None)"

text \<open>
  The recursive descent, as one function with a mode: a value, the rest of an array after some
  elements, the rest of an object after some members.  Nesting is limited to \<^verbatim>\<open>maxNestingDepth\<close>.
\<close>

datatype pmode = PValue | PElems "json list" | PMembers "(string \<times> json) list"

definition maxNestingDepth :: int where "maxNestingDepth = 10000"

fun modeRank :: "pmode \<Rightarrow> nat" where
  "modeRank PValue = 0" | "modeRank m = 1"

function parseJson :: "int \<Rightarrow> pmode \<Rightarrow> string \<Rightarrow> (json \<times> string) option" where
  "parseJson d PValue s =
     (case skipWs s of [] \<Rightarrow> None
      | c # t \<Rightarrow>
          if c = CHR ''{'' then
            (if d \<ge> maxNestingDepth then None
             else if take 1 (skipWs t) = ''}'' then Some (JObj [], drop 1 (skipWs t))
             else parseJson (d + 1) (PMembers []) t)
          else if c = CHR ''['' then
            (if d \<ge> maxNestingDepth then None
             else if take 1 (skipWs t) = '']'' then Some (JArr [], drop 1 (skipWs t))
             else parseJson (d + 1) (PElems []) t)
          else if c = quote then map_option (map_prod JStr id) (parseStr t)
          else if c = CHR ''t'' then scanWord ''true'' (JBool True) (c # t)
          else if c = CHR ''f'' then scanWord ''false'' (JBool False) (c # t)
          else if c = CHR ''n'' then scanWord ''null'' JNull (c # t)
          else map_option (map_prod JNum id) (scanNumber (c # t)))"
| "parseJson d (PElems acc) s =
     (case parseJson d PValue s of None \<Rightarrow> None
      | Some (v, r) \<Rightarrow>
          (case skipWs r of [] \<Rightarrow> None
           | c # t \<Rightarrow>
               if c = CHR '','' then parseJson d (PElems (acc @ [v])) t
               else if c = CHR '']'' then Some (JArr (acc @ [v]), t) else None))"
| "parseJson d (PMembers acc) s =
     (case skipWs s of [] \<Rightarrow> None
      | q # t \<Rightarrow>
          if q \<noteq> quote then None
          else (case parseStr t of None \<Rightarrow> None
           | Some (k, r) \<Rightarrow>
               (case skipWs r of [] \<Rightarrow> None
                | c # u \<Rightarrow>
                    if c \<noteq> CHR '':'' then None
                    else (case parseJson d PValue u of None \<Rightarrow> None
                     | Some (v, r) \<Rightarrow>
                         (case skipWs r of [] \<Rightarrow> None
                          | c # t \<Rightarrow>
                              if c = CHR '','' then parseJson d (PMembers (acc @ [(k, v)])) t
                              else if c = CHR ''}'' then Some (JObj (acc @ [(k, v)]), t) else None)))))"
  by pat_completeness auto

lemma skipWs_le: "length (skipWs s) \<le> length s"
  by (simp add: skipWs_def length_dropWhile_le)

lemma skipWs_Cons: "skipWs s = c # t \<Longrightarrow> length t < length s"
  using skipWs_le [of s] by simp

lemma consStr_SomeD: "consStr p q = Some (x, r) \<Longrightarrow> \<exists>y. q = Some (y, r)"
  by (auto simp: consStr_def split: option.splits)

lemma parseStr_shorter: "parseStr s = Some (x, r) \<Longrightarrow> length r < length s"
proof (induction s arbitrary: x rule: length_induct)
  case (1 s)
  have IH: "parseStr t = Some (y, r) \<Longrightarrow> length t < length s \<Longrightarrow> length r < length s" for t y
    using 1(1) by (meson less_trans)
  obtain c cs where s: "s = c # cs"
    using 1(2) by (cases s) auto
  have n: "Suc (length cs) - runeLen (c # cs) < Suc (length cs)" if "runeLen (c # cs) \<noteq> 0"
    using that by simp
  show ?case
    using 1(2) n unfolding s parseStr.simps(2) Let_def
    by (auto simp: s split: if_splits list.splits option.splits dest!: consStr_SomeD IH)
qed

lemma scanNumber_shorter:
  assumes "scanNumber s = Some (l, r)"
  shows "length r < length s"
proof -
  have drop: "length (dropWhile isDigit t) \<le> length t" for t
    by (rule length_dropWhile_le)
  have int: "length r < length t" if "scanInt t = Some (l, r)" for t l r
    using that drop [of t]
    by (auto simp: scanInt_def less_Suc_eq_le length_dropWhile_le split: list.splits if_splits)
  have frac: "length r \<le> length t" if "scanFrac t = Some (l, r)" for t l r
    using that drop by (auto simp: scanFrac_def intro: le_SucI split: list.splits if_splits)
  have exp: "length r \<le> length t" if "scanExp t = Some (l, r)" for t l r
    using that by (auto simp: scanExp_def Let_def length_dropWhile_le intro: le_SucI order_trans [OF drop]
        split: list.splits if_splits)
  show ?thesis
    using assms
    by (auto simp: scanNumber_def Let_def split: option.splits prod.splits list.splits if_splits
        dest!: int frac exp)
qed

lemma scanWord_shorter: "scanWord w v s = Some (x, r) \<Longrightarrow> w \<noteq> [] \<Longrightarrow> s \<noteq> [] \<Longrightarrow> length r < length s"
  by (cases s; cases w) (auto simp: scanWord_def split: if_splits)

lemma parseJson_shorter_dom:
  assumes "parseJson_dom (d, m, s)" "parseJson d m s = Some (v, r)"
  shows "length r < length s"
  using assms
proof (induction arbitrary: v r rule: parseJson.pinduct)
  case (1 d s)
  obtain c t where sk: "skipWs s = c # t"
    using 1(4) by (cases "skipWs s") (simp_all add: parseJson.psimps(1) [OF 1(1)])
  have lt: "length t < length s" "length (skipWs t) \<le> length t" "length (c # t) \<le> length s"
    using skipWs_Cons [OF sk] skipWs_le by auto
  note eq = 1(4) [unfolded parseJson.psimps(1) [OF 1(1)] sk list.case]
  note IH = 1(2,3) [OF sk]
  consider "c = CHR ''{''" | "c = CHR ''[''" | "c = quote" | "c \<notin> {CHR ''{'', CHR ''['', quote}"
    by blast
  then show ?case
  proof cases
    case 1
    then show ?thesis
      using eq lt IH(1) by (fastforce split: if_splits)
  next
    case 2
    then show ?thesis
      using eq lt IH(2) by (fastforce split: if_splits)
  next
    case 3
    then show ?thesis
      using eq lt by (auto simp: quote_def dest!: parseStr_shorter)
  next
    case 4
    then show ?thesis
      using eq lt by (auto split: if_splits dest!: scanNumber_shorter scanWord_shorter)
  qed
next
  case (2 d acc s)
  obtain v1 r1 where p: "parseJson d PValue s = Some (v1, r1)"
    using 2(4) by (cases "parseJson d PValue s") (auto simp: parseJson.psimps(2) [OF 2(1)])
  have l1: "length r1 < length s"
    using 2(2) [OF p] .
  obtain c t where sk: "skipWs r1 = c # t"
    using 2(4) p by (cases "skipWs r1") (simp_all add: parseJson.psimps(2) [OF 2(1)])
  have "length t < length s"
    using skipWs_Cons [OF sk] l1 by simp
  then show ?case
    using 2(4) p sk 2(3) [OF p refl sk]
    by (fastforce simp: parseJson.psimps(2) [OF 2(1)] split: if_splits)
next
  case (3 d acc s)
  note eq = 3(4) [unfolded parseJson.psimps(3) [OF 3(1)]]
  obtain t where sk: "skipWs s = quote # t"
    using eq by (auto split: list.splits if_splits)
  obtain k r1 where st: "parseStr t = Some (k, r1)"
    using eq sk by (auto split: option.splits)
  obtain u where co: "skipWs r1 = CHR '':'' # u"
    using eq sk st by (auto split: list.splits if_splits)
  obtain v1 r2 where va: "parseJson d PValue u = Some (v1, r2)"
    using eq sk st co by (auto split: option.splits)
  obtain c t2 where sk2: "skipWs r2 = c # t2"
    using eq sk st co va by (auto split: list.splits)
  have "length r2 < length u"
    using 3(2) [OF sk _ st refl co _ va] by simp
  then have "length t2 < length s"
    using skipWs_Cons [OF sk] parseStr_shorter [OF st] skipWs_Cons [OF co] skipWs_Cons [OF sk2] by linarith
  then show ?case
    using eq sk st co va sk2 3(3) [OF sk _ st refl co _ va refl sk2]
    by (fastforce split: if_splits)
qed

termination parseJson
proof (relation "measure (\<lambda>(d, m, s). 2 * length s + modeRank m)")
qed (auto dest!: skipWs_Cons parseStr_shorter parseJson_shorter_dom)

section \<open>Printing values\<close>

text \<open>The compact form that \<^verbatim>\<open>json.Marshal\<close> produces.\<close>

fun printJson :: "json \<Rightarrow> string" where
  "printJson JNull = ''null''"
| "printJson (JBool b) = (if b then ''true'' else ''false'')"
| "printJson (JNum l) = l"
| "printJson (JStr s) = printString s"
| "printJson (JArr xs) = ''['' @ joinWith '','' (map printJson xs) @ '']''"
| "printJson (JObj ms) = ''{'' @ joinWith '','' (map (\<lambda>(k, v). printString k @ '':'' @ printJson v) ms) @ ''}''"

fun depthOf :: "json \<Rightarrow> int" where
  "depthOf (JArr xs) = 1 + foldr max (map depthOf xs) 0"
| "depthOf (JObj ms) = 1 + foldr max (map (\<lambda>(k, v). depthOf v) ms) 0"
| "depthOf v = 0"

text \<open>Values whose numbers are integer literals; and what becomes of a value on the wire.\<close>

definition numLit :: "string \<Rightarrow> bool" where
  "numLit l \<longleftrightarrow> (\<exists>n. l = formatUint n \<or> l = CHR ''-'' # formatUint n)"

fun json_ok :: "json \<Rightarrow> bool" where
  "json_ok JNull = True" | "json_ok (JBool b) = True"
| "json_ok (JNum l) = numLit l"
| "json_ok (JStr s) = True"
| "json_ok (JArr xs) = (\<forall>x\<in>set xs. json_ok x)"
| "json_ok (JObj ms) = (\<forall>(k, v)\<in>set ms. json_ok v)"

fun sanitizeJson :: "json \<Rightarrow> json" where
  "sanitizeJson (JStr s) = JStr (sanitize s)"
| "sanitizeJson (JArr xs) = JArr (map sanitizeJson xs)"
| "sanitizeJson (JObj ms) = JObj (map (\<lambda>(k, v). (sanitize k, sanitizeJson v)) ms)"
| "sanitizeJson JNull = JNull"
| "sanitizeJson (JBool b) = JBool b"
| "sanitizeJson (JNum l) = JNum l"

lemma sanitizeJson_null [simp]: "sanitizeJson v = JNull \<longleftrightarrow> v = JNull"
  by (cases v) simp_all


end
