(* ===== verification/Json_Read.thy ===== *)
theory Json_Read
  imports Json
begin

text \<open>
  The text that \<^verbatim>\<open>json.Marshal\<close> writes is the text \<^verbatim>\<open>json.Unmarshal\<close> reads: a value printed by
  \<open>printJson\<close> parses back to itself, up to the bytes that are not UTF-8, and its text holds no line break, so one line of the control
  channel holds one message.
\<close>

section \<open>Reading back what was printed\<close>

declare parseJson.simps [simp del]

lemma formatUint_head: "\<exists>c t. formatUint n = c # t \<and> isDigit c \<and> (c = CHR ''0'' \<longrightarrow> n = 0 \<and> t = [])"
proof (induction n rule: formatUint.induct)
  case (1 n)
  show ?case
  proof (cases "n < 10")
    case True
    then have "formatUint n = [digitChar n]" "digitVal (digitChar n) = n"
      by (simp_all add: formatUint.simps)
    then show ?thesis
      using True by (auto simp: digitVal_def)
  next
    case False
    then obtain c t where "formatUint (n div 10) = c # t" "isDigit c" "c \<noteq> CHR ''0''"
      using 1 by fastforce
    then show ?thesis
      using False by (subst formatUint.simps) simp
  qed
qed

text \<open>What may follow a number.\<close>

definition stops :: "string \<Rightarrow> bool" where
  "stops rest \<longleftrightarrow> (case rest of [] \<Rightarrow> True | c # _ \<Rightarrow> \<not> isDigit c \<and> c \<noteq> CHR ''.'' \<and> c \<noteq> CHR ''e'' \<and> c \<noteq> CHR ''E'')"

lemma scan_digits:
  assumes "list_all isDigit s" "stops rest"
  shows "takeWhile isDigit (s @ rest) = s" "dropWhile isDigit (s @ rest) = rest"
proof -
  have "takeWhile isDigit rest = []" "dropWhile isDigit rest = rest"
    using assms(2) by (auto simp: stops_def split: list.splits)
  then show "takeWhile isDigit (s @ rest) = s" "dropWhile isDigit (s @ rest) = rest"
    using assms(1) by (simp_all add: list_all_iff takeWhile_append2 dropWhile_append2)
qed

lemma scanInt_formatUint: "stops rest \<Longrightarrow> scanInt (formatUint n @ rest) = Some (formatUint n, rest)"
  using formatUint_head [of n] scan_digits [OF formatUint_digits, of rest n]
  by (auto simp: scanInt_def)

lemma scanFracExp_stops: "stops rest \<Longrightarrow> scanFrac rest = Some ([], rest)" "stops rest \<Longrightarrow> scanExp rest = Some ([], rest)"
  by (auto simp: stops_def scanFrac_def scanExp_def split: list.splits)

lemma not_minus: "isDigit c \<Longrightarrow> c \<noteq> CHR ''-''"
  by (auto simp: isDigit_def)

lemma scanNumber_numLit:
  assumes "numLit l" "stops rest"
  shows "scanNumber (l @ rest) = Some (l, rest)"
proof -
  obtain n where "l = formatUint n \<or> l = CHR ''-'' # formatUint n"
    using assms(1) by (auto simp: numLit_def)
  then show ?thesis
    using formatUint_head [of n] scanInt_formatUint [OF assms(2), of n] scanFracExp_stops [OF assms(2)]
    by (auto simp: scanNumber_def dest: not_minus)
qed

lemma numLit_head: "numLit l \<Longrightarrow> \<exists>c t. l = c # t \<and> (isDigit c \<or> c = CHR ''-'')"
  using formatUint_head by (fastforce simp: numLit_def)

lemma digit_distinct:
  assumes "isDigit c \<or> c = CHR ''-''"
  shows "\<not> isSpace c" "c \<noteq> CHR ''{''" "c \<noteq> CHR ''[''" "c \<noteq> CHR '']''" "c \<noteq> CHR ''}''" "c \<noteq> quote" "c \<noteq> CHR ''t''" "c \<noteq> CHR ''f''"
    "c \<noteq> CHR ''n''"
  using assms by (auto simp: isDigit_def isSpace_def quote_def)

lemma printJson_head:
  "json_ok v \<Longrightarrow> \<exists>c t. printJson v = c # t \<and> \<not> isSpace c \<and> c \<noteq> CHR '']'' \<and> c \<noteq> CHR ''}''"
  by (cases v) (auto simp: isSpace_def isDigit_def printString_def quote_def dest!: numLit_head)

lemma skipWs_head: "\<not> isSpace c \<Longrightarrow> skipWs (c # t) = c # t"
  by (simp add: skipWs_def)

lemma skipWs_print: "json_ok v \<Longrightarrow> skipWs (printJson v @ t) = printJson v @ t"
  using printJson_head [of v] by (auto simp: skipWs_head)

text \<open>The lists inside brackets and braces, given that each value reads back.\<close>

definition readsBack :: "int \<Rightarrow> json \<Rightarrow> bool" where
  "readsBack d v \<longleftrightarrow> (\<forall>rest. stops rest \<longrightarrow> parseJson d PValue (printJson v @ rest) = Some (sanitizeJson v, rest))"

lemma punctuation: "\<not> isSpace (CHR '','')" "\<not> isSpace (CHR '']'')" "\<not> isSpace (CHR ''}'')" "\<not> isSpace (CHR '':'')"
  "\<not> isSpace quote" "stops (CHR '','' # t)" "stops (CHR '']'' # t)" "stops (CHR ''}'' # t)"
  by (simp_all add: isSpace_def stops_def isDigit_def quote_def)

lemma parse_elems:
  assumes "\<forall>x\<in>set xs. readsBack d x" "xs \<noteq> []"
  shows "parseJson d (PElems acc) (joinWith '','' (map printJson xs) @ CHR '']'' # rest) = Some (JArr (acc @ map sanitizeJson xs), rest)"
  using assms
proof (induction xs arbitrary: acc)
  case (Cons x xs)
  show ?case
  proof (cases xs)
    case Nil
    then show ?thesis
      using Cons.prems by (simp add: parseJson.simps(2) readsBack_def punctuation skipWs_head)
  next
    case (Cons y ys)
    then show ?thesis
      using Cons.prems Cons.IH [of "acc @ [sanitizeJson x]"]
      by (simp add: parseJson.simps(2) readsBack_def punctuation skipWs_head)
  qed
qed simp

lemma parse_members:
  assumes "\<forall>(k, v)\<in>set ms. readsBack d v" "ms \<noteq> []"
  shows "parseJson d (PMembers acc) (joinWith '','' (map (\<lambda>(k, v). printString k @ '':'' @ printJson v) ms) @ CHR ''}'' # rest)
    = Some (JObj (acc @ map (\<lambda>(k, v). (sanitize k, sanitizeJson v)) ms), rest)"
  using assms
proof (induction ms arbitrary: acc)
  case (Cons m ms)
  obtain k v where m: "m = (k, v)"
    by fastforce
  have kv: "readsBack d v"
    using Cons.prems m by auto
  have key: "parseStr (escapeBody k @ quote # t) = Some (sanitize k, t)" for t
    by (simp add: parseStr_escapeBody)
  show ?case
  proof (cases ms)
    case Nil
    then show ?thesis
      using kv by (simp add: m parseJson.simps(3) printString_def key readsBack_def punctuation skipWs_head)
  next
    case (Cons y ys)
    then show ?thesis
      using kv Cons.prems Cons.IH [of "acc @ [(sanitize k, sanitizeJson v)]"]
      by (simp add: m parseJson.simps(3) printString_def key readsBack_def punctuation skipWs_head)
  qed
qed simp

lemma foldr_max_le: "foldr max xs (0 :: int) \<le> b \<Longrightarrow> x \<in> set xs \<Longrightarrow> x \<le> b"
  by (induction xs) auto

lemma foldr_max_nonneg: "0 \<le> foldr max xs (0 :: int)"
  by (induction xs) auto

lemma parse_print_value:
  "json_ok v \<Longrightarrow> d + depthOf v \<le> maxNestingDepth \<Longrightarrow> readsBack d v"
proof (induction v arbitrary: d rule: printJson.induct)
  case (3 l)
  then show ?case
    using numLit_head [of l]
    by (auto simp: readsBack_def parseJson.simps(1) skipWs_head digit_distinct scanNumber_numLit [of "_ # _", simplified])
next
  case (4 s)
  then show ?case
    by (simp add: readsBack_def parseJson.simps(1) printString_def skipWs_head punctuation parseStr_escapeBody) (simp add: quote_def)
next
  case (5 xs)
  have d: "d < maxNestingDepth" "\<forall>x\<in>set xs. readsBack (d + 1) x"
  proof -
    have "d + 1 + depthOf x \<le> maxNestingDepth" if "x \<in> set xs" for x
      using foldr_max_le [of "map depthOf xs" "maxNestingDepth - d - 1" "depthOf x"] 5(3) that by simp
    then show "\<forall>x\<in>set xs. readsBack (d + 1) x"
      using 5(1,2) by simp
    show "d < maxNestingDepth"
      using 5(3) foldr_max_nonneg [of "map depthOf xs"] by simp
  qed
  show ?case
  proof (cases xs)
    case Nil
    then show ?thesis
      using d(1) by (simp add: readsBack_def parseJson.simps(1) skipWs_def isSpace_def)
  next
    case (Cons x ys)
    then obtain c t where "joinWith '','' (map printJson xs) = c # t" "\<not> isSpace c" "c \<noteq> CHR '']''"
      using printJson_head [of x] 5(2) by (cases ys) auto
    then have "take (Suc 0) (skipWs (joinWith '','' (map printJson xs) @ u)) \<noteq> '']''" for u
      by (simp add: skipWs_head)
    then show ?thesis
      using d parse_elems [OF d(2), of "[]"] Cons
      by (simp add: readsBack_def parseJson.simps(1) skipWs_head isSpace_def)
  qed
next
  case (6 ms)
  have d: "d < maxNestingDepth" "\<forall>(k, v)\<in>set ms. readsBack (d + 1) v"
  proof -
    have "d + 1 + depthOf v \<le> maxNestingDepth" if "(k, v) \<in> set ms" for k v
      using foldr_max_le [of "map (\<lambda>(k, v). depthOf v) ms" "maxNestingDepth - d - 1" "depthOf v"] 6(3) that
      by force
    then show "\<forall>(k, v)\<in>set ms. readsBack (d + 1) v"
      using 6(1,2) by fastforce
    show "d < maxNestingDepth"
      using 6(3) foldr_max_nonneg [of "map (\<lambda>(k, v). depthOf v) ms"] by simp
  qed
  show ?case
  proof (cases ms)
    case Nil
    then show ?thesis
      using d(1) by (simp add: readsBack_def parseJson.simps(1) skipWs_def isSpace_def)
  next
    case (Cons x ys)
    let ?txt = "joinWith '','' (map (\<lambda>(k, v). printString k @ '':'' @ printJson v) ms)"
    obtain t where "?txt = quote # t"
      using Cons by (cases x; cases ys) (auto simp: printString_def)
    then have "take (Suc 0) (skipWs (?txt @ u)) \<noteq> ''}''" for u
      by (simp add: skipWs_head punctuation) (simp add: quote_def)
    then show ?thesis
      using d parse_members [OF d(2), of "[]"] Cons
      by (simp add: readsBack_def parseJson.simps(1) skipWs_head isSpace_def)
  qed
qed (auto simp: readsBack_def parseJson.simps(1) skipWs_def isSpace_def quote_def scanWord_def)

section \<open>Messages\<close>

datatype json_err = JsonSyntax | JsonType

text \<open>The text of one value, with nothing but white space around it.\<close>

definition parseText :: "string \<Rightarrow> json_err + json" where
  "parseText s =
     (case parseJson 0 PValue s of
        Some (v, r) \<Rightarrow> if skipWs r = [] then Inr v else Inl JsonSyntax
      | None \<Rightarrow> Inl JsonSyntax)"

lemma parseText_print:
  assumes "json_ok v" "depthOf v \<le> maxNestingDepth"
  shows "parseText (printJson v @ [CHR 0x0A]) = Inr (sanitizeJson v)"
proof -
  have "stops [CHR 0x0A]"
    by (simp add: stops_def isDigit_def)
  then show ?thesis
    using parse_print_value [of v 0] assms
    by (simp add: parseText_def readsBack_def skipWs_def isSpace_def)
qed

text \<open>The printed form of such a value has no line break in it.\<close>

lemma newline_not_digit: "isDigit c \<Longrightarrow> c \<noteq> CHR 0x0A"
  by (auto simp: isDigit_def)

lemma escapeChar_no_newline: "byteOf c < 0x80 \<Longrightarrow> CHR 0x0A \<notin> set (escapeChar c)"
proof -
  assume c: "byteOf c < 0x80"
  have hex: "hexDigit n \<noteq> CHR 0x0A" if "n < 16" for n
    using hexVal_hexDigit [OF that] by (auto simp: hexVal_def)
  have h: "CHR 0x0A \<noteq> hexDigit (byteOf c div 16)" "CHR 0x0A \<noteq> hexDigit (byteOf c mod 16)"
    using c hex [of "byteOf c div 16"] hex [of "byteOf c mod 16"] by (simp_all add: eq_commute [of "CHR 0x0A"])
  have n: "byteOf c \<noteq> 10 \<Longrightarrow> CHR 0x0A \<noteq> c"
    by (auto simp: byteOf_def)
  have q: "CHR 0x0A \<noteq> quote" "CHR 0x0A \<noteq> backslash"
    by (simp_all add: quote_def backslash_def)
  show ?thesis
  proof (cases "c = quote \<or> c = backslash")
    case True
    then show ?thesis
      using q by (auto simp: escapeChar_def)
  next
    case False
    then show ?thesis
      using h n q by (simp add: escapeChar_def Let_def)
  qed
qed

lemma rune_no_newline:
  assumes "0x80 \<le> byteOf c" "0 < runeLen (c # cs)"
  shows "CHR 0x0A \<notin> set (take (runeLen (c # cs)) (c # cs))"
proof -
  have nl: "byteOf (CHR 0x0A) = 10"
    by (simp add: byteOf_def)
  obtain n lo hi where l: "leadByte (byteOf c) = Some (n, lo, hi)" "runeLen (c # cs) = n"
    "n \<noteq> 1 \<longrightarrow> list_all isTail (take (n - 1) cs)"
    using assms(2) by (auto simp: runeLen_def split: option.splits if_splits)
  have "n \<noteq> 1"
    using l(1) assms(1) leadByte_one [of "byteOf c"] by auto
  then have "\<forall>x\<in>set (take (n - 1) cs). isTail x"
    using l(3) by (simp add: list_all_iff)
  moreover have "\<not> isTail (CHR 0x0A)" "c \<noteq> CHR 0x0A"
    using assms(1) nl by (auto simp: isTail_def)
  ultimately show ?thesis
    using l(2) by (cases n) auto
qed

lemma escapeBody_no_newline: "CHR 0x0A \<notin> set (escapeBody s)"
proof (induction s rule: escapeBody.induct)
  case (2 c cs)
  have "CHR 0x0A \<notin> set (escapeRune r)" if "CHR 0x0A \<notin> set r" for r
    using that by (simp add: escapeRune_def backslash_def)
  then show ?case
    using 2 escapeChar_no_newline [of c] rune_no_newline [of c cs]
    by (auto simp: escapeBody.simps(2) Let_def not_less backslash_def)
qed simp

lemma joinWith_set: "set (joinWith sep xs) \<subseteq> set sep \<union> \<Union> (set ` set xs)"
  by (induction sep xs rule: joinWith.induct) auto

lemma printString_no_newline: "CHR 0x0A \<notin> set (printString s)"
  using escapeBody_no_newline [of s] by (simp add: printString_def quote_def)

lemma printJson_no_newline: "json_ok v \<Longrightarrow> CHR 0x0A \<notin> set (printJson v)"
proof (induction v rule: printJson.induct)
  case (3 l)
  then obtain n where "l = formatUint n \<or> l = CHR ''-'' # formatUint n"
    by (auto simp: numLit_def)
  then show ?case
    using formatUint_digits [of n] newline_not_digit [of "CHR 0x0A"] by (auto simp: list_all_iff)
next
  case (4 s)
  then show ?case
    using printString_no_newline by simp
next
  case (5 xs)
  then have "CHR 0x0A \<notin> set '','' \<union> \<Union> (set ` set (map printJson xs))"
    by simp
  then show ?case
    using joinWith_set [of "'',''" "map printJson xs"] by (simp only: printJson.simps) fastforce
next
  case (6 ms)
  let ?f = "\<lambda>(k, v). printString k @ '':'' @ printJson v"
  have "CHR 0x0A \<notin> set (?f m)" if "m \<in> set ms" for m
    using 6 that printString_no_newline by (cases m) fastforce
  then have "CHR 0x0A \<notin> set '','' \<union> \<Union> (set ` set (map ?f ms))"
    by simp
  then show ?case
    using joinWith_set [of "'',''" "map ?f ms"] by (simp only: printJson.simps) fastforce
qed auto

end
