(* ===== verification/Json_Struct.thy ===== *)
theory Json_Struct
  imports Json_Read
begin

text \<open>
  How \<^verbatim>\<open>encoding/json\<close> maps the Go types of \<^verbatim>\<open>src/control/proto.go\<close> to values and back: strings,
  booleans, integers at their width, pointers, slices and structs with their tags.  Decoding is
  onto an existing value, as \<^verbatim>\<open>json.Unmarshal\<close> does it: \<^verbatim>\<open>null\<close> leaves a scalar or a struct as it is and
  clears a pointer or a slice, a member that occurs twice decodes onto the first occurrence, and
  an unknown member is skipped.  A type error ends the decoding here; Go decodes on and reports the
  first error at the end, with the same verdict.  Elements that an earlier occurrence of a slice
  left beyond its length are taken as zero.
\<close>

section \<open>Codecs\<close>

text \<open>A value of a Go type as JSON, the decoding onto an old value, and what \<^verbatim>\<open>omitempty\<close> leaves out.\<close>

record 'a codec =
  cEnc :: "'a \<Rightarrow> json"
  cDec :: "json \<Rightarrow> 'a \<Rightarrow> json_err + 'a"
  cEmpty :: "'a \<Rightarrow> bool"

definition stringC :: "string codec" where
  "stringC = \<lparr>cEnc = JStr,
     cDec = (\<lambda>j old. case j of JStr s \<Rightarrow> Inr s | JNull \<Rightarrow> Inr old | _ \<Rightarrow> Inl JsonType),
     cEmpty = (\<lambda>s. s = [])\<rparr>"

definition boolC :: "bool codec" where
  "boolC = \<lparr>cEnc = JBool,
     cDec = (\<lambda>j old. case j of JBool b \<Rightarrow> Inr b | JNull \<Rightarrow> Inr old | _ \<Rightarrow> Inl JsonType),
     cEmpty = Not\<rparr>"

text \<open>Integers: \<^verbatim>\<open>strconv.ParseUint\<close> and \<^verbatim>\<open>ParseInt\<close> on the literal.\<close>

definition intLit :: "int \<Rightarrow> string" where
  "intLit i = (if i < 0 then CHR ''-'' # formatUint (nat (- i)) else formatUint (nat i))"

definition parseInt64 :: "string \<Rightarrow> int option" where
  "parseInt64 l =
     (if take 1 l = ''-'' then map_option (\<lambda>n. - int n) (parseUint (2 ^ 63 + 1) (drop 1 l))
      else map_option int (parseUint (2 ^ 63) l))"

definition numC :: "('a \<Rightarrow> string) \<Rightarrow> (string \<Rightarrow> 'a option) \<Rightarrow> ('a \<Rightarrow> bool) \<Rightarrow> 'a codec" where
  "numC put get isZero = \<lparr>cEnc = (\<lambda>x. JNum (put x)),
     cDec = (\<lambda>j old. case j of
        JNum l \<Rightarrow> (case get l of Some x \<Rightarrow> Inr x | None \<Rightarrow> Inl JsonType)
      | JNull \<Rightarrow> Inr old | _ \<Rightarrow> Inl JsonType),
     cEmpty = isZero\<rparr>"

definition uint64C :: "u64 codec" where
  "uint64C = numC (\<lambda>w. formatUint (unat w)) (\<lambda>l. map_option of_nat (parseUint (2 ^ 64) l)) (\<lambda>w. w = 0)"

definition int64C :: "i64 codec" where
  "int64C = numC (\<lambda>w. intLit (sint w)) (\<lambda>l. map_option of_int (parseInt64 l)) (\<lambda>w. w = 0)"

text \<open>Pointers, slices that are always sent with \<^verbatim>\<open>omitempty\<close>, and slices where nil shows.\<close>

definition pointerC :: "'a \<Rightarrow> 'a codec \<Rightarrow> 'a option codec" where
  "pointerC zero C = \<lparr>cEnc = (\<lambda>p. case p of None \<Rightarrow> JNull | Some x \<Rightarrow> cEnc C x),
     cDec = (\<lambda>j old. if j = JNull then Inr None
        else (case cDec C j (case old of None \<Rightarrow> zero | Some x \<Rightarrow> x) of
                Inl e \<Rightarrow> Inl e | Inr x \<Rightarrow> Inr (Some x))),
     cEmpty = (\<lambda>p. p = None)\<rparr>"

fun decElems :: "'a \<Rightarrow> 'a codec \<Rightarrow> json list \<Rightarrow> 'a list \<Rightarrow> json_err + 'a list" where
  "decElems zero C [] old = Inr []"
| "decElems zero C (j # js) old =
     (case cDec C j (case old of [] \<Rightarrow> zero | x # _ \<Rightarrow> x) of Inl e \<Rightarrow> Inl e
      | Inr x \<Rightarrow> (case decElems zero C js (tl old) of Inl e \<Rightarrow> Inl e | Inr xs \<Rightarrow> Inr (x # xs)))"

definition sliceC :: "'a \<Rightarrow> 'a codec \<Rightarrow> 'a list codec" where
  "sliceC zero C = \<lparr>cEnc = (\<lambda>xs. JArr (map (cEnc C) xs)),
     cDec = (\<lambda>j old. case j of JArr js \<Rightarrow> decElems zero C js old | JNull \<Rightarrow> Inr [] | _ \<Rightarrow> Inl JsonType),
     cEmpty = (\<lambda>xs. xs = [])\<rparr>"

definition nilSliceC :: "'a \<Rightarrow> 'a codec \<Rightarrow> 'a list option codec" where
  "nilSliceC zero C = \<lparr>cEnc = (\<lambda>s. case s of None \<Rightarrow> JNull | Some xs \<Rightarrow> JArr (map (cEnc C) xs)),
     cDec = (\<lambda>j old. case j of
        JArr js \<Rightarrow> (case decElems zero C js (case old of None \<Rightarrow> [] | Some xs \<Rightarrow> xs) of
                      Inl e \<Rightarrow> Inl e | Inr xs \<Rightarrow> Inr (Some xs))
      | JNull \<Rightarrow> Inr None | _ \<Rightarrow> Inl JsonType),
     cEmpty = (\<lambda>s. s = None \<or> s = Some [])\<rparr>"

section \<open>Structs\<close>

record 'r field =
  fName :: string
  fEnc :: "'r \<Rightarrow> json option"
  fDec :: "json \<Rightarrow> 'r \<Rightarrow> json_err + 'r"

text \<open>A field with its tag: the name, whether \<^verbatim>\<open>omitempty\<close> is set, its type, and its place in the struct.\<close>

definition jsonField ::
  "string \<Rightarrow> bool \<Rightarrow> 'a codec \<Rightarrow> ('r \<Rightarrow> 'a) \<Rightarrow> (('a \<Rightarrow> 'a) \<Rightarrow> 'r \<Rightarrow> 'r) \<Rightarrow> 'r field" where
  "jsonField name omit C get upd = \<lparr>fName = name,
     fEnc = (\<lambda>r. if omit \<and> cEmpty C (get r) then None else Some (cEnc C (get r))),
     fDec = (\<lambda>j r. case cDec C j (get r) of Inl e \<Rightarrow> Inl e | Inr x \<Rightarrow> Inr (upd (\<lambda>_. x) r))\<rparr>"

text \<open>
  \<^verbatim>\<open>foldName\<close>, as far as it can equal an ASCII name: letters to upper case, and the two runes outside
  ASCII whose case folding is an ASCII letter, U+017F (long s) and U+212A (Kelvin sign).
\<close>

fun foldName :: "string \<Rightarrow> string" where
  "foldName [] = []"
| "foldName [c] = [if 97 \<le> byteOf c \<and> byteOf c \<le> 122 then char_of (byteOf c - 32) else c]"
| "foldName (c # d # cs) =
     (if c = CHR 0xC5 \<and> d = CHR 0xBF then CHR ''S'' # foldName cs
      else if c = CHR 0xE2 \<and> d = CHR 0x84 \<and> take 1 cs = [CHR 0xAA] then CHR ''K'' # foldName (drop 1 cs)
      else (if 97 \<le> byteOf c \<and> byteOf c \<le> 122 then char_of (byteOf c - 32) else c) # foldName (d # cs))"

definition lookupField :: "'r field list \<Rightarrow> string \<Rightarrow> 'r field option" where
  "lookupField fs k =
     (case find (\<lambda>f. fName f = k) fs of Some f \<Rightarrow> Some f
      | None \<Rightarrow> find (\<lambda>f. foldName (fName f) = foldName k) fs)"

fun structMembers :: "'r field list \<Rightarrow> 'r \<Rightarrow> (string \<times> json) list" where
  "structMembers [] r = []"
| "structMembers (f # fs) r =
     (case fEnc f r of None \<Rightarrow> structMembers fs r | Some j \<Rightarrow> (fName f, j) # structMembers fs r)"

fun decMembers :: "'r field list \<Rightarrow> (string \<times> json) list \<Rightarrow> 'r \<Rightarrow> json_err + 'r" where
  "decMembers fs [] r = Inr r"
| "decMembers fs ((k, j) # ms) r =
     (case lookupField fs k of None \<Rightarrow> decMembers fs ms r
      | Some f \<Rightarrow> (case fDec f j r of Inl e \<Rightarrow> Inl e | Inr r \<Rightarrow> decMembers fs ms r))"

definition structC :: "'r field list \<Rightarrow> 'r codec" where
  "structC fs = \<lparr>cEnc = (\<lambda>r. JObj (structMembers fs r)),
     cDec = (\<lambda>j r. case j of JObj ms \<Rightarrow> decMembers fs ms r | JNull \<Rightarrow> Inr r | _ \<Rightarrow> Inl JsonType),
     cEmpty = (\<lambda>_. False)\<rparr>"

text \<open>\<^verbatim>\<open>json.Marshal\<close> and \<^verbatim>\<open>json.Unmarshal\<close> onto a value.\<close>

definition marshal :: "'a codec \<Rightarrow> 'a \<Rightarrow> string" where
  "marshal C x = printJson (cEnc C x)"

definition unmarshal :: "'a codec \<Rightarrow> string \<Rightarrow> 'a \<Rightarrow> json_err + 'a" where
  "unmarshal C line old = (case parseText line of Inl e \<Rightarrow> Inl e | Inr j \<Rightarrow> cDec C j old)"

lemmas codec_defs = stringC_def boolC_def numC_def uint64C_def int64C_def pointerC_def
  sliceC_def nilSliceC_def structC_def

section \<open>What a codec promises\<close>

text \<open>
  The encoding of every value can be printed and parsed, and decoding what was parsed onto the
  zero value gives \<open>norm\<close> of the value: the value with the bytes of its strings that are not UTF-8
  replaced.  A type that is sent with \<^verbatim>\<open>omitempty\<close> also promises that only what normalises to its zero
  value is dropped.
\<close>

locale wire_codec =
  fixes C :: "'a codec" and zero :: 'a and norm :: "'a \<Rightarrow> 'a" and depth :: int
  assumes enc_ok: "json_ok (cEnc C x)"
    and enc_depth: "depthOf (cEnc C x) \<le> depth"
    and dec_enc: "cDec C (sanitizeJson (cEnc C x)) zero = Inr (norm x)"
    and depth_nonneg: "0 \<le> depth"
begin

lemma unmarshal_marshal:
  assumes "depth \<le> maxNestingDepth"
  shows "unmarshal C (marshal C x @ [CHR 0x0A]) zero = Inr (norm x)"
proof -
  have "depthOf (cEnc C x) \<le> maxNestingDepth"
    using enc_depth [of x] assms by simp
  from parseText_print [OF enc_ok this] show ?thesis
    using dec_enc by (simp add: unmarshal_def marshal_def)
qed

lemma marshal_no_newline: "CHR 0x0A \<notin> set (marshal C x)"
  using printJson_no_newline [OF enc_ok] by (simp add: marshal_def)

lemma decElems_enc: "decElems zero C (map (sanitizeJson \<circ> cEnc C) xs) [] = Inr (map norm xs)"
  by (induction xs) (simp_all add: dec_enc)

lemma elems_ok: "json_ok (JArr (map (cEnc C) xs))"
  using enc_ok by auto

lemma elems_depth: "depthOf (JArr (map (cEnc C) xs)) \<le> depth + 1"
  by (induction xs) (use enc_depth depth_nonneg in \<open>auto\<close>)

end

locale omit_codec = wire_codec +
  assumes empty_zero: "cEmpty C x \<Longrightarrow> norm x = zero"

subsection \<open>Scalars\<close>

lemma numLit_format [simp]: "numLit (formatUint n)" "numLit (intLit i)"
  by (auto simp: numLit_def intLit_def)

lemma parseInt64_intLit: "- (2 ^ 63) \<le> i \<Longrightarrow> i < 2 ^ 63 \<Longrightarrow> parseInt64 (intLit i) = Some i"
proof -
  assume i: "- (2 ^ 63) \<le> i" "i < 2 ^ 63"
  have "take 1 (formatUint n) \<noteq> ''-''" for n
    using formatUint_head [of n] not_minus by fastforce
  then show ?thesis
    using i by (auto simp: parseInt64_def intLit_def parseUint_formatUint)
qed

interpretation string_wire: omit_codec stringC "[]" sanitize 0
  by unfold_locales (auto simp: codec_defs)

interpretation bool_wire: omit_codec boolC False id 0
  by unfold_locales (auto simp: codec_defs)

interpretation uint64_wire: omit_codec uint64C 0 id 0
proof unfold_locales
  fix x :: u64
  have "uint x < 2 ^ LENGTH(64)"
    by (rule unsigned_less)
  then have "int (unat x) < 2 ^ 64"
    by simp
  then show "cDec uint64C (sanitizeJson (cEnc uint64C x)) 0 = Inr (id x)"
    by (simp add: codec_defs parseUint_formatUint)
qed (auto simp: codec_defs)

interpretation int64_wire: omit_codec int64C 0 id 0
proof unfold_locales
  fix x :: i64
  have "- (2 ^ 63) \<le> sint x" "sint x < 2 ^ 63"
    using sint_lt [of x] sint_ge [of x] by simp_all
  then show "cDec int64C (sanitizeJson (cEnc int64C x)) 0 = Inr (id x)"
    by (simp add: codec_defs parseInt64_intLit)
qed (auto simp: codec_defs)

subsection \<open>Pointers and slices\<close>

text \<open>A codec gives one for pointers to its type, provided \<^verbatim>\<open>null\<close> is not one of its values, and for slices.\<close>

context wire_codec
begin

lemma slice_wire: "omit_codec (sliceC zero C) [] (map norm) (depth + 1)"
  by unfold_locales
     (use elems_ok elems_depth decElems_enc depth_nonneg in \<open>simp_all add: sliceC_def comp_def\<close>)

lemma nil_slice_wire: "wire_codec (nilSliceC zero C) None (map_option (map norm)) (depth + 1)"
  by unfold_locales
     (use elems_ok elems_depth decElems_enc depth_nonneg in
       \<open>auto simp: nilSliceC_def comp_def simp del: json_ok.simps(5) depthOf.simps(1) split: option.splits\<close>)

lemma pointer_wire:
  assumes "\<And>x. cEnc C x \<noteq> JNull"
  shows "omit_codec (pointerC zero C) None (map_option norm) depth"
  by unfold_locales
     (use assms enc_ok enc_depth dec_enc depth_nonneg in \<open>auto simp: pointerC_def split: option.splits\<close>)

end

subsection \<open>Structs\<close>

text \<open>Decoding the members a struct was encoded to runs over its fields in order.\<close>

fun runFields :: "'r field list \<Rightarrow> 'r \<Rightarrow> 'r \<Rightarrow> json_err + 'r" where
  "runFields [] x r = Inr r"
| "runFields (f # fs) x r =
     (case (case fEnc f x of None \<Rightarrow> Inr r | Some j \<Rightarrow> fDec f (sanitizeJson j) r) of
        Inl e \<Rightarrow> Inl e | Inr r \<Rightarrow> runFields fs x r)"

lemma find_distinct:
  "distinct (map fName fs) \<Longrightarrow> f \<in> set fs \<Longrightarrow> find (\<lambda>g. fName g = fName f) fs = Some f"
  by (induction fs) force+

definition namesOk :: "'r field list \<Rightarrow> bool" where
  "namesOk fs \<longleftrightarrow> distinct (map fName fs) \<and> list_all (\<lambda>f. validUtf8 (fName f)) fs"

lemma decMembers_structMembers:
  assumes "namesOk fs" "set gs \<subseteq> set fs"
  shows "decMembers fs (map (\<lambda>(k, v). (sanitize k, sanitizeJson v)) (structMembers gs x)) r = runFields gs x r"
  using assms(2)
proof (induction gs arbitrary: r)
  case (Cons g gs)
  then have "sanitize (fName g) = fName g" "find (\<lambda>f. fName f = fName g) fs = Some g"
    using assms(1) find_distinct [of fs g] by (auto simp: namesOk_def list_all_iff sanitize_valid)
  then show ?case
    using Cons by (auto simp: lookupField_def split: option.splits sum.splits)
qed simp

lemma struct_dec_enc:
  "namesOk fs \<Longrightarrow> cDec (structC fs) (sanitizeJson (cEnc (structC fs) x)) r = runFields fs x r"
  by (simp add: structC_def decMembers_structMembers)

text \<open>A field of a lawful type is set to its normal form, whether it was sent or omitted.\<close>

definition fieldOk :: "'r \<Rightarrow> int \<Rightarrow> 'r field \<Rightarrow> bool" where
  "fieldOk x d f \<longleftrightarrow> (\<forall>j. fEnc f x = Some j \<longrightarrow> json_ok j \<and> depthOf j \<le> d)"

lemma struct_enc_ok:
  assumes "list_all (fieldOk x d) fs" "0 \<le> d"
  shows "json_ok (cEnc (structC fs) x)" "depthOf (cEnc (structC fs) x) \<le> d + 1"
proof -
  have "(\<forall>(k, v)\<in>set (structMembers fs x). json_ok v) \<and>
        foldr max (map (\<lambda>(k, v). depthOf v) (structMembers fs x)) 0 \<le> d"
    using assms by (induction fs) (auto simp: fieldOk_def split: option.splits)
  then show "json_ok (cEnc (structC fs) x)" "depthOf (cEnc (structC fs) x) \<le> d + 1"
    by (simp_all add: structC_def)
qed

lemma struct_not_null [simp]: "cEnc (structC fs) x \<noteq> JNull"
  by (simp add: structC_def)

lemma fName_jsonField [simp]: "fName (jsonField n om C get upd) = n"
  by (simp add: jsonField_def)

lemma validUtf8_ascii: "list_all (\<lambda>c. byteOf c < 0x80) s \<Longrightarrow> validUtf8 s"
  by (induction s) (simp_all add: validUtf8.simps(2) runeLen_ascii)

context wire_codec
begin

lemma runFields_sent:
  assumes "get r = zero"
  shows "runFields (jsonField n False C get upd # fs) x r = runFields fs x (upd (\<lambda>_. norm (get x)) r)"
  using assms dec_enc by (simp add: jsonField_def)

lemma fieldOk_lawful: "depth \<le> d \<Longrightarrow> fieldOk x d (jsonField n om C get upd)"
  using enc_ok enc_depth by (fastforce simp: fieldOk_def jsonField_def intro: order_trans)

end

context omit_codec
begin

lemma runFields_omit:
  assumes "get r = zero" "upd (\<lambda>_. get r) r = r"
  shows "runFields (jsonField n True C get upd # fs) x r = runFields fs x (upd (\<lambda>_. norm (get x)) r)"
proof (cases "cEmpty C (get x)")
  case True
  then show ?thesis
    using assms empty_zero [of "get x"] by (simp add: jsonField_def)
next
  case False
  then show ?thesis
    using assms dec_enc by (simp add: jsonField_def)
qed

end

lemma struct_wire:
  assumes "namesOk fs" "0 \<le> d" "\<And>x. list_all (fieldOk x d) fs"
    and "\<And>x. runFields fs x zero = Inr (norm x)"
    and "depth = d + 1"
  shows "wire_codec (structC fs) zero norm depth"
  unfolding assms(5)
proof unfold_locales
  fix x
  show "json_ok (cEnc (structC fs) x)" "depthOf (cEnc (structC fs) x) \<le> d + 1"
    using struct_enc_ok [OF assms(3,2)] .
  show "cDec (structC fs) (sanitizeJson (cEnc (structC fs) x)) zero = Inr (norm x)"
    using struct_dec_enc [OF assms(1)] assms(4) by metis
qed (use assms(2) in simp)

end
