(* ===== verification/Control_Wire.thy ===== *)
theory Control_Wire
  imports Json_Struct Control_Server
begin

text \<open>
  The messages of \<^verbatim>\<open>src/control/proto.go\<close> on the wire: each struct with its JSON tags as a table of
  fields.  Each type is shown to keep the contract of a codec, for all messages.
\<close>

section \<open>Structs with their tags\<close>

definition zeroInterface :: ParsedInterface where
  "zeroInterface = \<lparr>piPrivateKey = [], piAddress = [], piBindAddress = [], piListenPort = 0, piNID = [],
     piNetSecret = [], piNetSecretInsecure = False, piAllowInsecureNetSecret = False, piPadding = [],
     piDNS = [], piFwMark = 0\<rparr>"

definition interfaceFields :: "ParsedInterface field list" where
  "interfaceFields =
    [jsonField ''privateKey'' False stringC piPrivateKey piPrivateKey_update,
     jsonField ''address'' True stringC piAddress piAddress_update,
     jsonField ''bindAddress'' True stringC piBindAddress piBindAddress_update,
     jsonField ''listenPort'' True int64C piListenPort piListenPort_update,
     jsonField ''nid'' False stringC piNID piNID_update,
     jsonField ''netSecret'' True stringC piNetSecret piNetSecret_update,
     jsonField ''netSecretInsecure'' True boolC piNetSecretInsecure piNetSecretInsecure_update,
     jsonField ''allowInsecureNetSecret'' True boolC piAllowInsecureNetSecret piAllowInsecureNetSecret_update,
     jsonField ''padding'' True stringC piPadding piPadding_update,
     jsonField ''dns'' True stringC piDNS piDNS_update,
     jsonField ''fwMark'' True int64C piFwMark piFwMark_update]"

definition zeroPeer :: ParsedPeer where
  "zeroPeer = \<lparr>ppPublicKey = [], ppAllowedIPs = [], ppEndpoint = [], ppPersistentKeepalive = 0, ppPresharedKey = []\<rparr>"

definition peerFields :: "ParsedPeer field list" where
  "peerFields =
    [jsonField ''publicKey'' False stringC ppPublicKey ppPublicKey_update,
     jsonField ''allowedIPs'' True (sliceC [] stringC) ppAllowedIPs ppAllowedIPs_update,
     jsonField ''endpoint'' True stringC ppEndpoint ppEndpoint_update,
     jsonField ''persistentKeepalive'' True int64C ppPersistentKeepalive ppPersistentKeepalive_update,
     jsonField ''presharedKey'' True stringC ppPresharedKey ppPresharedKey_update]"

definition zeroConfig :: ParsedConfig where
  "zeroConfig = \<lparr>pcInterface = zeroInterface, pcPeers = None\<rparr>"

definition configFields :: "ParsedConfig field list" where
  "configFields =
    [jsonField ''interface'' False (structC interfaceFields) pcInterface pcInterface_update,
     jsonField ''peers'' False (nilSliceC zeroPeer (structC peerFields)) pcPeers pcPeers_update]"

definition zeroLine :: LogLine where
  "zeroLine = \<lparr>Seq = 0, Time = 0, Level = [], Msg = []\<rparr>"

definition logLineFields :: "LogLine field list" where
  "logLineFields =
    [jsonField ''seq'' False uint64C Seq Seq_update,
     jsonField ''time'' False int64C Time Time_update,
     jsonField ''level'' True stringC Level Level_update,
     jsonField ''msg'' False stringC Msg Msg_update]"

definition zeroPeerStatus :: PeerStatus where
  "zeroPeerStatus = \<lparr>psPublicKey = [], psEndpoint = [], psConnected = False, psLastHandshake = 0,
     psLastReceived = 0, psRxBytes = 0, psTxBytes = 0, psFrameBudget = 0\<rparr>"

definition peerStatusFields :: "PeerStatus field list" where
  "peerStatusFields =
    [jsonField ''public_key'' False stringC psPublicKey psPublicKey_update,
     jsonField ''endpoint'' True stringC psEndpoint psEndpoint_update,
     jsonField ''connected'' False boolC psConnected psConnected_update,
     jsonField ''last_handshake'' True int64C psLastHandshake psLastHandshake_update,
     jsonField ''last_received'' True int64C psLastReceived psLastReceived_update,
     jsonField ''rx_bytes'' False uint64C psRxBytes psRxBytes_update,
     jsonField ''tx_bytes'' False uint64C psTxBytes psTxBytes_update,
     jsonField ''frame_budget'' False int64C psFrameBudget psFrameBudget_update]"

definition statusFields :: "Status field list" where
  "statusFields =
    [jsonField ''state'' False stringC stState stState_update,
     jsonField ''name'' True stringC stName stName_update,
     jsonField ''iface'' True stringC stIface stIface_update,
     jsonField ''peers'' True (sliceC zeroPeerStatus (structC peerStatusFields)) stPeers stPeers_update]"

definition requestFields :: "Request field list" where
  "requestFields =
    [jsonField ''cmd'' False stringC reqCmd reqCmd_update,
     jsonField ''config'' True stringC reqConfig reqConfig_update,
     jsonField ''name'' True stringC reqName reqName_update,
     jsonField ''since'' True uint64C reqSince reqSince_update,
     jsonField ''parsedConfig'' True (pointerC zeroConfig (structC configFields))
       reqParsedConfig reqParsedConfig_update]"

definition responseFields :: "Response field list" where
  "responseFields =
    [jsonField ''ok'' False boolC respOK respOK_update,
     jsonField ''error'' True stringC respError respError_update,
     jsonField ''status'' True (pointerC zeroStatus (structC statusFields)) respStatus respStatus_update,
     jsonField ''logs'' True (sliceC zeroLine (structC logLineFields)) respLogs respLogs_update,
     jsonField ''parsedConfig'' True (pointerC zeroConfig (structC configFields))
       respParsedConfig respParsedConfig_update,
     jsonField ''config'' True stringC respConfig respConfig_update]"

definition requestC :: "Request codec" where "requestC = structC requestFields"
definition responseC :: "Response codec" where "responseC = structC responseFields"

section \<open>What arrives\<close>

text \<open>A message after the wire: its strings with the bytes that are not UTF-8 replaced, all else as sent.\<close>

definition normInterface :: "ParsedInterface \<Rightarrow> ParsedInterface" where
  "normInterface x =
     \<lparr>piPrivateKey = sanitize (piPrivateKey x), piAddress = sanitize (piAddress x),
      piBindAddress = sanitize (piBindAddress x), piListenPort = piListenPort x,
      piNID = sanitize (piNID x), piNetSecret = sanitize (piNetSecret x),
      piNetSecretInsecure = piNetSecretInsecure x,
      piAllowInsecureNetSecret = piAllowInsecureNetSecret x,
      piPadding = sanitize (piPadding x), piDNS = sanitize (piDNS x), piFwMark = piFwMark x\<rparr>"

definition normPeer :: "ParsedPeer \<Rightarrow> ParsedPeer" where
  "normPeer x =
     \<lparr>ppPublicKey = sanitize (ppPublicKey x), ppAllowedIPs = map sanitize (ppAllowedIPs x),
      ppEndpoint = sanitize (ppEndpoint x), ppPersistentKeepalive = ppPersistentKeepalive x,
      ppPresharedKey = sanitize (ppPresharedKey x)\<rparr>"

definition normConfig :: "ParsedConfig \<Rightarrow> ParsedConfig" where
  "normConfig x =
     \<lparr>pcInterface = normInterface (pcInterface x),
      pcPeers = map_option (map normPeer) (pcPeers x)\<rparr>"

definition normLine :: "LogLine \<Rightarrow> LogLine" where
  "normLine x =
     \<lparr>Seq = Seq x, Time = Time x, Level = sanitize (Level x), Msg = sanitize (Msg x)\<rparr>"

definition normPeerStatus :: "PeerStatus \<Rightarrow> PeerStatus" where
  "normPeerStatus x =
     \<lparr>psPublicKey = sanitize (psPublicKey x), psEndpoint = sanitize (psEndpoint x),
      psConnected = psConnected x, psLastHandshake = psLastHandshake x,
      psLastReceived = psLastReceived x, psRxBytes = psRxBytes x, psTxBytes = psTxBytes x,
      psFrameBudget = psFrameBudget x\<rparr>"

definition normStatus :: "Status \<Rightarrow> Status" where
  "normStatus x =
     \<lparr>stState = sanitize (stState x), stName = sanitize (stName x),
      stIface = sanitize (stIface x), stPeers = map normPeerStatus (stPeers x)\<rparr>"

definition normRequest :: "Request \<Rightarrow> Request" where
  "normRequest x =
     \<lparr>reqCmd = sanitize (reqCmd x), reqConfig = sanitize (reqConfig x),
      reqName = sanitize (reqName x), reqSince = reqSince x,
      reqParsedConfig = map_option normConfig (reqParsedConfig x)\<rparr>"

definition normResponse :: "Response \<Rightarrow> Response" where
  "normResponse x =
     \<lparr>respOK = respOK x, respError = sanitize (respError x),
      respStatus = map_option normStatus (respStatus x), respLogs = map normLine (respLogs x),
      respParsedConfig = map_option normConfig (respParsedConfig x),
      respConfig = sanitize (respConfig x)\<rparr>"

lemmas scalar_runs = string_wire.runFields_sent bool_wire.runFields_sent uint64_wire.runFields_sent
  int64_wire.runFields_sent string_wire.runFields_omit bool_wire.runFields_omit
  uint64_wire.runFields_omit int64_wire.runFields_omit

lemmas scalar_fields = string_wire.fieldOk_lawful bool_wire.fieldOk_lawful uint64_wire.fieldOk_lawful
  int64_wire.fieldOk_lawful

lemmas names = namesOk_def validUtf8_ascii byteOf_def

interpretation strings_wire: omit_codec "sliceC [] stringC" "[]" "map sanitize" 1
  using string_wire.slice_wire by simp

interpretation interface_wire: wire_codec "structC interfaceFields" zeroInterface normInterface 1
proof (rule struct_wire [where d = 0])
  show "list_all (fieldOk x 0) interfaceFields" for x
    by (simp add: interfaceFields_def scalar_fields)
  show "runFields interfaceFields x zeroInterface = Inr (normInterface x)" for x
    by (simp add: interfaceFields_def normInterface_def zeroInterface_def scalar_runs del: runFields.simps(2))
qed (simp_all add: interfaceFields_def names)

interpretation peer_wire: wire_codec "structC peerFields" zeroPeer normPeer 2
proof (rule struct_wire [where d = 1])
  show "list_all (fieldOk x 1) peerFields" for x
    by (simp add: peerFields_def scalar_fields strings_wire.fieldOk_lawful)
  show "runFields peerFields x zeroPeer = Inr (normPeer x)" for x
    by (simp add: peerFields_def normPeer_def zeroPeer_def scalar_runs strings_wire.runFields_omit del: runFields.simps(2))
qed (simp_all add: peerFields_def names)

interpretation peers_wire: wire_codec "nilSliceC zeroPeer (structC peerFields)" None "map_option (map normPeer)" 3
  using peer_wire.nil_slice_wire by simp

interpretation config_wire: wire_codec "structC configFields" zeroConfig normConfig 4
proof (rule struct_wire [where d = 3])
  show "list_all (fieldOk x 3) configFields" for x
    by (simp add: configFields_def scalar_fields interface_wire.fieldOk_lawful peers_wire.fieldOk_lawful)
  show "runFields configFields x zeroConfig = Inr (normConfig x)" for x
    by (simp add: configFields_def normConfig_def zeroConfig_def scalar_runs interface_wire.runFields_sent peers_wire.runFields_sent del: runFields.simps(2))
qed (simp_all add: configFields_def names)

interpretation configPtr_wire: omit_codec "pointerC zeroConfig (structC configFields)" None "map_option normConfig" 4
  by (rule config_wire.pointer_wire) simp

interpretation line_wire: wire_codec "structC logLineFields" zeroLine normLine 1
proof (rule struct_wire [where d = 0])
  show "list_all (fieldOk x 0) logLineFields" for x
    by (simp add: logLineFields_def scalar_fields)
  show "runFields logLineFields x zeroLine = Inr (normLine x)" for x
    by (simp add: logLineFields_def normLine_def zeroLine_def scalar_runs del: runFields.simps(2))
qed (simp_all add: logLineFields_def names)

interpretation lines_wire: omit_codec "sliceC zeroLine (structC logLineFields)" "[]" "map normLine" 2
  using line_wire.slice_wire by simp

interpretation peerStatus_wire: wire_codec "structC peerStatusFields" zeroPeerStatus normPeerStatus 1
proof (rule struct_wire [where d = 0])
  show "list_all (fieldOk x 0) peerStatusFields" for x
    by (simp add: peerStatusFields_def scalar_fields)
  show "runFields peerStatusFields x zeroPeerStatus = Inr (normPeerStatus x)" for x
    by (simp add: peerStatusFields_def normPeerStatus_def zeroPeerStatus_def scalar_runs del: runFields.simps(2))
qed (simp_all add: peerStatusFields_def names)

interpretation peerStatuses_wire: omit_codec "sliceC zeroPeerStatus (structC peerStatusFields)" "[]" "map normPeerStatus" 2
  using peerStatus_wire.slice_wire by simp

interpretation status_wire: wire_codec "structC statusFields" zeroStatus normStatus 3
proof (rule struct_wire [where d = 2])
  show "list_all (fieldOk x 2) statusFields" for x
    by (simp add: statusFields_def scalar_fields peerStatuses_wire.fieldOk_lawful)
  show "runFields statusFields x zeroStatus = Inr (normStatus x)" for x
    by (simp add: statusFields_def normStatus_def zeroStatus_def scalar_runs peerStatuses_wire.runFields_omit del: runFields.simps(2))
qed (simp_all add: statusFields_def names)

interpretation statusPtr_wire: omit_codec "pointerC zeroStatus (structC statusFields)" None "map_option normStatus" 3
  by (rule status_wire.pointer_wire) simp

interpretation request_wire: wire_codec requestC zeroRequest normRequest 5
  unfolding requestC_def
proof (rule struct_wire [where d = 4])
  show "list_all (fieldOk x 4) requestFields" for x
    by (simp add: requestFields_def scalar_fields configPtr_wire.fieldOk_lawful)
  show "runFields requestFields x zeroRequest = Inr (normRequest x)" for x
    by (simp add: requestFields_def normRequest_def zeroRequest_def scalar_runs configPtr_wire.runFields_omit del: runFields.simps(2))
qed (simp_all add: requestFields_def names)

interpretation response_wire: wire_codec responseC zeroResponse normResponse 5
  unfolding responseC_def
proof (rule struct_wire [where d = 4])
  show "list_all (fieldOk x 4) responseFields" for x
    by (simp add: responseFields_def scalar_fields configPtr_wire.fieldOk_lawful statusPtr_wire.fieldOk_lawful
        lines_wire.fieldOk_lawful)
  show "runFields responseFields x zeroResponse = Inr (normResponse x)" for x
    by (simp add: responseFields_def normResponse_def zeroResponse_def scalar_runs configPtr_wire.runFields_omit statusPtr_wire.runFields_omit
        lines_wire.runFields_omit del: runFields.simps(2))
qed (simp_all add: responseFields_def names)

section \<open>Messages that arrive as they were sent\<close>

definition cleanInterface :: "ParsedInterface \<Rightarrow> bool" where
  "cleanInterface i \<longleftrightarrow> list_all validUtf8
     [piPrivateKey i, piAddress i, piBindAddress i, piNID i, piNetSecret i, piPadding i, piDNS i]"

definition cleanPeer :: "ParsedPeer \<Rightarrow> bool" where
  "cleanPeer p \<longleftrightarrow> list_all validUtf8 ([ppPublicKey p, ppEndpoint p, ppPresharedKey p] @ ppAllowedIPs p)"

definition cleanConfig :: "ParsedConfig \<Rightarrow> bool" where
  "cleanConfig c \<longleftrightarrow> cleanInterface (pcInterface c) \<and> pred_option (list_all cleanPeer) (pcPeers c)"

definition cleanLine :: "LogLine \<Rightarrow> bool" where
  "cleanLine l \<longleftrightarrow> list_all validUtf8 [Level l, Msg l]"

definition cleanStatus :: "Status \<Rightarrow> bool" where
  "cleanStatus s \<longleftrightarrow> list_all validUtf8 [stState s, stName s, stIface s] \<and>
     list_all (\<lambda>p. list_all validUtf8 [psPublicKey p, psEndpoint p]) (stPeers s)"

definition cleanRequest :: "Request \<Rightarrow> bool" where
  "cleanRequest r \<longleftrightarrow> list_all validUtf8 [reqCmd r, reqConfig r, reqName r] \<and>
     pred_option cleanConfig (reqParsedConfig r)"

definition cleanResponse :: "Response \<Rightarrow> bool" where
  "cleanResponse r \<longleftrightarrow> list_all validUtf8 [respError r, respConfig r] \<and> pred_option cleanStatus (respStatus r) \<and>
     list_all cleanLine (respLogs r) \<and> pred_option cleanConfig (respParsedConfig r)"

lemma map_norm: "list_all p xs \<Longrightarrow> (\<And>x. p x \<Longrightarrow> f x = x) \<Longrightarrow> map f xs = xs"
  by (induction xs) auto

lemma option_norm: "pred_option p x \<Longrightarrow> (\<And>x. p x \<Longrightarrow> f x = x) \<Longrightarrow> map_option f x = x"
  by (cases x) auto

lemma normPeer_clean: "cleanPeer p \<Longrightarrow> normPeer p = p"
  using map_norm [of validUtf8 "ppAllowedIPs p" sanitize]
  by (simp add: normPeer_def cleanPeer_def sanitize_valid)

lemma normConfig_clean: "cleanConfig c \<Longrightarrow> normConfig c = c"
  using option_norm [of "list_all cleanPeer" "pcPeers c" "map normPeer"] map_norm [of cleanPeer _ normPeer]
  by (simp add: normConfig_def normInterface_def cleanConfig_def cleanInterface_def sanitize_valid normPeer_clean)

lemma normStatus_clean:
  assumes "cleanStatus s"
  shows "normStatus s = s"
proof -
  have "map normPeerStatus (stPeers s) = stPeers s"
    using assms
    by (intro map_norm [of "\<lambda>p. list_all validUtf8 [psPublicKey p, psEndpoint p]"])
       (simp_all add: cleanStatus_def normPeerStatus_def sanitize_valid)
  then show ?thesis
    using assms by (simp add: normStatus_def cleanStatus_def sanitize_valid)
qed

lemma normLine_clean: "cleanLine l \<Longrightarrow> normLine l = l"
  by (simp add: normLine_def cleanLine_def sanitize_valid)

lemmas parts_clean = option_norm [of cleanConfig _ normConfig, OF _ normConfig_clean]
  option_norm [of cleanStatus _ normStatus, OF _ normStatus_clean]
  map_norm [of cleanLine _ normLine, OF _ normLine_clean]

lemma normRequest_clean: "cleanRequest r \<Longrightarrow> normRequest r = r"
  by (simp add: normRequest_def cleanRequest_def sanitize_valid parts_clean)

lemma normResponse_clean: "cleanResponse r \<Longrightarrow> normResponse r = r"
  by (simp add: normResponse_def cleanResponse_def sanitize_valid parts_clean)

lemma sanitize_ascii: "list_all (\<lambda>c. byteOf c < 0x80) s \<Longrightarrow> sanitize s = s"
  by (simp add: sanitize_valid validUtf8_ascii)

text \<open>A command arrives unchanged, and no text that is not a command arrives as one.\<close>

lemma sanitize_ascii_inv: "list_all (\<lambda>c. byteOf c < 0x80) (sanitize s) \<Longrightarrow> sanitize s = s"
proof (induction s rule: sanitize.induct)
  case (2 c cs)
  have bad: "\<not> list_all (\<lambda>c. byteOf c < 0x80) replacement"
    by (simp add: replacement_def byteOf_def)
  let ?n = "runeLen (c # cs)"
  have n: "?n \<noteq> 0"
    using 2(3) bad by (simp add: sanitize.simps(2) Let_def split: if_splits)
  then have "sanitize (drop ?n (c # cs)) = drop ?n (c # cs)"
    using 2(2) [OF refl n] 2(3) by (simp add: sanitize.simps(2) Let_def split: if_splits)
  then show ?case
    using n by (simp add: sanitize.simps(2) Let_def split: if_splits)
qed simp

lemma sanitize_eq_ascii: "list_all (\<lambda>c. byteOf c < 0x80) t \<Longrightarrow> sanitize s = t \<longleftrightarrow> s = t"
  using sanitize_ascii_inv sanitize_ascii by metis

lemma normRequest_cmd [simp]:
  "reqCmd (normRequest r) = CmdConnect \<longleftrightarrow> reqCmd r = CmdConnect"
  "reqCmd (normRequest r) = CmdDisconnect \<longleftrightarrow> reqCmd r = CmdDisconnect"
  by (simp_all add: normRequest_def cmd_defs sanitize_eq_ascii byteOf_def)

end
