(* ===== verification/Control_Io.thy ===== *)
theory Control_Io
  imports Control_Wire
begin

text \<open>
  The control channel over byte streams: \<^verbatim>\<open>bufio.Reader.ReadBytes\<close> as \<^verbatim>\<open>readMessage\<close> uses it,
  \<^verbatim>\<open>writeMessage\<close> and \<^verbatim>\<open>readMessage\<close> of \<^verbatim>\<open>src/control/proto.go\<close>, the server loops of \<^verbatim>\<open>src/control/server.go\<close>
  and the client of \<^verbatim>\<open>src/control/client.go\<close>.  A stream is a state with a read and a write operation; a
  loop that waits for a peer may never return, so it is a partial function into option.
\<close>

section \<open>Buffered reading\<close>

record bufReader =
  rdBuf :: string
  rdErr :: "gerr option"

definition newReader :: bufReader where
  "newReader = \<lparr>rdBuf = [], rdErr = None\<rparr>"

definition newline :: char where "newline = CHR 0x0A"

definition ErrNoProgress :: gerr where
  "ErrNoProgress = ErrText ''multiple Read calls return no data or error''"

text \<open>\<^verbatim>\<open>fill\<close>: one read that brings data or an error; a hundred empty reads in a row are an error.\<close>

type_synonym 'c reader = "'c \<Rightarrow> (string \<times> gerr option) \<times> 'c"
type_synonym 'c writer = "string \<Rightarrow> 'c \<Rightarrow> gerr option \<times> 'c"

fun fill :: "nat \<Rightarrow> 'c reader \<Rightarrow> bufReader \<Rightarrow> 'c \<Rightarrow> bufReader \<times> 'c" where
  "fill 0 rd b c = (b\<lparr>rdErr := Some ErrNoProgress\<rparr>, c)"
| "fill (Suc n) rd b c =
     (case rd c of
        ((d, Some e), c) \<Rightarrow> (\<lparr>rdBuf = rdBuf b @ d, rdErr = Some e\<rparr>, c)
      | ((d, None), c) \<Rightarrow> if d = [] then fill n rd b c else (b\<lparr>rdBuf := rdBuf b @ d\<rparr>, c))"

definition maxConsecutiveEmptyReads :: nat where "maxConsecutiveEmptyReads = 100"

text \<open>\<^verbatim>\<open>ReadBytes('\n')\<close>: a buffered line first, then a pending error, then more data.\<close>

partial_function (option) readBytes ::
  "'c reader \<Rightarrow> bufReader \<Rightarrow> 'c \<Rightarrow> ((gerr + string) \<times> bufReader \<times> 'c) option" where
  [code]: "readBytes rd b c =
     (if newline \<in> set (rdBuf b) then
        Some (Inr (takeWhile (\<lambda>x. x \<noteq> newline) (rdBuf b) @ [newline]),
              b\<lparr>rdBuf := drop 1 (dropWhile (\<lambda>x. x \<noteq> newline) (rdBuf b))\<rparr>, c)
      else (case rdErr b of
         Some e \<Rightarrow> Some (Inl e, newReader, c)
       | None \<Rightarrow> (case fill maxConsecutiveEmptyReads rd b c of (b, c) \<Rightarrow> readBytes rd b c)))"

section \<open>Messages\<close>

datatype msgErr = IoErr gerr | JsonErr json_err | ResponseErr string

definition writeMessage :: "'c writer \<Rightarrow> 'a codec \<Rightarrow> 'a \<Rightarrow> 'c \<Rightarrow> gerr option \<times> 'c" where
  "writeMessage wr C v c = wr (marshal C v @ [newline]) c"

definition readMessage ::
  "'c reader \<Rightarrow> 'a codec \<Rightarrow> 'a \<Rightarrow> bufReader \<Rightarrow> 'c \<Rightarrow> ((msgErr + 'a) \<times> bufReader \<times> 'c) option" where
  "readMessage rd C v b c =
     (case readBytes rd b c of
        None \<Rightarrow> None
      | Some (Inl e, b, c) \<Rightarrow> Some (Inl (IoErr e), b, c)
      | Some (Inr line, b, c) \<Rightarrow>
          Some (case unmarshal C line v of Inl e \<Rightarrow> Inl (JsonErr e) | Inr v \<Rightarrow> Inr v, b, c))"

section \<open>The server\<close>

partial_function (option) serveLoop ::
  "(u32 \<Rightarrow> string) \<Rightarrow> 'h Handler \<Rightarrow> 'c reader \<Rightarrow> 'c writer \<Rightarrow> bufReader \<Rightarrow> 'c \<Rightarrow> 'h \<Rightarrow> ('c \<times> 'h) option" where
  [code]: "serveLoop msg H rd wr br c h =
     Option.bind (readMessage rd requestC zeroRequest br c) (\<lambda>(m, br, c).
       case m of
         Inl err \<Rightarrow> Some (c, h)
       | Inr req \<Rightarrow>
           (case dispatch msg H req h of (resp, h) \<Rightarrow>
              (case writeMessage wr responseC resp c of
                 (Some err, c) \<Rightarrow> Some (c, h)
               | (None, c) \<Rightarrow> serveLoop msg H rd wr br c h)))"

definition ServeIO ::
  "(u32 \<Rightarrow> string) \<Rightarrow> 'h Handler \<Rightarrow> 'c reader \<Rightarrow> 'c writer \<Rightarrow> 'c \<Rightarrow> 'h \<Rightarrow> ('c \<times> 'h) option" where
  "ServeIO msg H rd wr c h = serveLoop msg H rd wr newReader c h"

text \<open>A connection is served and then closed; \<^verbatim>\<open>Serve\<close> starts one such goroutine per connection.\<close>

definition serveConn ::
  "(u32 \<Rightarrow> string) \<Rightarrow> 'h Handler \<Rightarrow> 'c reader \<Rightarrow> 'c writer \<Rightarrow> ('c \<Rightarrow> 'c) \<Rightarrow> 'c \<Rightarrow> 'h \<Rightarrow> ('c \<times> 'h) option" where
  "serveConn msg H rd wr cls c h =
     (case ServeIO msg H rd wr c h of None \<Rightarrow> None | Some (c, h) \<Rightarrow> Some (cls c, h))"

text \<open>The accept loop, with the goroutines it has started so far.\<close>

partial_function (option) Serve ::
  "('l \<Rightarrow> (gerr + 'c) \<times> 'l) \<Rightarrow> 'l \<Rightarrow> 'c list \<Rightarrow> (gerr \<times> 'c list \<times> 'l) option" where
  [code]: "Serve accept l started =
     (case accept l of
        (Inl err, l) \<Rightarrow> Some (err, started, l)
      | (Inr conn, l) \<Rightarrow> Serve accept l (started @ [conn]))"

section \<open>The client\<close>

record 'c Client =
  clConn :: 'c
  clR :: bufReader

definition NewClient :: "'c \<Rightarrow> 'c Client" where
  "NewClient conn = \<lparr>clConn = conn, clR = newReader\<rparr>"

definition Do ::
  "'c reader \<Rightarrow> 'c writer \<Rightarrow> Request \<Rightarrow> 'c Client \<Rightarrow> ((msgErr + Response) \<times> 'c Client) option" where
  "Do rd wr req cl =
     (case writeMessage wr requestC req (clConn cl) of
        (Some err, conn) \<Rightarrow> Some (Inl (IoErr err), cl\<lparr>clConn := conn\<rparr>)
      | (None, conn) \<Rightarrow>
          (case readMessage rd responseC zeroResponse (clR cl) conn of
             None \<Rightarrow> None
           | Some (r, br, conn) \<Rightarrow> Some (r, \<lparr>clConn = conn, clR = br\<rparr>)))"

definition clientStatus :: "'c reader \<Rightarrow> 'c writer \<Rightarrow> 'c Client \<Rightarrow> ((msgErr + Response) \<times> 'c Client) option" where
  "clientStatus rd wr cl = Do rd wr (zeroRequest\<lparr>reqCmd := CmdStatus\<rparr>) cl"

definition clientConnect ::
  "'c reader \<Rightarrow> 'c writer \<Rightarrow> string \<Rightarrow> string \<Rightarrow> 'c Client \<Rightarrow> ((msgErr + Response) \<times> 'c Client) option" where
  "clientConnect rd wr configText name cl =
     Do rd wr (zeroRequest\<lparr>reqCmd := CmdConnect, reqConfig := configText, reqName := name\<rparr>) cl"

definition clientDisconnect :: "'c reader \<Rightarrow> 'c writer \<Rightarrow> 'c Client \<Rightarrow> ((msgErr + Response) \<times> 'c Client) option" where
  "clientDisconnect rd wr cl = Do rd wr (zeroRequest\<lparr>reqCmd := CmdDisconnect\<rparr>) cl"

definition clientLogs ::
  "'c reader \<Rightarrow> 'c writer \<Rightarrow> u64 \<Rightarrow> 'c Client \<Rightarrow> ((msgErr + LogLine list) \<times> 'c Client) option" where
  "clientLogs rd wr since cl =
     (case Do rd wr (zeroRequest\<lparr>reqCmd := CmdLogs, reqSince := since\<rparr>) cl of
        None \<Rightarrow> None
      | Some (Inl err, cl) \<Rightarrow> Some (Inl err, cl)
      | Some (Inr resp, cl) \<Rightarrow>
          Some (if respOK resp then Inr (respLogs resp) else Inl (ResponseErr (respError resp)), cl))"

definition clientClose :: "('c \<Rightarrow> gerr option \<times> 'c) \<Rightarrow> 'c Client \<Rightarrow> gerr option \<times> 'c Client" where
  "clientClose cls cl = (case cls (clConn cl) of (err, conn) \<Rightarrow> (err, cl\<lparr>clConn := conn\<rparr>))"

section \<open>The reference: one line in, one line out\<close>

definition completeLines :: "string \<Rightarrow> string list" where
  "completeLines s = map (\<lambda>l. l @ [newline]) (butlast (splitOn newline s))"

fun serveLines ::
  "(u32 \<Rightarrow> string) \<Rightarrow> 'h Handler \<Rightarrow> string list \<Rightarrow> 'h \<Rightarrow> string \<times> 'h" where
  "serveLines msg H [] h = ([], h)"
| "serveLines msg H (l # ls) h =
     (case unmarshal requestC l zeroRequest of
        Inl e \<Rightarrow> ([], h)
      | Inr req \<Rightarrow>
          (case dispatch msg H req h of (resp, h) \<Rightarrow>
             (case serveLines msg H ls h of (out, h) \<Rightarrow>
                (marshal responseC resp @ [newline] @ out, h))))"

section \<open>Streams\<close>

text \<open>
  What a byte stream promises: reads deliver the bytes that are still to come in pieces of any
  size, and the end is reported once they are used up; a write is taken whole.
\<close>

locale duplex =
  fixes rd :: "'c reader" and wr :: "'c writer"
    and good :: "'c \<Rightarrow> bool" and pending :: "'c \<Rightarrow> string" and written :: "'c \<Rightarrow> string"
  assumes rd_data: "good c \<Longrightarrow> rd c = ((d, None), c') \<Longrightarrow>
      d \<noteq> [] \<and> pending c = d @ pending c' \<and> good c' \<and> written c' = written c"
    and rd_end: "good c \<Longrightarrow> rd c = ((d, Some e), c') \<Longrightarrow>
      pending c = d \<and> pending c' = [] \<and> good c' \<and> written c' = written c"
    and wr_all: "good c \<Longrightarrow> wr s c = (r, c') \<Longrightarrow>
      r = None \<and> pending c' = pending c \<and> good c' \<and> written c' = written c @ s"
begin

text \<open>A reader in step with the stream: a pending error means that nothing more comes.\<close>

definition inStep :: "bufReader \<Rightarrow> 'c \<Rightarrow> bool" where
  "inStep b c \<longleftrightarrow> good c \<and> (rdErr b \<noteq> None \<longrightarrow> pending c = [])"

definition unread :: "bufReader \<Rightarrow> 'c \<Rightarrow> string" where
  "unread b c = rdBuf b @ pending c"

lemma fill_progress:
  assumes "inStep b c" "rdErr b = None" "fill maxConsecutiveEmptyReads rd b c = (b', c')"
  shows "inStep b' c' \<and> unread b' c' = unread b c \<and> written c' = written c \<and>
    (rdErr b' \<noteq> None \<or> length (pending c') < length (pending c))"
proof -
  obtain d e c1 where r: "rd c = ((d, e), c1)"
    by (metis surj_pair)
  have g: "good c"
    using assms(1) by (simp add: inStep_def)
  show ?thesis
  proof (cases e)
    case None
    then show ?thesis
      using rd_data [OF g r [unfolded None]] r assms(2,3)
      by (auto simp: maxConsecutiveEmptyReads_def eval_nat_numeral inStep_def unread_def)
  next
    case (Some err)
    then show ?thesis
      using rd_end [OF g r [unfolded Some]] r assms(2,3)
      by (auto simp: maxConsecutiveEmptyReads_def eval_nat_numeral inStep_def unread_def)
  qed
qed

lemma take_line:
  "newline \<notin> set l \<Longrightarrow> takeWhile (\<lambda>x. x \<noteq> newline) (l @ newline # t) = l"
  "newline \<notin> set l \<Longrightarrow> dropWhile (\<lambda>x. x \<noteq> newline) (l @ newline # t) = newline # t"
  by (induction l) auto

lemma buffered_line:
  assumes "b @ p = l @ newline # rest" "newline \<notin> set l" "newline \<in> set b"
  shows "\<exists>t. b = l @ newline # t \<and> t @ p = rest"
proof -
  obtain l' t where b: "b = l' @ newline # t" "newline \<notin> set l'"
    using split_list_first [OF assms(3)] by blast
  have "takeWhile (\<lambda>x. x \<noteq> newline) (l' @ newline # (t @ p)) = l"
    using assms(1,2) b take_line(1) [of l rest] by simp
  then have "l' = l"
    using take_line(1) [OF b(2), of "t @ p"] by simp
  then show ?thesis
    using assms(1) b(1) by simp
qed

lemma readBytes_line:
  assumes "inStep b c" "unread b c = l @ newline # rest" "newline \<notin> set l"
  shows "\<exists>b' c'. readBytes rd b c = Some (Inr (l @ [newline]), b', c') \<and> inStep b' c' \<and>
    unread b' c' = rest \<and> written c' = written c"
  using assms(1,2)
proof (induction "length (pending c)" arbitrary: b c rule: less_induct)
  case less
  show ?case
  proof (cases "newline \<in> set (rdBuf b)")
    case True
    then obtain t where "rdBuf b = l @ newline # t" "t @ pending c = rest"
      using buffered_line less.prems(2) assms(3) by (metis unread_def)
    then show ?thesis
      using less.prems take_line [OF assms(3), of t]
      by (subst readBytes.simps) (simp add: inStep_def unread_def)
  next
    case False
    then have "newline \<in> set (pending c)"
      using less.prems(2) by (metis UnE in_set_conv_decomp set_append unread_def)
    then have e: "rdErr b = None"
      using less.prems(1) by (auto simp: inStep_def)
    obtain b' c' where f: "fill maxConsecutiveEmptyReads rd b c = (b', c')"
      by fastforce
    note p = fill_progress [OF less.prems(1) e f]
    have step: "readBytes rd b c = readBytes rd b' c'"
      using False e f by (subst readBytes.simps) simp
    have un: "unread b' c' = l @ newline # rest"
      using p less.prems(2) by simp
    show ?thesis
    proof (cases "length (pending c') < length (pending c)")
      case True
      then show ?thesis
        using less.hyps [OF True, of b'] p un step by simp
    next
      case more: False
      then have "pending c' = []"
        using p by (auto simp: inStep_def)
      then obtain t where "rdBuf b' = l @ newline # t" "t @ pending c' = rest"
        using buffered_line [of "rdBuf b'" "[]"] un assms(3) by (auto simp: unread_def)
      then show ?thesis
        unfolding step using p take_line [OF assms(3), of t]
        by (subst readBytes.simps) (simp add: inStep_def unread_def)
    qed
  qed
qed

lemma readBytes_end:
  assumes "inStep b c" "newline \<notin> set (unread b c)"
  shows "\<exists>e b' c'. readBytes rd b c = Some (Inl e, b', c') \<and> good c' \<and> written c' = written c"
  using assms
proof (induction "length (pending c)" arbitrary: b c rule: less_induct)
  case less
  have nl: "newline \<notin> set (rdBuf b)"
    using less.prems(2) by (simp add: unread_def)
  show ?case
  proof (cases "rdErr b")
    case (Some e)
    then show ?thesis
      using nl less.prems(1) by (subst readBytes.simps) (simp add: inStep_def)
  next
    case None
    obtain b' c' where f: "fill maxConsecutiveEmptyReads rd b c = (b', c')"
      by fastforce
    note p = fill_progress [OF less.prems(1) None f]
    have step: "readBytes rd b c = readBytes rd b' c'"
      using nl None f by (subst readBytes.simps) simp
    show ?thesis
    proof (cases "length (pending c') < length (pending c)")
      case True
      then show ?thesis
        using less.hyps [OF True, of b'] p less.prems(2) step by simp
    next
      case False
      then obtain e where "rdErr b' = Some e"
        using p by auto
      moreover have "newline \<notin> set (unread b' c')"
        using p less.prems(2) by simp
      ultimately have "rdErr b' = Some e" "newline \<notin> set (rdBuf b')"
        by (simp_all add: unread_def)
      then show ?thesis
        unfolding step using p by (subst readBytes.simps) (auto simp: inStep_def)
    qed
  qed
qed

end


lemma completeLines_none: "newline \<notin> set s \<Longrightarrow> completeLines s = []"
  by (simp add: completeLines_def splitOn_no_sep)

lemma completeLines_Cons:
  "newline \<notin> set l \<Longrightarrow> completeLines (l @ newline # rest) = (l @ [newline]) # completeLines rest"
  by (simp add: completeLines_def splitOn_append_sep)

lemma line_cases:
  obtains "newline \<notin> set s" | l rest where "s = l @ newline # rest" "newline \<notin> set l"
  using split_list_first [of newline s] by blast

context duplex
begin

lemma readMessage_line:
  assumes "inStep b c" "unread b c = l @ newline # rest" "newline \<notin> set l"
  shows "\<exists>b' c'. readMessage rd C v b c =
      Some (case unmarshal C (l @ [newline]) v of Inl e \<Rightarrow> Inl (JsonErr e) | Inr v \<Rightarrow> Inr v, b', c') \<and>
    inStep b' c' \<and> unread b' c' = rest \<and> written c' = written c"
  using readBytes_line [OF assms] by (fastforce simp: readMessage_def)

text \<open>The server loop over any stream does what the reference does on the lines of its input.\<close>

lemma serveLoop_lines:
  assumes "inStep b c"
  shows "\<exists>c'. serveLoop msg H rd wr b c h = Some (c', snd (serveLines msg H (completeLines (unread b c)) h)) \<and>
    written c' = written c @ fst (serveLines msg H (completeLines (unread b c)) h)"
  using assms
proof (induction "length (unread b c)" arbitrary: b c h rule: less_induct)
  case less
  show ?case
  proof (cases "unread b c" rule: line_cases)
    case 1
    from readBytes_end [OF less.prems 1] show ?thesis
      by (subst serveLoop.simps) (auto simp: readMessage_def completeLines_none [OF 1])
  next
    case (2 l rest)
    note lines = completeLines_Cons [OF 2(2), of rest]
    obtain b1 c1 where r: "readMessage rd requestC zeroRequest b c =
        Some (case unmarshal requestC (l @ [newline]) zeroRequest of Inl e \<Rightarrow> Inl (JsonErr e) | Inr v \<Rightarrow> Inr v, b1, c1)"
      and p: "inStep b1 c1" "unread b1 c1 = rest" "written c1 = written c"
      using readMessage_line [OF less.prems 2, of requestC zeroRequest] by (elim exE conjE) (rule that)
    show ?thesis
    proof (cases "unmarshal requestC (l @ [newline]) zeroRequest")
      case (Inl e)
      then show ?thesis
        using r p by (subst serveLoop.simps) (simp add: 2(1) lines)
    next
      case (Inr req)
      obtain resp h1 where d: "dispatch msg H req h = (resp, h1)"
        by fastforce
      obtain e c2 where w: "wr (marshal responseC resp @ [newline]) c1 = (e, c2)"
        by fastforce
      have g: "good c1"
        using p(1) by (simp add: inStep_def)
      note q = wr_all [OF g w]
      have step: "serveLoop msg H rd wr b c h = serveLoop msg H rd wr b1 c2 h1"
        unfolding serveLoop.simps [of msg H rd wr b c h] r Inr using d w q
        by (simp add: writeMessage_def)
      have in2: "inStep b1 c2" "unread b1 c2 = rest" "length (unread b1 c2) < length (unread b c)"
        "written c2 = written c @ marshal responseC resp @ [newline]"
        using p q 2(1) by (auto simp: inStep_def unread_def)
      show ?thesis
        unfolding step using less.hyps [OF in2(3,1), of h1] Inr d in2(2,4)
        by (auto simp: 2(1) lines split: prod.splits)
    qed
  qed
qed

lemma ServeIO_lines:
  assumes "good c"
  shows "\<exists>c'. ServeIO msg H rd wr c h = Some (c', snd (serveLines msg H (completeLines (pending c)) h)) \<and>
    written c' = written c @ fst (serveLines msg H (completeLines (pending c)) h)"
  using serveLoop_lines [of newReader c msg H h] assms
  by (simp add: ServeIO_def inStep_def unread_def newReader_def)

end

section \<open>A stream cut into pieces\<close>

record chunkIO =
  ioIn :: "string list"
  ioOut :: string

definition chunkRead :: "chunkIO reader" where
  "chunkRead c = (case ioIn c of
      [] \<Rightarrow> (([], Some EOF), c) | d # ds \<Rightarrow> ((d, None), c\<lparr>ioIn := ds\<rparr>))"

definition chunkWrite :: "chunkIO writer" where
  "chunkWrite s c = (None, c\<lparr>ioOut := ioOut c @ s\<rparr>)"

interpretation chunks: duplex chunkRead chunkWrite "\<lambda>c. [] \<notin> set (ioIn c)" "\<lambda>c. concat (ioIn c)" ioOut
  by unfold_locales (auto simp: chunkRead_def chunkWrite_def split: list.splits)


section \<open>Sequences of requests\<close>

fun dispatchAll ::
  "(u32 \<Rightarrow> string) \<Rightarrow> 'h Handler \<Rightarrow> Request list \<Rightarrow> 'h \<Rightarrow> Response list \<times> 'h" where
  "dispatchAll msg H [] h = ([], h)"
| "dispatchAll msg H (req # reqs) h =
     (case dispatch msg H req h of (resp, h) \<Rightarrow>
        (case dispatchAll msg H reqs h of (resps, h) \<Rightarrow> (resp # resps, h)))"

text \<open>What the server makes of requests that were sent: each as it arrives.\<close>

definition dispatchSent ::
  "(u32 \<Rightarrow> string) \<Rightarrow> 'h Handler \<Rightarrow> Request list \<Rightarrow> 'h \<Rightarrow> Response list \<times> 'h" where
  "dispatchSent msg H reqs h = dispatchAll msg H (map normRequest reqs) h"

definition requestLines :: "Request list \<Rightarrow> string" where
  "requestLines reqs = concat (map (\<lambda>r. marshal requestC r @ [newline]) reqs)"

definition responseLines :: "Response list \<Rightarrow> string" where
  "responseLines resps = concat (map (\<lambda>r. marshal responseC r @ [newline]) resps)"

lemma request_line:
  "unmarshal requestC (marshal requestC r @ [newline]) zeroRequest = Inr (normRequest r)"
  "newline \<notin> set (marshal requestC r)"
  using request_wire.unmarshal_marshal [of r] request_wire.marshal_no_newline [of r]
  by (simp_all add: newline_def maxNestingDepth_def)

lemma response_line:
  "unmarshal responseC (marshal responseC r @ [newline]) zeroResponse = Inr (normResponse r)"
  "newline \<notin> set (marshal responseC r)"
  using response_wire.unmarshal_marshal [of r] response_wire.marshal_no_newline [of r]
  by (simp_all add: newline_def maxNestingDepth_def)

lemma completeLines_requests:
  "completeLines (requestLines reqs @ s) =
     map (\<lambda>r. marshal requestC r @ [newline]) reqs @ completeLines s"
  by (induction reqs) (simp_all add: requestLines_def completeLines_Cons request_line)

lemma serveLines_requests:
  "dispatchSent msg H reqs h = (resps, h1) \<Longrightarrow> serveLines msg H ls h1 = (out, h2) \<Longrightarrow>
   serveLines msg H (map (\<lambda>r. marshal requestC r @ [newline]) reqs @ ls) h = (responseLines resps @ out, h2)"
  by (induction reqs arbitrary: h resps)
     (auto simp: responseLines_def request_line dispatchSent_def split: prod.splits)

lemma dispatchAll_append:
  "dispatchAll msg H (xs @ ys) h =
     (case dispatchAll msg H xs h of (as, h) \<Rightarrow> (case dispatchAll msg H ys h of (bs, h) \<Rightarrow> (as @ bs, h)))"
  by (induction xs arbitrary: h) (auto split: prod.splits)

lemma dispatchSent_snoc:
  "dispatchSent msg H xs h = (as, h1) \<Longrightarrow> dispatch msg H (normRequest x) h1 = (b, h2) \<Longrightarrow>
   dispatchSent msg H (xs @ [x]) h = (as @ [b], h2)"
  by (simp add: dispatchSent_def dispatchAll_append)

context control_handler
begin

lemma dispatchAll_ok: "ok h \<Longrightarrow> dispatchAll msg H reqs h = (resps, h') \<Longrightarrow> ok h'"
proof (induction reqs arbitrary: h resps)
  case (Cons req reqs)
  obtain resp h1 where d: "dispatch msg H req h = (resp, h1)"
    by fastforce
  then have "ok h1"
    using dispatch_view [OF Cons.prems(1) d] by simp
  then show ?case
    using Cons.IH Cons.prems(2) d by (auto split: prod.splits)
qed simp

end

lemma completeLines_Nil [simp]: "completeLines [] = []"
  by (simp add: completeLines_def)

section \<open>A client and a server on one connection\<close>

text \<open>
  The client's end of a connection whose other end runs \<^verbatim>\<open>ServeIO\<close>: what the client has sent, and how
  much of what the server answered to it has been read.  The answer to the bytes sent so far is
  what \<open>ServeIO\<close> writes when it reads them; when there is nothing to read the peer is taken to have
  ended.
\<close>

record servedConn =
  scSent :: string
  scTaken :: nat

definition servedOut :: "(u32 \<Rightarrow> string) \<Rightarrow> 'h Handler \<Rightarrow> 'h \<Rightarrow> servedConn \<Rightarrow> string" where
  "servedOut msg H h c =
     (case ServeIO msg H chunkRead chunkWrite \<lparr>ioIn = filter (\<lambda>d. d \<noteq> []) [scSent c], ioOut = []\<rparr> h of
        Some (io, _) \<Rightarrow> ioOut io | None \<Rightarrow> [])"

definition servedRead :: "(u32 \<Rightarrow> string) \<Rightarrow> 'h Handler \<Rightarrow> 'h \<Rightarrow> servedConn reader" where
  "servedRead msg H h c =
     (let d = drop (scTaken c) (servedOut msg H h c) in
      if d = [] then (([], Some EOF), c) else ((d, None), c\<lparr>scTaken := scTaken c + length d\<rparr>))"

definition servedWrite :: "servedConn writer" where
  "servedWrite s c = (None, c\<lparr>scSent := scSent c @ s\<rparr>)"

lemma servedOut_lines: "servedOut msg H h c = fst (serveLines msg H (completeLines (scSent c)) h)"
  using chunks.ServeIO_lines [of "\<lparr>ioIn = filter (\<lambda>d. d \<noteq> []) [scSent c], ioOut = []\<rparr>" msg H h]
  by (auto simp: servedOut_def)

text \<open>Requests made one after the other.\<close>

fun doAll ::
  "'c reader \<Rightarrow> 'c writer \<Rightarrow> Request list \<Rightarrow> 'c Client \<Rightarrow> ((msgErr + Response) list \<times> 'c Client) option" where
  "doAll rd wr [] cl = Some ([], cl)"
| "doAll rd wr (req # reqs) cl =
     (case Do rd wr req cl of None \<Rightarrow> None
      | Some (r, cl) \<Rightarrow>
          (case doAll rd wr reqs cl of None \<Rightarrow> None | Some (rs, cl) \<Rightarrow> Some (r # rs, cl)))"

text \<open>The client after \<open>reqs\<close> have been asked and answered.\<close>

definition clientAt :: "(u32 \<Rightarrow> string) \<Rightarrow> 'h Handler \<Rightarrow> 'h \<Rightarrow> Request list \<Rightarrow> servedConn Client" where
  "clientAt msg H h reqs =
     \<lparr>clConn = \<lparr>scSent = requestLines reqs, scTaken = length (responseLines (fst (dispatchSent msg H reqs h)))\<rparr>,
      clR = newReader\<rparr>"

lemma servedOut_requests:
  "servedOut msg H h \<lparr>scSent = requestLines reqs, scTaken = n\<rparr> = responseLines (fst (dispatchSent msg H reqs h))"
  using completeLines_requests [of reqs "[]"] serveLines_requests [of msg H reqs h _ _ "[]"]
  by (cases "dispatchSent msg H reqs h") (simp add: servedOut_lines)

lemma readBytes_one_read:
  assumes "rd c = ((l @ [newline], None), c')" "newline \<notin> set l"
  shows "readBytes rd newReader c = Some (Inr (l @ [newline]), newReader, c')"
proof -
  have "fill maxConsecutiveEmptyReads rd newReader c = (newReader\<lparr>rdBuf := l @ [newline]\<rparr>, c')"
    using assms(1) by (simp add: maxConsecutiveEmptyReads_def eval_nat_numeral newReader_def)
  then show ?thesis
    using chunks.take_line [OF assms(2), of "[]"]
    by (subst readBytes.simps) (simp add: newReader_def, subst readBytes.simps, simp add: newReader_def)
qed

lemma Do_served:
  assumes "dispatchSent msg H reqs h = (resps, h1)" "dispatch msg H (normRequest req) h1 = (resp, h2)"
  shows "Do (servedRead msg H h) servedWrite req (clientAt msg H h reqs) =
    Some (Inr (normResponse resp), clientAt msg H h (reqs @ [req]))"
proof -
  let ?c = "\<lparr>scSent = requestLines (reqs @ [req]), scTaken = length (responseLines resps)\<rparr>"
  note all = dispatchSent_snoc [OF assms]
  have "drop (scTaken ?c) (servedOut msg H h ?c) = marshal responseC resp @ [newline]"
    using servedOut_requests [of msg H h "reqs @ [req]"] by (simp add: all responseLines_def)
  then have "servedRead msg H h ?c = ((marshal responseC resp @ [newline], None),
      ?c\<lparr>scTaken := length (responseLines (resps @ [resp]))\<rparr>)"
    by (simp add: servedRead_def responseLines_def)
  from readBytes_one_read [of "servedRead msg H h", OF this response_line(2)]
  have "readMessage (servedRead msg H h) responseC zeroResponse newReader ?c =
      Some (Inr (normResponse resp), newReader, ?c\<lparr>scTaken := length (responseLines (resps @ [resp]))\<rparr>)"
    using response_line(1) [of resp] by (simp add: readMessage_def)
  moreover have "requestLines (reqs @ [req]) = requestLines reqs @ marshal requestC req @ [newline]"
    by (simp add: requestLines_def)
  ultimately show ?thesis
    by (simp add: Do_def writeMessage_def servedWrite_def clientAt_def assms(1) all)
qed

lemma NewClient_at: "NewClient \<lparr>scSent = [], scTaken = 0\<rparr> = clientAt msg H h []"
  by (simp add: NewClient_def clientAt_def requestLines_def responseLines_def dispatchSent_def)

lemma doAll_served:
  assumes "dispatchSent msg H before h = (old, h1)" "dispatchSent msg H reqs h1 = (resps, h2)"
  shows "doAll (servedRead msg H h) servedWrite reqs (clientAt msg H h before) =
    Some (map (Inr \<circ> normResponse) resps, clientAt msg H h (before @ reqs))"
  using assms
proof (induction reqs arbitrary: before old h1 resps)
  case Nil
  then show ?case
    by (simp add: dispatchSent_def)
next
  case (Cons req reqs)
  obtain resp h' rs where d: "dispatch msg H (normRequest req) h1 = (resp, h')" "dispatchSent msg H reqs h' = (rs, h2)"
    "resps = resp # rs"
    using Cons.prems(2) by (auto simp: dispatchSent_def split: prod.splits)
  show ?case
    using Cons.IH [OF dispatchSent_snoc [OF Cons.prems(1) d(1)] d(2)] d(3) Do_served [OF Cons.prems(1) d(1)]
    by simp
qed

lemma ServeIO_pieces:
  assumes "[] \<notin> set pieces" "serveLines msg H (completeLines (concat pieces)) h = (out, h')"
  shows "\<exists>rest. ServeIO msg H chunkRead chunkWrite \<lparr>ioIn = pieces, ioOut = []\<rparr> h =
    Some (\<lparr>ioIn = rest, ioOut = out\<rparr>, h')"
proof -
  obtain c where "ServeIO msg H chunkRead chunkWrite \<lparr>ioIn = pieces, ioOut = []\<rparr> h = Some (c, h')" "ioOut c = out"
    using chunks.ServeIO_lines [of "\<lparr>ioIn = pieces, ioOut = []\<rparr>" msg H h] assms by auto
  then show ?thesis
    by (cases c) auto
qed

section \<open>Accepting connections\<close>

text \<open>A listener that hands out \<open>conns\<close> and then fails: one goroutine each, in order, then the error.\<close>

definition listAccept :: "gerr \<Rightarrow> 'c list \<Rightarrow> (gerr + 'c) \<times> 'c list" where
  "listAccept err l = (case l of [] \<Rightarrow> (Inl err, []) | c # cs \<Rightarrow> (Inr c, cs))"

lemma Serve_accepts_all: "Serve (listAccept err) conns started = Some (err, started @ conns, [])"
  by (induction conns arbitrary: started) (subst Serve.simps, simp add: listAccept_def)+

section \<open>Properties\<close>

text \<open>
  C14: every request is one line of text on the wire, and the server decodes that line to the request
  that was sent, omitted fields included, with the bytes of its strings that are not UTF-8
  replaced; a request whose strings are valid arrives as it was sent.
\<close>

theorem request_roundtrip:
  "unmarshal requestC (marshal requestC r @ [newline]) zeroRequest = Inr (normRequest r) \<and>
   newline \<notin> set (marshal requestC r) \<and> (cleanRequest r \<longrightarrow> normRequest r = r)"
  using request_line normRequest_clean by blast

definition sampleConfig :: ParsedConfig where
  "sampleConfig = \<lparr>pcInterface = zeroInterface\<lparr>piPrivateKey := ''0a'', piListenPort := -7\<rparr>,
     pcPeers = Some [zeroPeer\<lparr>ppPublicKey := ''0b'', ppAllowedIPs := [''0.0.0.0/0'', ''::/0'']\<rparr>]\<rparr>"

definition sampleRequest :: Request where
  "sampleRequest = zeroRequest\<lparr>reqCmd := CmdSerializeConfig, reqSince := 3, reqParsedConfig := Some sampleConfig\<rparr>"

lemma sampleRequest_clean: "cleanRequest sampleRequest"
  by (simp add: cleanRequest_def sampleRequest_def zeroRequest_def cleanConfig_def sampleConfig_def cleanInterface_def
      cleanPeer_def zeroInterface_def zeroPeer_def cmd_defs validUtf8_ascii byteOf_def)

theorem request_roundtrip_witness:
  "unmarshal requestC (marshal requestC sampleRequest @ [newline]) zeroRequest = Inr sampleRequest"
  using request_roundtrip [of sampleRequest] sampleRequest_clean by simp

text \<open>
  C17: the same for responses, with the status, its peers, the log lines and a configuration in them.
\<close>

theorem response_roundtrip:
  "unmarshal responseC (marshal responseC r @ [newline]) zeroResponse = Inr (normResponse r) \<and>
   newline \<notin> set (marshal responseC r) \<and> (cleanResponse r \<longrightarrow> normResponse r = r)"
  using response_line normResponse_clean by blast

definition sampleResponse :: Response where
  "sampleResponse = zeroResponse\<lparr>respOK := True,
     respStatus := Some \<lparr>stState = StateConnected, stName = ''home'', stIface = ''veil0'',
       stPeers = [zeroPeerStatus\<lparr>psPublicKey := ''0b'', psConnected := True, psLastHandshake := -1, psRxBytes := 5\<rparr>]\<rparr>,
     respLogs := [\<lparr>Seq = 1, Time = 2, Level = [], Msg = ''up''\<rparr>]\<rparr>"

theorem response_roundtrip_witness:
  "unmarshal responseC (marshal responseC sampleResponse @ [newline]) zeroResponse = Inr sampleResponse"
proof -
  have "cleanResponse sampleResponse"
    by (simp add: cleanResponse_def sampleResponse_def zeroResponse_def cleanStatus_def cleanLine_def
        zeroPeerStatus_def state_defs validUtf8_ascii byteOf_def)
  then show ?thesis
    using response_roundtrip [of sampleResponse] by simp
qed

text \<open>
  C13: however the input arrives in pieces, \<^verbatim>\<open>ServeIO\<close> returns at its end, and what it wrote and what the
  handler went through are those of the reference: the complete lines in order, each decoded,
  dispatched and answered, until one does not decode; an unterminated last line is not served.
\<close>

theorem ServeIO_refines_lines:
  assumes "[] \<notin> set pieces" "serveLines msg H (completeLines (concat pieces)) h = (out, h')"
  shows "\<exists>rest. ServeIO msg H chunkRead chunkWrite \<lparr>ioIn = pieces, ioOut = []\<rparr> h =
    Some (\<lparr>ioIn = rest, ioOut = out\<rparr>, h')"
  using ServeIO_pieces [OF assms] .

lemma null_line: "unmarshal requestC (''null'' @ [newline]) zeroRequest = Inr zeroRequest"
  by (simp add: unmarshal_def parseText_def parseJson.simps(1) skipWs_def isSpace_def newline_def quote_def
      scanWord_def requestC_def structC_def)

lemma dispatch_zero:
  "dispatch (\<lambda>_. []) inertHandler zeroRequest () = (zeroResponse\<lparr>respError := ''unknown command: ''\<rparr>, ())"
  using dispatch_other [of zeroRequest "\<lambda>_. []" inertHandler "()"] by (simp add: commands_def cmd_defs zeroRequest_def)

lemma normRequest_zero [simp]: "normRequest zeroRequest = zeroRequest"
  by (simp add: normRequest_def zeroRequest_def)

theorem ServeIO_refines_lines_witness:
  "\<exists>rest. ServeIO (\<lambda>_. []) inertHandler chunkRead chunkWrite
       \<lparr>ioIn = [''nu'', ''ll'' @ [newline], ''nul''], ioOut = []\<rparr> () =
     Some (\<lparr>ioIn = rest, ioOut = marshal responseC (zeroResponse\<lparr>respError := ''unknown command: ''\<rparr>) @ [newline]\<rparr>, ())"
proof -
  have "completeLines (concat [''nu'', ''ll'' @ [newline], ''nul'']) = [''null'' @ [newline]]"
    by (simp add: completeLines_def newline_def)
  then have "serveLines (\<lambda>_. []) inertHandler (completeLines (concat [''nu'', ''ll'' @ [newline], ''nul''])) ()
      = (marshal responseC (zeroResponse\<lparr>respError := ''unknown command: ''\<rparr>) @ [newline], ())"
    using null_line by (simp add: dispatch_zero)
  from ServeIO_refines_lines [OF _ this] show ?thesis
    by simp
qed

text \<open>
  C18: a line that is not a request ends the connection: the requests before it are dispatched and
  answered, nothing is written for it or for anything after it, and the handler is not called again.
\<close>

theorem malformed_line_ends_connection:
  assumes "newline \<notin> set bad" "unmarshal requestC (bad @ [newline]) zeroRequest = Inl e"
    and "[] \<notin> set pieces" "concat pieces = requestLines reqs @ bad @ newline # later"
    and "dispatchSent msg H reqs h = (resps, h')"
  shows "\<exists>rest. ServeIO msg H chunkRead chunkWrite \<lparr>ioIn = pieces, ioOut = []\<rparr> h =
    Some (\<lparr>ioIn = rest, ioOut = responseLines resps\<rparr>, h')"
proof (rule ServeIO_pieces [OF assms(3)])
  have "completeLines (concat pieces) =
      map (\<lambda>r. marshal requestC r @ [newline]) reqs @ (bad @ [newline]) # completeLines later"
    using completeLines_requests completeLines_Cons [OF assms(1), of later] assms(4) by simp
  moreover have "serveLines msg H ((bad @ [newline]) # completeLines later) h' = ([], h')"
    using assms(2) by simp
  ultimately show "serveLines msg H (completeLines (concat pieces)) h = (responseLines resps, h')"
    using serveLines_requests [OF assms(5), of "(bad @ [newline]) # completeLines later" "[]" h'] by simp
qed

theorem malformed_line_ends_connection_witness:
  "\<exists>rest. ServeIO (\<lambda>_. []) inertHandler chunkRead chunkWrite
       \<lparr>ioIn = [marshal requestC zeroRequest @ [newline] @ ''7'' @ [newline] @ ''null'' @ [newline]], ioOut = []\<rparr> () =
     Some (\<lparr>ioIn = rest, ioOut = responseLines [zeroResponse\<lparr>respError := ''unknown command: ''\<rparr>]\<rparr>, ())"
proof -
  have bad: "unmarshal requestC (''7'' @ [newline]) zeroRequest = Inl JsonType"
    by (simp add: unmarshal_def parseText_def parseJson.simps(1) skipWs_def isSpace_def newline_def quote_def
      scanNumber_def scanInt_def scanFrac_def scanExp_def isDigit_def requestC_def structC_def)
  have run: "dispatchSent (\<lambda>_. []) inertHandler [zeroRequest] () = ([zeroResponse\<lparr>respError := ''unknown command: ''\<rparr>], ())"
    by (simp add: dispatchSent_def dispatch_zero)
  show ?thesis
    using malformed_line_ends_connection [OF _ bad _ _ run,
        of "[marshal requestC zeroRequest @ [newline] @ ''7'' @ [newline] @ ''null'' @ [newline]]" "''null'' @ [newline]"]
    by (simp add: newline_def requestLines_def)
qed

text \<open>
  A client on a connection served by \<^verbatim>\<open>ServeIO\<close> gets, for each request it makes with \<^verbatim>\<open>Do\<close> and whatever the
  texts in it, the response that the dispatcher gives to that request in that state, in order,
  with no error; only bytes that are not UTF-8 are replaced, on the way in and on the way out.
\<close>

lemma client_sees_dispatch:
  assumes "dispatchAll msg H (map normRequest reqs) h = (resps, h')"
  shows "\<exists>cl. doAll (servedRead msg H h) servedWrite reqs (NewClient \<lparr>scSent = [], scTaken = 0\<rparr>) =
    Some (map (\<lambda>r. Inr (normResponse r)) resps, cl)"
  using doAll_served [of msg H "[]" h "[]" h reqs resps h'] assms
  by (simp add: NewClient_at [of msg H h] dispatchSent_def comp_def)

end
