(* ===== verification/Control_Conc.thy ===== *)
theory Control_Conc
  imports Control_Server
begin

text \<open>
  Several connections at once.  \<^verbatim>\<open>Serve\<close> (\<^verbatim>\<open>src/control/server.go\<close>) starts one goroutine per connection, and
  each dispatched request makes up to two calls of the handler: its own operation and then
  \<^verbatim>\<open>Status\<close>.  Each call is atomic (the handler locks), the request as a whole is not.  A step is one
  handler call of one connection, or something the handler's own goroutines do.
\<close>

section \<open>A dispatch in two calls\<close>

text \<open>
  The switch up to the call of \<^verbatim>\<open>Status\<close>: either the reply is complete, or the status is still to be
  asked for, with the log lines read so far.
\<close>

definition dispatchBegin ::
  "(u32 \<Rightarrow> string) \<Rightarrow> 'h Handler \<Rightarrow> Request \<Rightarrow> 'h \<Rightarrow> (Response + LogLine list) \<times> 'h" where
  "dispatchBegin msg H req h =
     (if reqCmd req = CmdStatus then (Inr [], h)
      else if reqCmd req = CmdConnect then
        (case hConnect H (reqConfig req) (reqName req) h of
           (Some err, h) \<Rightarrow> (Inl (errorReply msg err), h)
         | (None, h) \<Rightarrow> (Inr [], h))
      else if reqCmd req = CmdDisconnect then
        (case hDisconnect H h of
           (Some err, h) \<Rightarrow> (Inl (errorReply msg err), h)
         | (None, h) \<Rightarrow> (Inr [], h))
      else if reqCmd req = CmdLogs then
        (case hLogs H (reqSince req) h of (logs, h) \<Rightarrow> (Inr logs, h))
      else (case dispatch msg H req h of (resp, h) \<Rightarrow> (Inl resp, h)))"

definition dispatchEnd :: "'h Handler \<Rightarrow> LogLine list \<Rightarrow> 'h \<Rightarrow> Response \<times> 'h" where
  "dispatchEnd H logs h =
     (case hStatus H h of
        (st, h) \<Rightarrow> (zeroResponse\<lparr>respOK := True, respStatus := Some st, respLogs := logs\<rparr>, h))"

lemma dispatch_two_calls:
  "dispatch msg H req h =
     (case dispatchBegin msg H req h of
        (Inl resp, h) \<Rightarrow> (resp, h) | (Inr logs, h) \<Rightarrow> dispatchEnd H logs h)"
  unfolding dispatchBegin_def dispatchEnd_def
  by (simp add: dispatch_simps split: prod.splits option.splits)

section \<open>Interleaved connections\<close>

record 'h hub =
  hubH :: 'h
  hubPending :: "nat \<Rightarrow> (Request \<times> LogLine list) option"
  hubReplies :: "(nat \<times> Request \<times> Response) list"

definition initHub :: "'h \<Rightarrow> 'h hub" where
  "initHub h = \<lparr>hubH = h, hubPending = (\<lambda>_. None), hubReplies = []\<rparr>"

inductive hubStep ::
  "(u32 \<Rightarrow> string) \<Rightarrow> 'h Handler \<Rightarrow> ('h \<Rightarrow> 'h \<Rightarrow> bool) \<Rightarrow> 'h hub \<Rightarrow> 'h hub \<Rightarrow> bool"
  for msg H move where
  direct: "hubPending s i = None \<Longrightarrow> dispatchBegin msg H req (hubH s) = (Inl resp, h) \<Longrightarrow>
    hubStep msg H move s (s\<lparr>hubH := h, hubReplies := hubReplies s @ [(i, req, resp)]\<rparr>)"
| started: "hubPending s i = None \<Longrightarrow> dispatchBegin msg H req (hubH s) = (Inr logs, h) \<Longrightarrow>
    hubStep msg H move s (s\<lparr>hubH := h, hubPending := (hubPending s)(i \<mapsto> (req, logs))\<rparr>)"
| finished: "hubPending s i = Some (req, logs) \<Longrightarrow> dispatchEnd H logs (hubH s) = (resp, h) \<Longrightarrow>
    hubStep msg H move s (s\<lparr>hubH := h, hubPending := (hubPending s)(i := None),
      hubReplies := hubReplies s @ [(i, req, resp)]\<rparr>)"
| elsewhere: "move (hubH s) h \<Longrightarrow> hubStep msg H move s (s\<lparr>hubH := h\<rparr>)"

inductive_cases hubStepE: "hubStep msg H move s s'"

definition hubRun where
  "hubRun msg H move = (hubStep msg H move)\<^sup>*\<^sup>*"

context control_handler
begin

lemma dispatchBegin_ok:
  assumes "ok h" "dispatchBegin msg H req h = (r, h')"
  shows "ok h'"
proof (cases "reqCmd req \<in> {CmdStatus, CmdConnect, CmdDisconnect, CmdLogs}")
  case True
  then show ?thesis
    using assms
    by (auto simp: dispatchBegin_def cmd_defs split: prod.splits option.splits
        dest: connect_view disconnect_view logs_view)
next
  case False
  then obtain resp where "dispatch msg H req h = (resp, h')"
    using assms(2) by (auto simp: dispatchBegin_def split: prod.splits)
  then show ?thesis
    using dispatch_view [OF assms(1)] by blast
qed

lemma dispatchEnd_reports:
  assumes "ok h" "dispatchEnd H logs h = (resp, h')"
  shows "ok h' \<and> view h' = view h \<and> respOK resp \<and>
    (\<exists>st. respStatus resp = Some st \<and> (stState st = StateDisconnected) = (view h' = None) \<and>
       (\<forall>n. view h' = Some n \<longrightarrow> stName st = n))"
proof -
  obtain st where st: "hStatus H h = (st, h')" "resp = zeroResponse\<lparr>respOK := True, respStatus := Some st, respLogs := logs\<rparr>"
    using assms(2) by (auto simp: dispatchEnd_def split: prod.splits)
  from status_view [OF assms(1) st(1)] show ?thesis
    by (auto simp: st(2) zeroResponse_def zeroStatus_def split: option.splits)
qed

lemma hubStep_ok:
  assumes "hubStep msg H move s s'" "\<And>h h'. move h h' \<Longrightarrow> ok h \<Longrightarrow> ok h'" "ok (hubH s)"
  shows "ok (hubH s')"
  using assms by (auto elim!: hubStepE dest: dispatchBegin_ok dispatchEnd_reports)

lemma hubRun_ok:
  assumes "hubRun msg H move s s'" "\<And>h h'. move h h' \<Longrightarrow> ok h \<Longrightarrow> ok h'" "ok (hubH s)"
  shows "ok (hubH s')"
  using assms(1) unfolding hubRun_def
  by (induction rule: rtranclp_induct) (use assms(2,3) hubStep_ok in blast)+

text \<open>A pending request can always be finished, with a reply that describes the state at that moment.\<close>

lemma hub_finishes:
  assumes "ok (hubH s)" "hubPending s i = Some (req, logs)"
  shows "\<exists>s' resp st. hubStep msg H move s s' \<and> hubPending s' i = None \<and>
    hubReplies s' = hubReplies s @ [(i, req, resp)] \<and> respOK resp \<and> respStatus resp = Some st \<and>
    (stState st = StateDisconnected) = (view (hubH s') = None) \<and> (\<forall>n. view (hubH s') = Some n \<longrightarrow> stName st = n)"
proof -
  obtain resp h where d: "dispatchEnd H logs (hubH s) = (resp, h)"
    by fastforce
  let ?s = "s\<lparr>hubH := h, hubPending := (hubPending s)(i := None), hubReplies := hubReplies s @ [(i, req, resp)]\<rparr>"
  have "hubStep msg H move s ?s"
    using hubStep.finished [OF assms(2) d] .
  moreover obtain st where "respOK resp" "respStatus resp = Some st"
    "(stState st = StateDisconnected) = (view h = None)" "\<forall>n. view h = Some n \<longrightarrow> stName st = n"
    using dispatchEnd_reports [OF assms(1) d] by (elim conjE exE) (rule that)
  ultimately show ?thesis
    by (intro exI [of _ ?s] exI [of _ resp] exI [of _ st]) simp
qed

text \<open>
  Every status that is sent describes the state right after the call that made it: the last reply
  of a step that adds one.
\<close>

lemma hubStep_reports:
  assumes "hubStep msg H move s s'" "ok (hubH s)" "hubReplies s' = hubReplies s @ [(i, req, resp)]"
    and "respStatus resp = Some st"
  shows "(stState st = StateDisconnected) = (view (hubH s') = None) \<and> (\<forall>n. view (hubH s') = Some n \<longrightarrow> stName st = n)"
  using assms(1)
proof cases
  case (direct j req' resp' h)
  then have r: "dispatchBegin msg H req (hubH s) = (Inl resp, h)" "hubH s' = h"
    using assms(3) by simp_all
  then have "dispatch msg H req (hubH s) = (resp, h)"
    by (simp add: dispatch_two_calls)
  then show ?thesis
    using reply_reports_view [OF assms(2) _ assms(4)] r(2) by blast
next
  case (finished j req' logs resp' h)
  then have "dispatchEnd H logs (hubH s) = (resp, h)" "hubH s' = h"
    using assms(3) by simp_all
  then show ?thesis
    using dispatchEnd_reports [OF assms(2)] assms(4) by fastforce
qed (use assms(3) in auto)

end

end
