(* ===== verification/Spec2Isabelle.thy ===== *)
theory Spec2Isabelle
  imports Win_Change Win_Enums Win_Table Win_Layout Veiltun_Sync Veiltun_Read Veil_Routes Control_Io Control_Conc
begin

text \<open>
  A verification development of veil-windows, the Windows side of the VEIL tunnel (Go).

  \<^bold>\<open>The program.\<close>  A front-end drives a tunnel backend over a control channel of JSON lines
  (\<^verbatim>\<open>src/control\<close>).  The backend is the tunnel controller (\<^verbatim>\<open>src/wintunnel\<close>): it creates a TUN device
  (\<^verbatim>\<open>src/windev/device.go\<close> over the driver binding \<^verbatim>\<open>src/veiltun\<close>), binds and tunes a UDP socket,
  configures addresses, routes and DNS (\<^verbatim>\<open>src/windev/routing.go\<close> over \<^verbatim>\<open>src/winipcfg\<close>), starts an
  engine on them, and takes all of it down again.  \<^verbatim>\<open>src/cmd/veil-client\<close> does the same as a
  stand-alone program.  \<^verbatim>\<open>src/winipcfg\<close> wraps the IP helper DLL and keeps registries of change
  callbacks.  The engine, the configuration parser, the DLLs, the driver and the operating system
  are not in the repository: they are parameters, and what is relied on of them is a named
  predicate (\<open>documented_\<dots>\<close>, \<open>engine_docs\<close>, \<open>net_docs\<close>, \<open>driver_docs\<close>) that a reference host in
  \<open>Win_Memory\<close>, \<open>Veiltun\<close> and \<open>Wintunnel_Host\<close> satisfies.

  \<^bold>\<open>The theories\<close>, in the order of their dependency:

  \<^item> \<open>Prelude\<close>: machine integers, Go errors and panics, slices, strings.
  \<^item> \<open>Netip\<close>: \<^verbatim>\<open>net/netip\<close> as far as the program uses it: addresses, prefixes, parsing, printing;
    \<open>Netip_Text\<close>: the text of every valid address and prefix parses back to it.
  \<^item> \<open>Control_Log\<close> (\<^verbatim>\<open>control/logbuf.go\<close>): the ring buffer.  It is refined to the history of all
    appended lines; \<^verbatim>\<open>Since\<close> is exact; polling loses and repeats nothing.
  \<^item> \<open>Control_Proto\<close>, \<open>Control_Server\<close> (\<^verbatim>\<open>control/proto.go\<close>, \<^verbatim>\<open>server.go\<close>): message types and \<^verbatim>\<open>dispatch\<close>,
    with the contract of a handler as the locale \<open>control_handler\<close>.
  \<^item> \<open>Control_Conc\<close>: requests of several connections, interleaved at each call of the handler.
  \<^item> \<open>Json\<close>, \<open>Json_Read\<close>, \<open>Json_Struct\<close>: \<^verbatim>\<open>encoding/json\<close>: UTF-8 and string escapes, the grammar with its
    nesting limit, struct tags with \<^verbatim>\<open>omitempty\<close>, decoding onto existing values.  A printed value parses back
    to itself, bytes that are not UTF-8 replaced, and has no line break; the locales \<open>wire_codec\<close> and \<open>omit_codec\<close> are the contract of a type.
  \<^item> \<open>Control_Wire\<close>: the field tables of all messages, each an interpretation of that contract; \<open>normRequest\<close>
    and its companions say what a message is after the wire, which is itself when its texts are UTF-8.
  \<^item> \<open>Control_Io\<close> (\<^verbatim>\<open>readMessage\<close>, \<^verbatim>\<open>writeMessage\<close>, \<^verbatim>\<open>ServeIO\<close>, \<^verbatim>\<open>serveConn\<close>, \<^verbatim>\<open>Serve\<close>, \<^verbatim>\<open>client.go\<close>): the server loop on any
    stream (locale \<open>duplex\<close>) is the line-by-line reference \<open>serveLines\<close>, for any cutting of the input;
    a client on a served connection sees exactly what the dispatcher returns.
  \<^item> \<open>Win_Types\<close> (\<^verbatim>\<open>winipcfg/types.go\<close>): the socket-address union byte by byte, prefixes, rows.
  \<^item> \<open>Win_Api\<close> (\<^verbatim>\<open>zwinipcfg_windows.go\<close>, \<^verbatim>\<open>winipcfg.go\<close>): the call wrappers over the record \<open>iphlpapi\<close> of DLL
    entry points; \<open>Win_Memory\<close> is an implementation of that record in memory.
  \<^item> \<open>Win_Luid\<close> (\<^verbatim>\<open>luid.go\<close>): addresses, routes and DNS of an interface.
  \<^item> \<open>Win_Adapters\<close>: the adapter query with its growing buffer, \<^verbatim>\<open>DNS\<close>, \<^verbatim>\<open>Interface\<close>, accessors.
  \<^item> \<open>Win_Table\<close>: the table queries with the memory that carries a table; they read nothing that was
    freed, leave nothing behind, and return what the row-level readers return.
  \<^item> \<open>Win_Enums\<close> (\<^verbatim>\<open>types.go\<close>): the constant blocks as data, evaluated by Go's rules.
  \<^item> \<open>Win_Layout\<close> (\<^verbatim>\<open>types_64.go\<close>, \<^verbatim>\<open>types_32.go\<close>): the structures as data, with Go's layout rules; the
    32-bit declarations are at the offsets of the 64-bit ones.
  \<^item> \<open>Win_Change\<close> (the three \<^verbatim>\<open>change_handler.go\<close> files): one step relation over register, unregister,
    notification and callback goroutines, instantiated three times; after \<^verbatim>\<open>Unregister\<close> nothing runs.
  \<^item> \<open>Veiltun\<close> (\<^verbatim>\<open>veiltun.go\<close>, \<^verbatim>\<open>session.go\<close>, \<^verbatim>\<open>device.go\<close>): loading, adapters, sessions, batched reads and
    writes; \<open>Veiltun_Sync\<close>: the interleavings of \<^verbatim>\<open>Read\<close>, \<^verbatim>\<open>Write\<close>, \<^verbatim>\<open>Close\<close> and \<^verbatim>\<open>LUID\<close>, and
    that \<^verbatim>\<open>Close\<close> completes in every fair schedule with finitely many new calls;
    \<open>Veiltun_Read\<close>: \<^verbatim>\<open>Read\<close> returns, whatever arrives while it spins and waits and however often it is
    woken for nothing.
  \<^item> \<open>Windev_Device\<close>, \<open>Windev_Routing\<close> (\<^verbatim>\<open>windev\<close>): the device of the engine; routing and its cleanup.
  \<^item> \<open>Wintunnel\<close>, \<open>Wintunnel_Resources\<close>, \<open>Wintunnel_Host\<close> (\<^verbatim>\<open>wintunnel\<close>): the controller with its
    error-watching goroutines as a step relation, the account of what it holds of the system,
    and a reference host on which the hypotheses are met.
  \<^item> \<open>Veil_Client\<close> (\<^verbatim>\<open>cmd/veil-client/main.go\<close>): the stand-alone program; \<open>Veil_Routes\<close>: a normal exit
    restores the routes of the other interfaces, a fatal one after routing leaves the exception route behind.

  \<^bold>\<open>State and errors.\<close>  A struct is a record; an operation returns its results and the new state; the
  state of the outside is a type variable that is only passed to the parameters.  Errors are values
  of \<open>gerr\<close>, run-time panics are \<^const>\<open>Panic\<close> or \<^const>\<open>None\<close>.  Operations under one mutex are one step;
  where the code releases a lock or uses atomics, the steps are separate.

  \<^bold>\<open>Loops and bounds.\<close>  Loops over data are recursive functions.  Loops that wait for the outside
  (\<^verbatim>\<open>ReadBytes\<close>, \<^verbatim>\<open>ServeIO\<close>, \<^verbatim>\<open>Serve\<close>, linked lists in foreign memory) are partial functions into option, and
  that they return is proved where it is claimed.  The spinning read loop is one of them; that it returns
  needs a clock that does not stop and that a wait is not woken for nothing for ever; a wake-up with an
  empty ring goes round the loop again.  That a close completes needs a scheduler that is fair to each
  goroutine.  \<^verbatim>\<open>int\<close> and \<^verbatim>\<open>uintptr\<close> have 64 bits; the 32-bit build appears in \<open>Win_Layout\<close> and in the calling conventions of the DNS call.

  \<^bold>\<open>Not modelled.\<close>  The texts of JSON errors and log messages beyond their arguments;
  \<^verbatim>\<open>errnoErr\<close> of the generated wrappers, which none of them calls; \<^verbatim>\<open>mksyscall.go\<close> (a generator directive) and \<^verbatim>\<open>version.go\<close> (a build
  constant).
\<close>

section \<open>The whole control path\<close>

text \<open>
  C1: a session of requests from a client to the tunnel controller, through the wire format on both
  sides.  The client reads, for every request, the controller's response; and when it has read
  the last one, there is a tunnel exactly as the replies say: a successful connect leaves one
  under the requested name, a failed connect and a disconnect leave none, any other request
  leaves it as it was; a status in the last reply describes it.  Texts in requests and replies are
  arbitrary bytes: those that are not UTF-8 arrive replaced, and no other text arrives as a command.
\<close>

theorem remote_control:
  fixes E :: "('e, 'w) env" and s :: "('e, 'w) service"
  assumes "H = tunnelHandler E parse print" "tunnel_ok (svTunnel s)"
    and "dispatchAll msg H (map normRequest reqs) s = (resps, s1)"
    and "dispatch msg H (normRequest req) s1 = (resp, s2)"
  shows "(\<exists>cl. doAll (servedRead msg H s) servedWrite (reqs @ [req]) (NewClient \<lparr>scSent = [], scTaken = 0\<rparr>) =
        Some (map (\<lambda>r. Inr (normResponse r)) (resps @ [resp]), cl)) \<and>
    tunnelView s2 =
      (if reqCmd req = CmdConnect then if respOK resp then Some (sanitize (reqName req)) else None
       else if reqCmd req = CmdDisconnect then None else tunnelView s1) \<and>
    (\<forall>st. respStatus resp = Some st \<longrightarrow>
       (stState st = StateDisconnected) = (tunnelView s2 = None) \<and>
       (\<forall>n. tunnelView s2 = Some n \<longrightarrow> stName st = n))"
proof -
  have ok: "tunnel_ok (svTunnel s1)"
    using control_handler.dispatchAll_ok [OF th.control_handler_axioms assms(2) assms(3) [unfolded assms(1)]] .
  have "dispatchAll msg H (map normRequest (reqs @ [req])) s = (resps @ [resp], s2)"
    using assms(3,4) by (simp add: dispatchAll_append)
  from client_sees_dispatch [OF this] show ?thesis
    using th.dispatch_view [OF ok assms(4) [unfolded assms(1)]] th.reply_reports_view [OF ok assms(4) [unfolded assms(1)]]
    by (auto simp: normRequest_def [of req] simp flip: normRequest_cmd)
qed

theorem remote_control_witness:
  "let H = tunnelHandler hostEnv (\<lambda>t. Inl (ErrText [])) (\<lambda>c. Inr []);
       (resp, s) = dispatch (\<lambda>e. []) H (zeroRequest\<lparr>reqCmd := CmdDisconnect\<rparr>) (initService host0)
   in (\<exists>cl. doAll (servedRead (\<lambda>e. []) H (initService host0)) servedWrite [zeroRequest\<lparr>reqCmd := CmdDisconnect\<rparr>]
        (NewClient \<lparr>scSent = [], scTaken = 0\<rparr>) = Some ([Inr resp], cl)) \<and> tunnelView s = None \<and> respOK resp"
proof -
  let ?H = "tunnelHandler hostEnv (\<lambda>t. Inl (ErrText [])) (\<lambda>c. Inr [])" and ?req = "zeroRequest\<lparr>reqCmd := CmdDisconnect\<rparr>"
  obtain resp s where d: "dispatch (\<lambda>e. []) ?H ?req (initService host0) = (resp, s)"
    by fastforce
  have ok: "tunnel_ok (svTunnel (initService host0))"
    by (simp add: initService_def zeroTunnel_def tunnel_ok_def)
  have r: "resp = zeroResponse\<lparr>respOK := True, respStatus := Some (zeroStatus\<lparr>stState := StateDisconnected\<rparr>)\<rparr>"
    using d by (auto simp: dispatch_def cmd_defs zeroRequest_def tunnelHandler_def Disconnect_def stopLocked_def
        initService_def zeroTunnel_def statusReply_def tunnelStatus_def Let_def)
  have clean: "normRequest ?req = ?req" "normResponse resp = resp"
    by (simp_all add: r normRequest_def normResponse_def normStatus_def zero_defs cmd_defs state_defs sanitize_ascii byteOf_def)
  then have "dispatch (\<lambda>e. []) ?H (normRequest ?req) (initService host0) = (resp, s)"
    using d by simp
  from remote_control [OF refl ok _ this, of "[]" "[]"] show ?thesis
    using d r clean by (simp add: cmd_defs)
qed

section \<open>Several front-ends at once\<close>

lemma serviceStep_tunnel_ok:
  assumes "serviceStep E move s s'" "tunnel_ok (svTunnel s)"
  shows "tunnel_ok (svTunnel s')"
  using assms
proof cases
  case (connect configText name)
  then show ?thesis
    using Connect_ok [of s E configText name] assms(2) by (metis prod.collapse)
next
  case (watcherError i err)
  then show ?thesis
    using stopLocked_ok [of "(dropWatcher i s)\<lparr>svLog := l\<rparr>" E for l] assms(2)
    by (auto simp: watcherError_def dropWatcher_def Let_def split: option.splits)
qed (auto simp: Disconnect_def Logs_ok dropWatcher_def dest: stopLocked_ok)

text \<open>
  C2: several connections drive one tunnel, their handler calls interleaved with each other and with
  the error-watching goroutines in any order.  The tunnel's session fields stay consistent; every
  status that is sent describes the tunnel at the moment it is made, whatever the others did since
  the request began; and no request is left waiting: its reply is always one step away.
\<close>

theorem concurrent_control:
  assumes "H = tunnelHandler E parse print"
    and "hubRun msg H (serviceStep E move) (initHub (initService w)) s"
  shows "tunnel_ok (svTunnel (hubH s)) \<and>
    (\<forall>s' i req resp st. hubStep msg H (serviceStep E move) s s' \<and>
       hubReplies s' = hubReplies s @ [(i, req, resp)] \<and> respStatus resp = Some st \<longrightarrow>
       (stState st = StateDisconnected) = (tunnelView (hubH s') = None) \<and>
       (\<forall>n. tunnelView (hubH s') = Some n \<longrightarrow> stName st = n)) \<and>
    (\<forall>i req logs. hubPending s i = Some (req, logs) \<longrightarrow>
       (\<exists>s' resp. hubStep msg H (serviceStep E move) s s' \<and> hubPending s' i = None \<and>
          hubReplies s' = hubReplies s @ [(i, req, resp)] \<and> respOK resp))"
proof -
  note th = th.control_handler_axioms [of E parse print]
  have ok: "tunnel_ok (svTunnel (hubH s))"
  proof (rule control_handler.hubRun_ok [OF th assms(2) [unfolded assms(1)]])
    show "tunnel_ok (svTunnel (hubH (initHub (initService w))))"
      by (simp add: initHub_def initService_def zeroTunnel_def tunnel_ok_def)
  qed (rule serviceStep_tunnel_ok)
  note reports = control_handler.hubStep_reports [OF th _ ok, folded assms(1)]
  note finishes = control_handler.hub_finishes [OF th ok, folded assms(1)]
  show ?thesis
  proof (intro conjI allI impI ok)
    fix i req logs assume "hubPending s i = Some (req, logs)"
    from finishes [OF this, of msg "serviceStep E move"]
    show "\<exists>s' resp. hubStep msg H (serviceStep E move) s s' \<and> hubPending s' i = None \<and>
        hubReplies s' = hubReplies s @ [(i, req, resp)] \<and> respOK resp"
      by (elim exE conjE) (intro exI conjI)
  qed (use reports in \<open>elim conjE, blast\<close>)+
qed

theorem concurrent_control_witness:
  "let H = tunnelHandler hostEnv (\<lambda>t. Inl (ErrText [])) (\<lambda>c. Inr []);
       req = zeroRequest\<lparr>reqCmd := CmdDisconnect\<rparr>;
       s = \<lparr>hubH = initService host0, hubPending = (\<lambda>_. None)(3 \<mapsto> (req, [])), hubReplies = []\<rparr>
   in \<exists>s' resp. hubStep (\<lambda>e. []) H (serviceStep hostEnv (\<lambda>_ _. False)) s s' \<and> hubPending s' 3 = None \<and>
        hubReplies s' = [(3, req, resp)] \<and> respOK resp"
proof -
  let ?H = "tunnelHandler hostEnv (\<lambda>t. Inl (ErrText [])) (\<lambda>c. Inr [])" and ?req = "zeroRequest\<lparr>reqCmd := CmdDisconnect\<rparr>"
  let ?s = "\<lparr>hubH = initService host0, hubPending = (\<lambda>_. None)(3 \<mapsto> (?req, [])), hubReplies = []\<rparr>"
  have "dispatchBegin (\<lambda>e. []) ?H ?req (initService host0) = (Inr [], initService host0)"
    by (simp add: dispatchBegin_def cmd_defs zeroRequest_def tunnelHandler_def Disconnect_def stopLocked_def
        initService_def zeroTunnel_def)
  then have "hubStep (\<lambda>e. []) ?H (serviceStep hostEnv (\<lambda>_ _. False)) (initHub (initService host0)) ?s"
    using hubStep.started [of "initHub (initService host0)" 3 "\<lambda>e. []" ?H ?req "[]" "initService host0"]
    by (simp add: initHub_def)
  then have "hubRun (\<lambda>e. []) ?H (serviceStep hostEnv (\<lambda>_ _. False)) (initHub (initService host0)) ?s"
    by (simp add: hubRun_def)
  from concurrent_control [OF refl this] show ?thesis
    by simp
qed

end
